theory Spec2Isabelle
  imports Main "HOL-Library.Sublist"
begin

section \<open>Data model of the game manager\<close>

text \<open>
  The embedding follows \<^verbatim>\<open>game-manager.js\<close> (class \<^verbatim>\<open>GameManager\<close>) and the socket
  handlers of \<^verbatim>\<open>server.js\<close>. JavaScript objects are records, the string-valued
  enumerations are datatypes, \<^verbatim>\<open>null\<close>/\<^verbatim>\<open>undefined\<close> is \<open>None\<close>. Mutation in place is
  state passing: a method takes the manager (or the game) and returns the new one together
  with what it returned. Since the source mutates before some of its checks, a method that
  returns an error still returns the state it left behind.

  Not modelled: the wall-clock \<^verbatim>\<open>timestamp\<close> of a chat entry, the two fields
  \<^verbatim>\<open>descriptionEndTime\<close> and \<^verbatim>\<open>votingEndTime\<close> (never written after creation), and
  payloads that are not strings. The tables \<^verbatim>\<open>votes\<close> and \<^verbatim>\<open>voteCounts\<close> are
  association lists in insertion order; JavaScript moves integer-like keys to the front,
  which is not modelled (the results below depend only on the set of keys tied at the
  maximum, not on their order). Both tables are plain objects: reading
  \<^verbatim>\<open>voteCounts[id]\<close> for a vote target that names a property of
  \<^verbatim>\<open>Object.prototype\<close> finds the inherited value, and an assignment to the key
  \<^verbatim>\<open>__proto__\<close> stores nothing. Both are modelled below. (A key of \<^verbatim>\<open>votes\<close> is a player
  id, which \<^verbatim>\<open>generateId\<close> draws from digits and lower-case letters, so no run of the
  server assigns to \<^verbatim>\<open>votes.__proto__\<close>.)
\<close>

datatype role = Civilian | Imposter

datatype pstatus = Active | Waiting | Disconnected | Eliminated

datatype gstatus = Lobby | Playing | Ended

datatype phase = PhLobby | Description | Voting | Results | PhEnded

datatype mkind = System | Player | Descr

datatype winner = Civilians | ImposterWins

record player =
  pid :: string
  name :: string
  role :: "role option"
  word :: "string option"
  status :: pstatus
  points :: nat
  hasDescribed :: bool
  hasVoted :: bool
  isCreator :: bool

record chatMessage =
  sender :: string
  message :: string
  kind :: mkind

record wordPair =
  civilian :: string
  imposter :: string

record roundResult =
  eliminatedId :: "string option"
  eliminatedName :: "string option"
  eliminatedRole :: "role option"
  winner :: "winner option"
  imposterName :: string
  civilianWord :: string
  imposterWord :: string

record game =
  gameCode :: string
  creatorId :: string
  gameStatus :: gstatus
  currentRound :: nat
  maxRounds :: nat
  players :: "player list"
  turnOrder :: "string list"
  currentTurnIndex :: int
  chatHistory :: "chatMessage list"
  votes :: "(string \<times> string) list"
  gamePhase :: phase
  wordPair :: "wordPair option"
  imposterId :: "string option"
  lastRoundResult :: "roundResult option"

text \<open>
  The failures a method reports (its \<^verbatim>\<open>{ error: ... }\<close> returns), named as the
  specification names them, and what a call yields: a failure, an uncaught
  \<^verbatim>\<open>TypeError\<close>, or a normal return with its \<^verbatim>\<open>event\<close>.
\<close>

datatype error =
  RoomNotFound | PlayerNotFound | NotHost | NotEnoughPlayers | WrongPhase | NotYourTurn
  | AlreadyDescribed | AlreadyVoted | CannotVote | EmptyName | InvalidJoinState

datatype event =
  RoundStarted | TurnUpdate | VoteUpdate | RoundResults "winner option"
  | Joined string | Renamed string string

datatype reply = Failure error | Threw | Done event

text \<open>
  The random draws of one call: the pair \<^verbatim>\<open>getRandomPair()\<close> returns (the catalogue
  \<^verbatim>\<open>word-pairs.js\<close> is a parameter), the draw for the imposter's index and the draw of
  each step of the shuffle. \<^verbatim>\<open>Math.floor(Math.random() * n)\<close> is an index below \<open>n\<close>,
  and \<open>0\<close> when \<open>n = 0\<close>: the draw reduced modulo \<open>n\<close>.
\<close>

record rng =
  pair :: wordPair
  pick :: nat
  swaps :: "nat \<Rightarrow> nat"

definition randomBelow :: "nat \<Rightarrow> nat \<Rightarrow> nat" where
  "randomBelow r n = (if n = 0 then 0 else r mod n)"

section \<open>Helpers: lookup, update in place, decimal rendering\<close>

text \<open>\<^verbatim>\<open>players.find(p => p.id === i)\<close>; the id asked for may be \<^verbatim>\<open>null\<close>.\<close>

definition hasId :: "string option \<Rightarrow> player \<Rightarrow> bool" where
  "hasId i p = (Some (pid p) = i)"

definition findPlayer :: "string option \<Rightarrow> player list \<Rightarrow> player option" where
  "findPlayer i ps = List.find (hasId i) ps"

text \<open>Assigning to fields of the object \<^verbatim>\<open>find\<close> returned: the first match changes.\<close>

fun updFirst :: "('a \<Rightarrow> bool) \<Rightarrow> ('a \<Rightarrow> 'a) \<Rightarrow> 'a list \<Rightarrow> 'a list" where
  "updFirst P f [] = []"
| "updFirst P f (x # xs) = (if P x then f x # xs else x # updFirst P f xs)"

definition setStatus :: "string option \<Rightarrow> pstatus \<Rightarrow> player list \<Rightarrow> player list" where
  "setStatus i s ps = updFirst (hasId i) (\<lambda>p. p\<lparr>status := s\<rparr>) ps"

definition capable :: "player \<Rightarrow> bool" where
  "capable p = (status p = Active \<or> status p = Disconnected)"

definition participating :: "player \<Rightarrow> bool" where
  "participating p = (status p = Active \<or> status p = Waiting \<or> status p = Disconnected)"

text \<open>A number inside a template literal: its decimal digits.\<close>

definition digitChar :: "nat \<Rightarrow> char" where
  "digitChar d = ''0123456789'' ! d"

function stringOfNat :: "nat \<Rightarrow> string" where
  "stringOfNat n =
     (if n < 10 then [digitChar n]
      else stringOfNat (n div 10) @ [digitChar (n mod 10)])"
  by pat_completeness auto
termination
  by (relation "measure (\<lambda>n. n)") auto

declare stringOfNat.simps [simp del]

definition roleStr :: "role option \<Rightarrow> string" where
  "roleStr r = (case r of None \<Rightarrow> ''null'' | Some Civilian \<Rightarrow> ''civilian''
                | Some Imposter \<Rightarrow> ''imposter'')"

definition statusStr :: "pstatus \<Rightarrow> string" where
  "statusStr s = (case s of Active \<Rightarrow> ''active'' | Waiting \<Rightarrow> ''waiting''
                  | Disconnected \<Rightarrow> ''disconnected'' | Eliminated \<Rightarrow> ''eliminated'')"

definition winnerStr :: "winner \<Rightarrow> string" where
  "winnerStr w = (case w of Civilians \<Rightarrow> ''civilians'' | ImposterWins \<Rightarrow> ''imposter'')"

definition addSystemMessage :: "string \<Rightarrow> game \<Rightarrow> game" where
  "addSystemMessage t g =
     g\<lparr>chatHistory := chatHistory g @ [\<lparr>sender = ''System'', message = t, kind = System\<rparr>]\<rparr>"

definition addChatMessage :: "string \<Rightarrow> string \<Rightarrow> mkind \<Rightarrow> game \<Rightarrow> game" where
  "addChatMessage s t k g =
     g\<lparr>chatHistory := chatHistory g @ [\<lparr>sender = s, message = t, kind = k\<rparr>]\<rparr>"

section \<open>Turns and rounds\<close>

text \<open>
  \<^verbatim>\<open>turnOrder[i]\<close> is \<^verbatim>\<open>undefined\<close> outside the array, and no player has the id
  \<^verbatim>\<open>undefined\<close>.
\<close>

definition turnAt :: "game \<Rightarrow> int \<Rightarrow> string option" where
  "turnAt g i =
     (if 0 \<le> i \<and> i < int (length (turnOrder g)) then Some (turnOrder g ! nat i) else None)"

definition turnPlayer :: "game \<Rightarrow> int \<Rightarrow> player option" where
  "turnPlayer g i = (case turnAt g i of None \<Rightarrow> None | Some t \<Rightarrow> findPlayer (Some t) (players g))"

definition eligibleAt :: "game \<Rightarrow> int \<Rightarrow> bool" where
  "eligibleAt g i = (case turnPlayer g i of None \<Rightarrow> False | Some p \<Rightarrow> capable p)"

text \<open>The \<^verbatim>\<open>while\<close> loop of \<^verbatim>\<open>advanceTurn\<close>: the first eligible index from \<open>i\<close> on.\<close>

function scanTurn :: "game \<Rightarrow> int \<Rightarrow> int option" where
  "scanTurn g i =
     (if i < int (length (turnOrder g))
      then (if eligibleAt g i then Some i else scanTurn g (i + 1))
      else None)"
  by pat_completeness auto
termination
  by (relation "measure (\<lambda>(g, i). nat (int (length (turnOrder g)) - i))") auto

declare scanTurn.simps [simp del]

definition advanceTurn :: "game \<Rightarrow> game" where
  "advanceTurn g =
     (case scanTurn g (currentTurnIndex g + 1) of
        Some i \<Rightarrow> g\<lparr>currentTurnIndex := i\<rparr>
      | None \<Rightarrow> addSystemMessage ''Voting phase started!''
                  (g\<lparr>gamePhase := Voting, currentTurnIndex := - 1\<rparr>))"

text \<open>
  Round 1 of \<^verbatim>\<open>startRound\<close>: the players that are active, waiting or disconnected are
  activated and walked with their index among themselves; index \<open>k\<close> becomes the imposter.
\<close>

fun assignRoles :: "wordPair \<Rightarrow> nat \<Rightarrow> nat \<Rightarrow> player list \<Rightarrow> player list" where
  "assignRoles pr k idx [] = []"
| "assignRoles pr k idx (p # ps) =
     (if participating p
      then (if idx = k
            then p\<lparr>status := Active, role := Some Imposter, word := Some (imposter pr),
                   hasDescribed := False, hasVoted := False\<rparr>
            else p\<lparr>status := Active, role := Some Civilian, word := Some (civilian pr),
                   hasDescribed := False, hasVoted := False\<rparr>)
           # assignRoles pr k (Suc idx) ps
      else p # assignRoles pr k idx ps)"

text \<open>The Fisher-Yates loop, \<open>i\<close> running down to 1; \<open>js i\<close> is the draw of step \<open>i\<close>.\<close>

fun shuffle :: "(nat \<Rightarrow> nat) \<Rightarrow> nat \<Rightarrow> 'a list \<Rightarrow> 'a list" where
  "shuffle js 0 xs = xs"
| "shuffle js (Suc i) xs =
     (let j = randomBelow (js (Suc i)) (Suc i + 1)
      in shuffle js i (xs[Suc i := xs ! j, j := xs ! Suc i]))"

definition resetFlags :: "player \<Rightarrow> player" where
  "resetFlags p = p\<lparr>hasDescribed := False, hasVoted := False\<rparr>"

definition startRound :: "rng \<Rightarrow> game \<Rightarrow> game" where
  "startRound r g0 =
     (let g1 = g0\<lparr>currentRound := currentRound g0 + 1, gamePhase := Description\<rparr>;
          g2 = (if currentRound g1 = 1
                then (let active = filter participating (players g1);
                          k = randomBelow (pick r) (length active)
                      in g1\<lparr>wordPair := Some (pair r),
                            players := assignRoles (pair r) k 0 (players g1),
                            imposterId := (if active = [] then imposterId g1
                                           else Some (pid (active ! k)))\<rparr>)
                else g1);
          g3 = g2\<lparr>players := map resetFlags (players g2), votes := [],
                  lastRoundResult := None\<rparr>;
          able = filter capable (players g3);
          g4 = g3\<lparr>turnOrder := map pid (shuffle (swaps r) (length able - 1) able),
                  currentTurnIndex := - 1\<rparr>
      in addSystemMessage (''Round '' @ stringOfNat (currentRound g4) @ '' started!'')
           (advanceTurn g4))"

section \<open>Voting\<close>

text \<open>
  \<^verbatim>\<open>game.votes[voterId] = candidateId\<close>: an existing key keeps its place, and a new key
  is added at the end, except for \<^verbatim>\<open>__proto__\<close>, whose setter ignores a string.
\<close>

fun putVote :: "string \<Rightarrow> string \<Rightarrow> (string \<times> string) list \<Rightarrow> (string \<times> string) list" where
  "putVote v t [] = (if v = ''__proto__'' then [] else [(v, t)])"
| "putVote v t ((k, x) # kxs) = (if k = v then (k, t) # kxs else (k, x) # putVote v t kxs)"

text \<open>
  \<^verbatim>\<open>voteCounts\<close> starts as \<^verbatim>\<open>{}\<close>, whose prototype is \<^verbatim>\<open>Object.prototype\<close>. These are
  the property names of \<^verbatim>\<open>Object.prototype\<close> in Node.js; each holds a function, but
  \<^verbatim>\<open>__proto__\<close>, an accessor that reads as the prototype object.
\<close>

definition objectPrototypeKeys :: "string list" where
  "objectPrototypeKeys =
     [''constructor'', ''__defineGetter__'', ''__defineSetter__'', ''hasOwnProperty'',
      ''__lookupGetter__'', ''__lookupSetter__'', ''isPrototypeOf'', ''propertyIsEnumerable'',
      ''toString'', ''valueOf'', ''__proto__'', ''toLocaleString'']"

text \<open>
  What an entry of \<^verbatim>\<open>voteCounts\<close> holds: a number, or a string that is no numeral.
\<close>

datatype count = Count nat | Text

text \<open>
  \<^verbatim>\<open>voteCounts[id] = (voteCounts[id] || 0) + 1\<close> for each value of \<^verbatim>\<open>votes\<close>. An own
  entry is truthy: a number grows by one, and a string with \<^verbatim>\<open>1\<close> appended is a string.
  Without an own entry the read finds \<^verbatim>\<open>undefined\<close>, and the entry becomes 1, or, for a
  name of \<^verbatim>\<open>Object.prototype\<close>, the inherited value: a function or object, truthy, and
  \<^verbatim>\<open>+ 1\<close> makes it a string (the source text of the function followed by \<^verbatim>\<open>1\<close>). The
  assignment then adds an own entry, except for \<^verbatim>\<open>__proto__\<close>, whose setter ignores a
  string.
\<close>

fun bump :: "string \<Rightarrow> (string \<times> count) list \<Rightarrow> (string \<times> count) list" where
  "bump t [] =
     (if t = ''__proto__'' then []
      else [(t, if t \<in> set objectPrototypeKeys then Text else Count 1)])"
| "bump t ((k, c) # kcs) =
     (if k = t then (k, (case c of Count n \<Rightarrow> Count (n + 1) | Text \<Rightarrow> Text)) # kcs
      else (k, c) # bump t kcs)"

definition tally :: "string list \<Rightarrow> (string \<times> count) list" where
  "tally ts = foldl (\<lambda>vc t. bump t vc) [] ts"

text \<open>
  The loop over \<^verbatim>\<open>Object.entries(voteCounts)\<close> that keeps \<^verbatim>\<open>max\<close> and \<^verbatim>\<open>candidates\<close>.
  For a string \<^verbatim>\<open>c\<close> that is no numeral, \<^verbatim>\<open>c > max\<close> compares \<^verbatim>\<open>NaN\<close> and is false, and
  \<^verbatim>\<open>c === max\<close> is false: the entry is passed over.
\<close>

fun pluralityStep :: "nat \<times> string list \<Rightarrow> string \<times> count \<Rightarrow> nat \<times> string list" where
  "pluralityStep (mx, cands) (t, Count c) =
     (if c > mx then (c, [t]) else if c = mx then (mx, cands @ [t]) else (mx, cands))"
| "pluralityStep (mx, cands) (t, Text) = (mx, cands)"

definition candidatesOf :: "(string \<times> count) list \<Rightarrow> string list" where
  "candidatesOf vc = snd (foldl pluralityStep (0, []) vc)"

text \<open>
  The specification's words, to compare the loop with: the number of votes a target has,
  and the plurality target set, all targets tied at the maximum count.
\<close>

definition voteCount :: "(string \<times> string) list \<Rightarrow> string \<Rightarrow> nat" where
  "voteCount vs t = length (filter (\<lambda>x. x = t) (map snd vs))"

definition pluralityTargets :: "(string \<times> string) list \<Rightarrow> string set" where
  "pluralityTargets vs =
     {t. t \<in> set (map snd vs) \<and> (\<forall>u. voteCount vs u \<le> voteCount vs t)}"

definition roundPoints :: "player \<Rightarrow> player" where
  "roundPoints p =
     (if capable p then p\<lparr>points := points p + (if role p = Some Imposter then 15 else 10)\<rparr>
      else p)"

definition bonusPoints :: "winner \<Rightarrow> player \<Rightarrow> player" where
  "bonusPoints w p =
     (if (w = Civilians \<and> role p = Some Civilian) \<or> (w = ImposterWins \<and> role p = Some Imposter)
      then p\<lparr>points := points p + (if w = Civilians then 50 else 100)\<rparr>
      else p)"

definition wordOr :: "(wordPair \<Rightarrow> string) \<Rightarrow> game \<Rightarrow> string" where
  "wordOr f g = (case wordPair g of None \<Rightarrow> ''?'' | Some wp \<Rightarrow> f wp)"

text \<open>
  The first half of \<^verbatim>\<open>processVotingResults\<close>: phase, tally, candidates and the
  elimination. It yields the game, \<^verbatim>\<open>elimId\<close> and \<^verbatim>\<open>winner\<close> as they stand before the
  line that looks the imposter up.
\<close>

definition eliminate :: "game \<Rightarrow> game \<times> string option \<times> winner option" where
  "eliminate g0 =
     (let g1 = g0\<lparr>gamePhase := Results\<rparr>
      in case candidatesOf (tally (map snd (votes g1))) of
           [votedTarget] \<Rightarrow>
             (if votedTarget = ''none''
              then (addSystemMessage ''Vote for 'None' won! No one eliminated.'' g1, None, None)
              else (case findPlayer (Some votedTarget) (players g1) of
                      None \<Rightarrow> (g1, Some votedTarget, None)
                    | Some p \<Rightarrow>
                        (addSystemMessage
                           (name p @ '' was eliminated! Role: '' @ roleStr (role p))
                           (g1\<lparr>players := setStatus (Some votedTarget) Eliminated (players g1)\<rparr>),
                         Some votedTarget,
                         if role p = Some Imposter then Some Civilians else None)))
         | _ \<Rightarrow> (addSystemMessage ''Tie vote! No one eliminated.'' g1, None, None))"

text \<open>
  The rest of \<^verbatim>\<open>processVotingResults\<close>. \<^verbatim>\<open>elimId ? players.find(...).name : null\<close>
  reads a field of \<^verbatim>\<open>undefined\<close> when \<^verbatim>\<open>elimId\<close> is a non-empty string that no player
  has: the call throws there, after the phase and the points have been written.
\<close>

definition processVotingResults :: "game \<Rightarrow> game \<times> reply" where
  "processVotingResults g0 =
     (let (g2, elimId, winner1) = eliminate g0;
            imp = List.find (\<lambda>p. role p = Some Imposter) (players g2);
            potentialCivs = filter (\<lambda>p. role p = Some Civilian \<and> capable p) (players g2);
            win = (if winner1 = None
                   then (if length potentialCivs \<le> 1 then Some ImposterWins else None)
                   else winner1);
            g3 = (if winner1 = None \<and> \<not> length potentialCivs \<le> 1
                  then g2\<lparr>players := map roundPoints (players g2)\<rparr> else g2);
            truthy = (elimId \<noteq> None \<and> elimId \<noteq> Some []);
            elim = findPlayer elimId (players g3)
        in if truthy \<and> elim = None then (g3, Threw)
           else
             let g4 = g3\<lparr>lastRoundResult := Some
                        \<lparr>eliminatedId = elimId,
                         eliminatedName = (if truthy then map_option name elim else None),
                         eliminatedRole = (if truthy then Option.bind elim role else None),
                         winner = win,
                         imposterName = (case imp of None \<Rightarrow> ''Unknown'' | Some i \<Rightarrow> name i),
                         civilianWord = wordOr civilian g3,
                         imposterWord = wordOr imposter g3\<rparr>\<rparr>
             in case win of
                  None \<Rightarrow> (g4, Done (RoundResults None))
                | Some w \<Rightarrow>
                    (addSystemMessage (''Game Over! '' @ winnerStr w @ '' win!'')
                       (g4\<lparr>gamePhase := PhEnded, gameStatus := Ended,
                           players := map (bonusPoints w) (players g4)\<rparr>),
                     Done (RoundResults (Some w))))"

section \<open>The methods, on one game\<close>

text \<open>
  Each method of \<^verbatim>\<open>GameManager\<close> first looks the game up; what it does to the game it
  found is a function of its own here, and the lookup is added in the next section.
\<close>

definition startGame_g :: "rng \<Rightarrow> string option \<Rightarrow> game \<Rightarrow> game \<times> reply" where
  "startGame_g r playerId g =
     (if Some (creatorId g) \<noteq> playerId then (g, Failure NotHost)
      else let g1 = g\<lparr>players := filter (\<lambda>p. status p \<noteq> Disconnected) (players g)\<rparr>
           in if length (players g1) < 3 then (g1, Failure NotEnoughPlayers)
              else (startRound r (g1\<lparr>gameStatus := Playing, currentRound := 0,
                                     chatHistory := []\<rparr>),
                    Done RoundStarted))"

text \<open>\<^verbatim>\<open>if (player.status === 'disconnected') player.status = 'active'\<close>.\<close>

definition autoReconnect :: "string option \<Rightarrow> player \<Rightarrow> game \<Rightarrow> game" where
  "autoReconnect i p g =
     (if status p = Disconnected then g\<lparr>players := setStatus i Active (players g)\<rparr> else g)"

definition submitDescription_g :: "string option \<Rightarrow> string \<Rightarrow> game \<Rightarrow> game \<times> reply" where
  "submitDescription_g playerId description g =
     (case findPlayer playerId (players g) of
        None \<Rightarrow> (g, Failure PlayerNotFound)
      | Some player \<Rightarrow>
          let g1 = autoReconnect playerId player g
          in if gamePhase g1 \<noteq> Description then (g1, Failure WrongPhase)
             else if turnAt g1 (currentTurnIndex g1) \<noteq> playerId then (g1, Failure NotYourTurn)
             else if hasDescribed player then (g1, Failure AlreadyDescribed)
             else (advanceTurn
                     (addChatMessage (name player) description Descr
                        (g1\<lparr>players := updFirst (hasId playerId)
                                          (\<lambda>p. p\<lparr>hasDescribed := True\<rparr>) (players g1)\<rparr>)),
                   Done TurnUpdate))"

text \<open>The key of the vote is \<^verbatim>\<open>voterId\<close>, which is the id of the voter just found.\<close>

definition submitVote_g :: "string option \<Rightarrow> string \<Rightarrow> game \<Rightarrow> game \<times> reply" where
  "submitVote_g voterId candidateId g =
     (if gamePhase g \<noteq> Voting then (g, Failure WrongPhase)
      else case findPlayer voterId (players g) of
        None \<Rightarrow> (g, Failure PlayerNotFound)
      | Some voter \<Rightarrow>
          let g1 = autoReconnect voterId voter g
          in if status voter \<noteq> Disconnected \<and> status voter \<noteq> Active
             then (g1, Failure CannotVote)
             else if hasVoted voter then (g1, Failure AlreadyVoted)
             else
               let g2 = g1\<lparr>votes := putVote (pid voter) candidateId (votes g1),
                           players := updFirst (hasId voterId)
                                        (\<lambda>p. p\<lparr>hasVoted := True\<rparr>) (players g1)\<rparr>;
                   activeCount = length (filter capable (players g2))
               in if length (votes g2) \<ge> activeCount then processVotingResults g2
                  else (g2, Done VoteUpdate))"

definition resetPlayer :: "player \<Rightarrow> player" where
  "resetPlayer p =
     p\<lparr>status := Active, role := None, word := None, hasDescribed := False, hasVoted := False\<rparr>"

definition startNewGame_g :: "rng \<Rightarrow> game \<Rightarrow> game \<times> reply" where
  "startNewGame_g r g =
     (startRound r (g\<lparr>gameStatus := Playing, currentRound := 0, chatHistory := [],
                      players := map resetPlayer (players g)\<rparr>),
      Done RoundStarted)"

section \<open>Names\<close>

text \<open>
  \<^verbatim>\<open>`${playerName} (${counter})`\<close>, and the loop that counts up until the name is free.
  The loop ends because the numbered names are pairwise different and the roster is
  finite; the lemmas up to \<open>dedup_decreases\<close> are its termination proof.
\<close>

definition numbered :: "string \<Rightarrow> nat \<Rightarrow> string" where
  "numbered base k = base @ '' ('' @ stringOfNat k @ '')''"

definition digitVal :: "char \<Rightarrow> nat" where
  "digitVal c = of_char c - 48"

definition natOfString :: "string \<Rightarrow> nat" where
  "natOfString s = foldl (\<lambda>a c. 10 * a + digitVal c) 0 s"

definition dedupMeasure :: "string list \<times> string \<times> string \<times> nat \<Rightarrow> nat" where
  "dedupMeasure = (\<lambda>(taken, base, cur, counter).
     card {k. counter \<le> k \<and> numbered base k \<in> set taken}
     + (if cur \<in> set taken then 1 else 0))"

lemma digit_back: "d < 10 \<Longrightarrow> digitVal (digitChar d) = d"
proof -
  assume "d < 10"
  then have "d \<in> {0, 1, 2, 3, 4, 5, 6, 7, 8, 9}" by auto
  then show ?thesis by (auto simp: digitVal_def digitChar_def)
qed

lemma natOfString_snoc: "natOfString (s @ [c]) = 10 * natOfString s + digitVal c"
  by (simp add: natOfString_def)

lemma natOfString_stringOfNat: "natOfString (stringOfNat n) = n"
proof (induction n rule: stringOfNat.induct)
  case (1 n)
  show ?case
  proof (cases "n < 10")
    case True
    then show ?thesis
      by (subst stringOfNat.simps) (simp add: natOfString_def digit_back)
  next
    case False
    then have "natOfString (stringOfNat (n div 10)) = n div 10" using 1 by simp
    with False show ?thesis
      by (subst stringOfNat.simps) (simp add: natOfString_snoc digit_back)
  qed
qed

lemma inj_stringOfNat: "inj stringOfNat"
  by (rule inj_on_inverseI [where g = natOfString]) (rule natOfString_stringOfNat)

lemma inj_numbered: "inj (numbered base)"
  using inj_stringOfNat by (auto simp: inj_def numbered_def)

lemma finite_numbered: "finite {k. c \<le> k \<and> numbered base k \<in> set taken}"
proof -
  have "finite (numbered base -` set taken)"
    by (rule finite_vimageI) (simp_all add: inj_numbered)
  moreover have "{k. c \<le> k \<and> numbered base k \<in> set taken} \<subseteq> numbered base -` set taken"
    by auto
  ultimately show ?thesis by (rule rev_finite_subset)
qed

lemma dedup_decreases:
  assumes "cur \<in> set taken"
  shows "dedupMeasure (taken, base, numbered base counter, Suc counter)
         < dedupMeasure (taken, base, cur, counter)"
proof -
  let ?S = "\<lambda>c. {k. c \<le> k \<and> numbered base k \<in> set taken}"
  show ?thesis
  proof (cases "numbered base counter \<in> set taken")
    case True
    then have "?S counter = insert counter (?S (Suc counter))"
      by (auto simp: le_Suc_eq)
    moreover have "counter \<notin> ?S (Suc counter)" by simp
    ultimately have "card (?S counter) = Suc (card (?S (Suc counter)))"
      using finite_numbered [of "Suc counter" base taken] by simp
    with True assms show ?thesis by (simp add: dedupMeasure_def)
  next
    case False
    have "k \<noteq> counter" if "numbered base k \<in> set taken" for k
      using that False by auto
    then have "?S counter = ?S (Suc counter)"
      by (auto simp: Suc_le_eq le_less)
    with False assms show ?thesis by (simp add: dedupMeasure_def)
  qed
qed

function dedupName :: "string list \<Rightarrow> string \<Rightarrow> string \<Rightarrow> nat \<Rightarrow> string" where
  "dedupName taken base cur counter =
     (if cur \<in> set taken then dedupName taken base (numbered base counter) (Suc counter)
      else cur)"
  by pat_completeness auto
termination
  by (relation "measure dedupMeasure") (simp_all add: dedup_decreases)

declare dedupName.simps [simp del]

text \<open>
  \<^verbatim>\<open>trim()\<close> on a string of 8-bit characters: the white space and line terminators
  below 256.
\<close>

definition isSpace :: "char \<Rightarrow> bool" where
  "isSpace c = ((of_char c :: nat) \<in> set [9, 10, 11, 12, 13, 32, 160])"

definition trim :: "string \<Rightarrow> string" where
  "trim s = rev (dropWhile isSpace (rev (dropWhile isSpace s)))"

definition updatePlayerName_g :: "string option \<Rightarrow> string \<Rightarrow> game \<Rightarrow> game \<times> reply" where
  "updatePlayerName_g playerId newName g =
     (case findPlayer playerId (players g) of
        None \<Rightarrow> (g, Failure PlayerNotFound)
      | Some player \<Rightarrow>
          if newName = [] \<or> length (trim newName) = 0 then (g, Failure EmptyName)
          else
            let cut = take 15 (trim newName);
                others = map name (filter (\<lambda>p. \<not> hasId playerId p) (players g));
                finalName = dedupName others cut cut 1;
                oldName = name player
            in (addSystemMessage (oldName @ '' changed their name to '' @ finalName)
                  (g\<lparr>players := updFirst (hasId playerId) (\<lambda>p. p\<lparr>name := finalName\<rparr>)
                                   (players g)\<rparr>),
                Done (Renamed oldName finalName)))"

section \<open>The manager\<close>

text \<open>
  The three tables of \<^verbatim>\<open>GameManager\<close>. A deletion timer is pending exactly for the keys
  of \<^verbatim>\<open>deletionTimers\<close> (every path that sets one clears the old one, and the timer
  deletes its own key), so the table is the set of its keys.
\<close>

record manager =
  games :: "string \<rightharpoonup> game"
  playerSessions :: "string \<rightharpoonup> string \<times> string"
  deletionTimers :: "string set"

definition getPlayerId :: "manager \<Rightarrow> string \<Rightarrow> string option" where
  "getPlayerId m socketId = map_option snd (playerSessions m socketId)"

definition onGame :: "string \<Rightarrow> (game \<Rightarrow> game \<times> reply) \<Rightarrow> manager \<Rightarrow> manager \<times> reply" where
  "onGame code f m =
     (case games m code of
        None \<Rightarrow> (m, Failure RoomNotFound)
      | Some g \<Rightarrow> (case f g of (g', r) \<Rightarrow> (m\<lparr>games := (games m)(code \<mapsto> g')\<rparr>, r)))"

definition startGame :: "rng \<Rightarrow> string \<Rightarrow> string option \<Rightarrow> manager \<Rightarrow> manager \<times> reply" where
  "startGame r code playerId m = onGame code (startGame_g r playerId) m"

definition submitDescription ::
  "string \<Rightarrow> string option \<Rightarrow> string \<Rightarrow> manager \<Rightarrow> manager \<times> reply" where
  "submitDescription code playerId description m =
     onGame code (submitDescription_g playerId description) m"

definition submitVote ::
  "string \<Rightarrow> string option \<Rightarrow> string \<Rightarrow> manager \<Rightarrow> manager \<times> reply" where
  "submitVote code voterId candidateId m =
     onGame code (submitVote_g voterId candidateId) m"

definition startNewGame :: "rng \<Rightarrow> string \<Rightarrow> string option \<Rightarrow> manager \<Rightarrow> manager \<times> reply" where
  "startNewGame r code playerId m = onGame code (startNewGame_g r) m"

definition updatePlayerName ::
  "string \<Rightarrow> string option \<Rightarrow> string \<Rightarrow> manager \<Rightarrow> manager \<times> reply" where
  "updatePlayerName code playerId newName m =
     onGame code (updatePlayerName_g playerId newName) m"

text \<open>
  \<^verbatim>\<open>generateGameCode\<close> draws until the code is not in use; \<open>draws\<close> are the codes
  drawn, in order, and \<open>None\<close> says that none of them was free (the loop is still
  running). \<^verbatim>\<open>generateId\<close> draws once and checks nothing: its draw is \<open>newId\<close>.
\<close>

definition generateGameCode :: "string list \<Rightarrow> manager \<Rightarrow> string option" where
  "generateGameCode draws m = List.find (\<lambda>c. games m c = None) draws"

definition newGame :: "string \<Rightarrow> string \<Rightarrow> string \<Rightarrow> game" where
  "newGame code playerId creatorName =
     \<lparr>gameCode = code, creatorId = playerId, gameStatus = Lobby, currentRound = 0,
      maxRounds = 5,
      players = [\<lparr>pid = playerId, name = creatorName, role = None, word = None,
                  status = Active, points = 0, hasDescribed = False, hasVoted = False,
                  isCreator = True\<rparr>],
      turnOrder = [], currentTurnIndex = 0, chatHistory = [], votes = [],
      gamePhase = PhLobby, wordPair = None, imposterId = None, lastRoundResult = None\<rparr>"

definition createGame ::
  "string \<Rightarrow> string \<Rightarrow> string list \<Rightarrow> string \<Rightarrow> manager \<Rightarrow> manager option" where
  "createGame socketId creatorName draws newId m =
     (case generateGameCode draws m of
        None \<Rightarrow> None
      | Some code \<Rightarrow>
          Some (m\<lparr>games := (games m)(code \<mapsto> newGame code newId creatorName),
                  playerSessions := (playerSessions m)(socketId \<mapsto> (code, newId))\<rparr>))"

text \<open>
  The reconnection test of \<^verbatim>\<open>joinGame\<close>: \<^verbatim>\<open>previousPlayerId\<close> is truthy (given and not
  the empty string), a player has it, and the stored name is the name asked for.
\<close>

definition reconnecting :: "string option \<Rightarrow> string \<Rightarrow> game \<Rightarrow> player option" where
  "reconnecting previousPlayerId playerName g =
     (if previousPlayerId = None \<or> previousPlayerId = Some [] then None
      else case findPlayer previousPlayerId (players g) of
             None \<Rightarrow> None
           | Some existing \<Rightarrow> if name existing = playerName then Some existing else None)"

definition restoredStatus :: "game \<Rightarrow> player \<Rightarrow> pstatus" where
  "restoredStatus g existing =
     (if gameStatus g = Lobby \<or> gameStatus g = Ended then Active
      else if role existing \<noteq> None then Active else Waiting)"

definition joinNew :: "string \<Rightarrow> string \<Rightarrow> game \<Rightarrow> game" where
  "joinNew playerName newId g =
     (let st = (if gameStatus g = Lobby \<or> gameStatus g = Ended then Active else Waiting);
          first = (length (players g) = 0);
          g1 = (if first then g\<lparr>creatorId := newId\<rparr> else g);
          newName = dedupName (map name (players g1)) playerName playerName 1;
          newPlayer = \<lparr>pid = newId, name = newName, role = None, word = None, status = st,
                       points = 0, hasDescribed = False, hasVoted = False,
                       isCreator = first\<rparr>
      in addSystemMessage (newName @ '' joined as '' @ statusStr st)
           (g1\<lparr>players := players g1 @ [newPlayer]\<rparr>))"

definition joinGame ::
  "string \<Rightarrow> string \<Rightarrow> string \<Rightarrow> string option \<Rightarrow> string \<Rightarrow> manager \<Rightarrow> manager \<times> reply" where
  "joinGame code socketId playerName previousPlayerId newId m =
     (case games m code of
        None \<Rightarrow> (m, Failure RoomNotFound)
      | Some g \<Rightarrow>
          (let m1 = m\<lparr>deletionTimers := deletionTimers m - {code}\<rparr>
           in (case reconnecting previousPlayerId playerName g of
               Some existing \<Rightarrow>
                 (let g' = (if status existing = Disconnected
                            then g\<lparr>players := setStatus previousPlayerId
                                                 (restoredStatus g existing) (players g)\<rparr>
                            else g)
                  in (m1\<lparr>games := (games m1)(code \<mapsto> g'),
                         playerSessions :=
                           (playerSessions m1)(socketId \<mapsto> (code, pid existing))\<rparr>,
                      Done (Joined (pid existing))))
             | None \<Rightarrow>
                 if gameStatus g \<noteq> Lobby \<and> gameStatus g \<noteq> Playing \<and> gameStatus g \<noteq> Ended
                 then (m1, Failure InvalidJoinState)
                 else (m1\<lparr>games := (games m1)(code \<mapsto> joinNew playerName newId g),
                          playerSessions :=
                            (playerSessions m1)(socketId \<mapsto> (code, newId))\<rparr>,
                       Done (Joined newId)))))"

section \<open>Disconnects and timers\<close>

text \<open>
  \<^verbatim>\<open>setTimeout\<close> callbacks are data: \<^verbatim>\<open>leaveGame\<close> returns the grace timer it scheduled,
  of the kind its branch chose (lobby or in game), with the game code and player id the
  closure captured. \<open>NextRound\<close> is the timer of the \<^verbatim>\<open>submit-vote\<close> handler.
\<close>

datatype timer = LobbyGrace string string | GameGrace string string | NextRound string

definition leaveGame :: "string \<Rightarrow> manager \<Rightarrow> manager \<times> timer option" where
  "leaveGame socketId m =
     (case playerSessions m socketId of
        None \<Rightarrow> (m, None)
      | Some (code, playerId) \<Rightarrow>
          (let m1 = m\<lparr>playerSessions := (playerSessions m)(socketId := None)\<rparr>
           in (case games m1 code of
               None \<Rightarrow> (m1, None)
             | Some g \<Rightarrow>
                 if findPlayer (Some playerId) (players g) = None then (m1, None)
                 else
                   let g' = g\<lparr>players := setStatus (Some playerId) Disconnected (players g)\<rparr>;
                       t = (if gameStatus g = Lobby then LobbyGrace code playerId
                            else GameGrace code playerId);
                       hasConnectedPlayers = list_ex (\<lambda>p. status p \<noteq> Disconnected) (players g')
                   in (m1\<lparr>games := (games m1)(code \<mapsto> g'),
                          deletionTimers := (if hasConnectedPlayers then deletionTimers m1
                                             else insert code (deletionTimers m1))\<rparr>,
                       Some t))))"

text \<open>\<^verbatim>\<open>players.splice(players.indexOf(p), 1)\<close> for the \<open>p\<close> that \<^verbatim>\<open>find\<close> returned.\<close>

fun removeFirst :: "('a \<Rightarrow> bool) \<Rightarrow> 'a list \<Rightarrow> 'a list" where
  "removeFirst P [] = []"
| "removeFirst P (x # xs) = (if P x then xs else x # removeFirst P xs)"

definition lobbyGraceFired_g :: "string \<Rightarrow> game \<Rightarrow> game" where
  "lobbyGraceFired_g playerId g =
     (case findPlayer (Some playerId) (players g) of
        None \<Rightarrow> g
      | Some p \<Rightarrow>
          if status p \<noteq> Disconnected then g
          else
            (let g1 = addSystemMessage (name p @ '' left the lobby'')
                       (g\<lparr>players := removeFirst (hasId (Some playerId)) (players g)\<rparr>)
             in (case players g1 of
                 [] \<Rightarrow> g1
               | q # qs \<Rightarrow>
                   if isCreator p
                   then addSystemMessage (name q @ '' is now the host'')
                          (g1\<lparr>players := q\<lparr>isCreator := True\<rparr> # qs, creatorId := pid q\<rparr>)
                   else g1)))"

definition endedBy :: "winner \<Rightarrow> string \<Rightarrow> string \<Rightarrow> game \<Rightarrow> game" where
  "endedBy w impName msg g =
     addSystemMessage msg
       (g\<lparr>gamePhase := PhEnded, gameStatus := Ended,
          lastRoundResult := Some
            \<lparr>eliminatedId = None, eliminatedName = None, eliminatedRole = None,
             winner = Some w, imposterName = impName,
             civilianWord = wordOr civilian g, imposterWord = wordOr imposter g\<rparr>\<rparr>)"

text \<open>
  The in-game grace timer, for the player \<open>p\<close> it found still disconnected, in a room
  that is playing. Its first step skips the turn of \<open>p\<close>, and its third ends the game
  when \<open>p\<close> was the imposter or too few civilians are left.
\<close>

definition skipTurnOf :: "string \<Rightarrow> player \<Rightarrow> game \<Rightarrow> game" where
  "skipTurnOf playerId p g =
     (if gamePhase g = Description \<and> turnAt g (currentTurnIndex g) = Some playerId
      then advanceTurn
             (addSystemMessage (''Skipping '' @ name p @ [CHR 0x27] @ ''s turn...'') g)
      else g)"

definition disconnectWin :: "player \<Rightarrow> game \<Rightarrow> game" where
  "disconnectWin p g =
     (if role p = Some Imposter
      then endedBy Civilians (name p @ '' (Disconnected)'')
             ''Imposter disconnected! Civilians win!'' g
      else if role p = Some Civilian
              \<and> length (filter (\<lambda>q. role q = Some Civilian \<and> capable q) (players g)) \<le> 1
      then endedBy ImposterWins
             (case List.find (\<lambda>q. role q = Some Imposter) (players g) of
                None \<Rightarrow> ''Unknown'' | Some i \<Rightarrow> name i)
             ''Not enough civilians! Imposter wins!'' g
      else g)"

text \<open>
  The whole callback. Its second step finishes the voting early; the flag is true when
  \<^verbatim>\<open>processVotingResults\<close> threw inside the callback.
\<close>

definition gameGraceFired_g :: "string \<Rightarrow> player \<Rightarrow> game \<Rightarrow> game \<times> bool" where
  "gameGraceFired_g playerId p g0 =
     (let g1 = addSystemMessage (name p @ '' disconnected'') g0
      in if gameStatus g1 \<noteq> Playing then (g1, False)
         else
           let g2 = skipTurnOf playerId p g1;
               activeCount = length (filter capable (players g2));
               (g3, r) = (if gamePhase g2 = Voting \<and> length (votes g2) \<ge> activeCount
                             \<and> activeCount > 0
                          then processVotingResults g2 else (g2, Done VoteUpdate))
           in if r = Threw then (g3, True) else (disconnectWin p g3, False))"

definition gameGraceFired :: "string \<Rightarrow> string \<Rightarrow> manager \<Rightarrow> manager \<times> bool" where
  "gameGraceFired code playerId m =
     (case games m code of
        None \<Rightarrow> (m, False)
      | Some g \<Rightarrow>
          (case findPlayer (Some playerId) (players g) of
             None \<Rightarrow> (m, False)
           | Some p \<Rightarrow>
               if status p \<noteq> Disconnected then (m, False)
               else (case gameGraceFired_g playerId p g of
                       (g', threw) \<Rightarrow> (m\<lparr>games := (games m)(code \<mapsto> g')\<rparr>, threw))))"

definition lobbyGraceFired :: "string \<Rightarrow> string \<Rightarrow> manager \<Rightarrow> manager" where
  "lobbyGraceFired code playerId m =
     (case games m code of
        None \<Rightarrow> m
      | Some g \<Rightarrow> m\<lparr>games := (games m)(code \<mapsto> lobbyGraceFired_g playerId g)\<rparr>)"

definition deletionFired :: "string \<Rightarrow> manager \<Rightarrow> manager" where
  "deletionFired code m =
     m\<lparr>games := (games m)(code := None), deletionTimers := deletionTimers m - {code}\<rparr>"

section \<open>The server: handlers and timer firings\<close>

text \<open>
  The state of the process is the manager and the grace and next-round timers still
  pending. An input is a socket event with its payload (and the random draws the call
  will make), or the firing of a pending timer. Each handler takes the player id from the
  session of its socket and the game code from the payload. \<open>step\<close> is \<open>None\<close> when the
  input cannot happen (a timer that is not pending, a code generation that never
  returns) or when the handler throws, which nothing catches. Delays are not modelled: a
  pending timer may fire at any later moment. The next-round timer holds the game object,
  not its code; once the game is deleted the object is unreachable, so the deletion drops
  the timer.
\<close>

record server =
  mgr :: manager
  timers :: "timer list"

datatype input =
  CreateGame string string "string list" string
  | JoinGame string string string "string option" string
  | StartGame string string rng
  | SubmitDescription string string string
  | SubmitVote string string string
  | SendChat string string string
  | StartNewGame string string rng
  | UpdatePlayerName string string string
  | Disconnect string
  | Fire timer rng
  | FireDeletion string

definition sendChat :: "string \<Rightarrow> string \<Rightarrow> string \<Rightarrow> manager \<Rightarrow> manager" where
  "sendChat socketId code msg m =
     (case games m code of
        None \<Rightarrow> m
      | Some g \<Rightarrow>
          (case getPlayerId m socketId of
             None \<Rightarrow> m
           | Some playerId \<Rightarrow>
               if playerId = [] then m
               else if gamePhase g = Description \<or> gamePhase g = Voting then m
               else (case findPlayer (Some playerId) (players g) of
                       None \<Rightarrow> m
                     | Some player \<Rightarrow>
                         m\<lparr>games := (games m)(code \<mapsto>
                              addChatMessage (name player) msg Player g)\<rparr>)))"

definition nextRoundFired :: "rng \<Rightarrow> string \<Rightarrow> manager \<Rightarrow> manager" where
  "nextRoundFired r code m =
     (case games m code of
        None \<Rightarrow> m
      | Some g \<Rightarrow> m\<lparr>games := (games m)(code \<mapsto> startRound r g)\<rparr>)"

definition fired :: "timer \<Rightarrow> rng \<Rightarrow> manager \<Rightarrow> manager option" where
  "fired t r m =
     (case t of
        LobbyGrace code playerId \<Rightarrow> Some (lobbyGraceFired code playerId m)
      | GameGrace code playerId \<Rightarrow>
          (case gameGraceFired code playerId m of
             (m', threw) \<Rightarrow> if threw then None else Some m')
      | NextRound code \<Rightarrow> Some (nextRoundFired r code m))"

definition voteHandled :: "string \<Rightarrow> manager \<times> reply \<Rightarrow> server \<Rightarrow> server option" where
  "voteHandled code res s =
     (case res of
        (m, Threw) \<Rightarrow> None
      | (m, Done (RoundResults None)) \<Rightarrow> Some (s\<lparr>mgr := m, timers := timers s @ [NextRound code]\<rparr>)
      | (m, _) \<Rightarrow> Some (s\<lparr>mgr := m\<rparr>))"

fun step :: "input \<Rightarrow> server \<Rightarrow> server option" where
  "step (CreateGame socketId playerName draws newId) s =
     map_option (\<lambda>m. s\<lparr>mgr := m\<rparr>) (createGame socketId playerName draws newId (mgr s))"
| "step (JoinGame socketId code playerName previousPlayerId newId) s =
     Some (s\<lparr>mgr := fst (joinGame code socketId playerName previousPlayerId newId (mgr s))\<rparr>)"
| "step (StartGame socketId code r) s =
     Some (s\<lparr>mgr := fst (startGame r code (getPlayerId (mgr s) socketId) (mgr s))\<rparr>)"
| "step (SubmitDescription socketId code description) s =
     Some (s\<lparr>mgr := fst (submitDescription code (getPlayerId (mgr s) socketId) description
                             (mgr s))\<rparr>)"
| "step (SubmitVote socketId code votedPlayerId) s =
     voteHandled code (submitVote code (getPlayerId (mgr s) socketId) votedPlayerId (mgr s)) s"
| "step (SendChat socketId code msg) s = Some (s\<lparr>mgr := sendChat socketId code msg (mgr s)\<rparr>)"
| "step (StartNewGame socketId code r) s =
     Some (s\<lparr>mgr := fst (startNewGame r code (getPlayerId (mgr s) socketId) (mgr s))\<rparr>)"
| "step (UpdatePlayerName socketId code newName) s =
     Some (s\<lparr>mgr := fst (updatePlayerName code (getPlayerId (mgr s) socketId) newName
                             (mgr s))\<rparr>)"
| "step (Disconnect socketId) s =
     (case leaveGame socketId (mgr s) of
        (m, t) \<Rightarrow> Some (s\<lparr>mgr := m,
                           timers := timers s @ (case t of None \<Rightarrow> [] | Some x \<Rightarrow> [x])\<rparr>))"
| "step (Fire t r) s =
     (if t \<in> set (timers s)
      then map_option (\<lambda>m. s\<lparr>mgr := m, timers := remove1 t (timers s)\<rparr>) (fired t r (mgr s))
      else None)"
| "step (FireDeletion code) s =
     (if code \<in> deletionTimers (mgr s)
      then Some (s\<lparr>mgr := deletionFired code (mgr s),
                   timers := filter (\<lambda>t. t \<noteq> NextRound code) (timers s)\<rparr>)
      else None)"

fun run :: "input list \<Rightarrow> server \<Rightarrow> server option" where
  "run [] s = Some s"
| "run (i # is) s = (case step i s of None \<Rightarrow> None | Some s' \<Rightarrow> run is s')"

definition initial :: server where
  "initial = \<lparr>mgr = \<lparr>games = Map.empty, playerSessions = Map.empty, deletionTimers = {}\<rparr>,
              timers = []\<rparr>"

definition reachable :: "server \<Rightarrow> bool" where
  "reachable s = (\<exists>is. run is initial = Some s)"

section \<open>Notions for the proofs\<close>

text \<open>
  \<open>plainVotes\<close>: the votes whose target is no name of \<^verbatim>\<open>Object.prototype\<close>.
  \<open>counted vc ts\<close>: the table \<open>vc\<close> holds each target of \<open>ts\<close> once, but
  \<^verbatim>\<open>__proto__\<close>, with the number of its occurrences, or with a string if it is such a
  name. \<open>bonusOf\<close>: the bonus a role earns when \<open>w\<close> wins.
\<close>

definition plainVotes :: "(string \<times> string) list \<Rightarrow> (string \<times> string) list" where
  "plainVotes vs = filter (\<lambda>x. snd x \<notin> set objectPrototypeKeys) vs"

definition counted :: "(string \<times> count) list \<Rightarrow> string list \<Rightarrow> bool" where
  "counted vc ts =
     (distinct (map fst vc)
      \<and> (\<forall>u. map_of vc u
             = (if u \<in> set ts \<and> u \<noteq> ''__proto__''
                then Some (if u \<in> set objectPrototypeKeys then Text
                           else Count (length (filter (\<lambda>x. x = u) ts)))
                else None)))"

definition bonusOf :: "winner \<Rightarrow> role option \<Rightarrow> nat" where
  "bonusOf w r = (if w = Civilians \<and> r = Some Civilian then 50
                  else if w = ImposterWins \<and> r = Some Imposter then 100 else 0)"

text \<open>The roster and the turn order that \<^verbatim>\<open>startRound\<close> leaves.\<close>

definition roundPlayers :: "rng \<Rightarrow> game \<Rightarrow> player list" where
  "roundPlayers r g =
     map resetFlags
       (if currentRound g = 0
        then assignRoles (pair r)
               (randomBelow (pick r) (length (filter participating (players g)))) 0 (players g)
        else players g)"

text \<open>
  \<open>turnSound\<close>: the turn pointer is \<open>-1\<close> in the voting phase and inside
  \<^verbatim>\<open>turnOrder\<close> in the description phase. \<open>allSound\<close>: in every room.
\<close>

definition turnSound :: "game \<Rightarrow> bool" where
  "turnSound g =
     ((gamePhase g = Voting \<longrightarrow> currentTurnIndex g = - 1)
      \<and> (gamePhase g = Description \<longrightarrow>
           0 \<le> currentTurnIndex g \<and> currentTurnIndex g < int (length (turnOrder g))))"

definition allSound :: "manager \<Rightarrow> bool" where
  "allSound m = (\<forall>c g. games m c = Some g \<longrightarrow> turnSound g)"

section \<open>Sample runs\<close>

text \<open>
  Concrete inputs for the closed theorems below. The draws of \<open>r0\<close> make the first
  participant the imposter and leave the turn order as the roster has it. \<open>runs xs\<close>
  says that the inputs \<open>xs\<close> can happen one after the other from the empty server, and
  \<open>stateAfter xs\<close> is then the state they lead to. The sockets are \<open>s1\<close>, \<open>s2\<close>, ...
  and the players drawn for them \<open>a\<close>, \<open>b\<close>, ...
\<close>

definition stateAfter :: "input list \<Rightarrow> server" where
  "stateAfter xs = (case run xs initial of None \<Rightarrow> initial | Some s \<Rightarrow> s)"

definition runs :: "input list \<Rightarrow> bool" where
  "runs xs = (\<not> Option.is_none (run xs initial))"

definition roomAfter :: "input list \<Rightarrow> game option" where
  "roomAfter xs = games (mgr (stateAfter xs)) ''ROOM01''"

definition r0 :: rng where
  "r0 = \<lparr>pair = \<lparr>civilian = ''cat'', imposter = ''dog''\<rparr>, pick = 0, swaps = (\<lambda>i. i)\<rparr>"

definition lobby3 :: "input list" where
  "lobby3 = [CreateGame ''s1'' ''Alice'' [''ROOM01''] ''a'',
             JoinGame ''s2'' ''ROOM01'' ''Bob'' None ''b'',
             JoinGame ''s3'' ''ROOM01'' ''Carol'' None ''c'']"

definition described3 :: "input list" where
  "described3 = [SubmitDescription ''s1'' ''ROOM01'' ''furry'',
                 SubmitDescription ''s2'' ''ROOM01'' ''pet'',
                 SubmitDescription ''s3'' ''ROOM01'' ''meow'']"

definition voting3 :: "input list" where
  "voting3 = lobby3 @ [StartGame ''s1'' ''ROOM01'' r0] @ described3"

definition ghostVotes :: "input list" where
  "ghostVotes = voting3 @ [SubmitVote ''s1'' ''ROOM01'' ''ghost'',
                           SubmitVote ''s2'' ''ROOM01'' ''ghost'']"

definition staleSocket :: "input list" where
  "staleSocket = lobby3 @ [StartGame ''s1'' ''ROOM01'' r0,
                           JoinGame ''s2b'' ''ROOM01'' ''Bob'' (Some ''b'') ''x'',
                           Disconnect ''s2'']"

definition lobbyLeft :: "input list" where
  "lobbyLeft = lobby3 @ [Disconnect ''s3'']"

text \<open>
  The room of a run, and two games entering vote resolution: the room after two votes
  with the third vote recorded.
\<close>

definition roomOr :: "input list \<Rightarrow> game" where
  "roomOr xs = (case roomAfter xs of None \<Rightarrow> newGame [] [] [] | Some g \<Rightarrow> g)"

definition ballotA :: game where
  "ballotA = (let g = roomOr (voting3 @ [SubmitVote ''s2'' ''ROOM01'' ''a'',
                                         SubmitVote ''s3'' ''ROOM01'' ''a''])
              in g\<lparr>votes := putVote ''a'' ''none'' (votes g)\<rparr>)"

definition ballotTie :: game where
  "ballotTie = (let g = roomOr (voting3 @ [SubmitVote ''s2'' ''ROOM01'' ''c'',
                                           SubmitVote ''s3'' ''ROOM01'' ''a''])
                in g\<lparr>votes := putVote ''a'' ''b'' (votes g)\<rparr>)"

text \<open>
  Four players; \<open>d\<close>, a civilian, is voted out in round 1 (\<open>dVotedOut\<close>); round 2
  starts and is played up to its last vote (\<open>round2\<close>). \<open>ballotLate\<close> is that room with the last vote recorded, and
  \<open>ballotB\<close> a room of three in which the civilian \<open>b\<close> is about to be voted out.
\<close>

definition dVotedOut :: "input list" where
  "dVotedOut = lobby3 @ [JoinGame ''s4'' ''ROOM01'' ''Dave'' None ''d'',
                         StartGame ''s1'' ''ROOM01'' r0] @ described3
               @ [SubmitDescription ''s4'' ''ROOM01'' ''tail'',
                  SubmitVote ''s1'' ''ROOM01'' ''d'', SubmitVote ''s2'' ''ROOM01'' ''d'',
                  SubmitVote ''s3'' ''ROOM01'' ''d'', SubmitVote ''s4'' ''ROOM01'' ''none'']"

definition round2 :: "input list" where
  "round2 = dVotedOut @ [Fire (NextRound ''ROOM01'') r0] @ described3
            @ [SubmitVote ''s1'' ''ROOM01'' ''b'', SubmitVote ''s2'' ''ROOM01'' ''a'']"

definition ballotLate :: game where
  "ballotLate = (let g = roomOr round2 in g\<lparr>votes := putVote ''c'' ''a'' (votes g)\<rparr>)"

definition ballotB :: game where
  "ballotB = (let g = roomOr (voting3 @ [SubmitVote ''s1'' ''ROOM01'' ''b'',
                                         SubmitVote ''s3'' ''ROOM01'' ''b''])
              in g\<lparr>votes := putVote ''b'' ''none'' (votes g)\<rparr>)"

text \<open>
  \<open>spectator\<close>: \<open>d\<close> joins a running game as a spectator; round 1 ends in a tie; \<open>d\<close>
  disconnects before round 2 starts, is drawn first in its turn order (the draws
  \<open>r1\<close>; this is \<open>spectatorGone\<close>), and then reconnects. \<open>emptyRoom\<close>: the only player of a lobby leaves, the
  grace timer removes them, and somebody asks for a new game. \<open>firstTurn\<close> is a room of
  three at the first turn of round 1, \<open>inLobby\<close> the same room as \<^verbatim>\<open>startGame\<close> hands it
  to \<^verbatim>\<open>startRound\<close>.
\<close>

definition r1 :: rng where
  "r1 = \<lparr>pair = \<lparr>civilian = ''cat'', imposter = ''dog''\<rparr>, pick = 0,
         swaps = (\<lambda>i. if i = 3 then 0 else i)\<rparr>"

definition spectatorGone :: "input list" where
  "spectatorGone = lobby3 @ [StartGame ''s1'' ''ROOM01'' r0,
                             JoinGame ''s4'' ''ROOM01'' ''Dave'' None ''d''] @ described3
                   @ [SubmitVote ''s1'' ''ROOM01'' ''b'', SubmitVote ''s2'' ''ROOM01'' ''c'',
                      SubmitVote ''s3'' ''ROOM01'' ''a'',
                      Disconnect ''s4'',
                      Fire (NextRound ''ROOM01'') r1]"

definition spectator :: "input list" where
  "spectator = spectatorGone @ [JoinGame ''s5'' ''ROOM01'' ''Dave'' (Some ''d'') ''e'']"

definition emptyRoom :: "input list" where
  "emptyRoom = [CreateGame ''s1'' ''Alice'' [''ROOM01''] ''a'',
                Disconnect ''s1'',
                Fire (LobbyGrace ''ROOM01'' ''a'') r0,
                StartNewGame ''s2'' ''ROOM01'' r0]"

definition firstTurn :: game where
  "firstTurn = roomOr (lobby3 @ [StartGame ''s1'' ''ROOM01'' r0])"

definition inLobby :: game where
  "inLobby = (roomOr lobby3)\<lparr>gameStatus := Playing, currentRound := 0, chatHistory := []\<rparr>"

text \<open>
  \<open>bVotedOut\<close>: two of three vote for the civilian \<open>b\<close>, who abstains.
  \<open>votingSpectators\<close>: two spectators, each with a second socket open, lose the first
  one, vote (which makes them active), and then leave and reconnect, which makes them
  waiting. \<open>noVotes\<close> and \<open>twoVotes\<close> are a voting room of three before the first and
  before the last vote.
\<close>

definition bVotedOut :: "input list" where
  "bVotedOut = voting3 @ [SubmitVote ''s1'' ''ROOM01'' ''b'', SubmitVote ''s3'' ''ROOM01'' ''b'',
                          SubmitVote ''s2'' ''ROOM01'' ''none'']"

definition votingSpectators :: "input list" where
  "votingSpectators =
     lobby3 @ [StartGame ''s1'' ''ROOM01'' r0,
               JoinGame ''s4'' ''ROOM01'' ''Dave'' None ''d'',
               JoinGame ''s5'' ''ROOM01'' ''Eve'' None ''e''] @ described3
     @ [JoinGame ''s4b'' ''ROOM01'' ''Dave'' (Some ''d'') ''x'', Disconnect ''s4'',
        JoinGame ''s5b'' ''ROOM01'' ''Eve'' (Some ''e'') ''x'', Disconnect ''s5'',
        SubmitVote ''s4b'' ''ROOM01'' ''a'', SubmitVote ''s5b'' ''ROOM01'' ''a'',
        SubmitVote ''s1'' ''ROOM01'' ''b'', SubmitVote ''s2'' ''ROOM01'' ''a'',
        Disconnect ''s4b'', JoinGame ''s4c'' ''ROOM01'' ''Dave'' (Some ''d'') ''x'',
        Disconnect ''s5b'', JoinGame ''s5c'' ''ROOM01'' ''Eve'' (Some ''e'') ''x'']"

definition noVotes :: game where
  "noVotes = roomOr voting3"

definition twoVotes :: game where
  "twoVotes = roomOr (voting3 @ [SubmitVote ''s1'' ''ROOM01'' ''b'',
                                 SubmitVote ''s2'' ''ROOM01'' ''c''])"

text \<open>
  \<open>lobby4Gone\<close>: a lobby of four whose last player has just disconnected.
  \<open>prunedPlaying\<close>: a running game of three, one of them disconnected.
  \<open>staleTimer\<close>: \<open>d\<close> disconnects in the lobby and reconnects, the game starts, and \<open>d\<close>
  disconnects again while the grace timer of the lobby is still pending.
\<close>

definition lobby4Gone :: "input list" where
  "lobby4Gone = lobby3 @ [JoinGame ''s4'' ''ROOM01'' ''Dave'' None ''d'', Disconnect ''s4'']"

definition prunedPlaying :: "input list" where
  "prunedPlaying = lobby3 @ [StartGame ''s1'' ''ROOM01'' r0, Disconnect ''s3'']"

definition staleTimer :: "input list" where
  "staleTimer = lobby4Gone @ [JoinGame ''s4b'' ''ROOM01'' ''Dave'' (Some ''d'') ''x'',
                              StartGame ''s1'' ''ROOM01'' r0,
                              Disconnect ''s4b'']"

text \<open>
  \<open>inheritedTarget\<close>: in a voting room of three, \<open>a\<close> and \<open>b\<close> vote for the target
  \<^verbatim>\<open>constructor\<close>, which is no player's id, and \<open>c\<close> votes for \<open>a\<close>.
\<close>

definition inheritedTarget :: "input list" where
  "inheritedTarget = voting3 @ [SubmitVote ''s1'' ''ROOM01'' ''constructor'',
                                SubmitVote ''s2'' ''ROOM01'' ''constructor'',
                                SubmitVote ''s3'' ''ROOM01'' ''a'']"

text \<open>
  \<open>earlyLeaver\<close>: a voting room of three before the first vote, whose player \<open>c\<close> has
  disconnected. \<open>lateLeaver\<close>: the room of \<open>votingSpectators\<close>, with four votes, after
  \<open>c\<close>, who has not voted, has disconnected.
\<close>

definition earlyLeaver :: game where
  "earlyLeaver = roomOr (voting3 @ [Disconnect ''s3''])"

definition lateLeaver :: game where
  "lateLeaver = roomOr (votingSpectators @ [Disconnect ''s3''])"

section \<open>What a failing method leaves behind\<close>

lemma games_same: "games m code = Some g \<Longrightarrow> m\<lparr>games := (games m)(code \<mapsto> g)\<rparr> = m"
  by (simp add: fun_upd_idem)

lemma onGame_failure:
  assumes "onGame code f m = (m', Failure e)"
  shows "(games m code = None \<and> e = RoomNotFound \<and> m' = m)
         \<or> (\<exists>g g'. games m code = Some g \<and> f g = (g', Failure e)
               \<and> m' = m\<lparr>games := (games m)(code \<mapsto> g')\<rparr>)"
  using assms by (auto simp: onGame_def split: option.splits prod.splits)

lemma startGame_g_failure:
  assumes "startGame_g r i g = (g', Failure e)"
  shows "(e = NotHost \<and> g' = g)
         \<or> (e = NotEnoughPlayers
             \<and> g' = g\<lparr>players := filter (\<lambda>p. status p \<noteq> Disconnected) (players g)\<rparr>)"
  using assms by (auto simp: startGame_g_def Let_def split: if_splits)

lemma submitDescription_g_failure:
  assumes "submitDescription_g i d g = (g', Failure e)"
  shows "(e = PlayerNotFound \<and> g' = g)
         \<or> (e \<in> {WrongPhase, NotYourTurn, AlreadyDescribed}
             \<and> (\<exists>p. findPlayer i (players g) = Some p \<and> g' = autoReconnect i p g))"
  using assms by (auto simp: submitDescription_g_def Let_def split: option.splits if_splits)

lemma processVotingResults_no_failure: "processVotingResults g \<noteq> (g', Failure e)"
  by (auto simp: processVotingResults_def Let_def split: prod.splits option.splits)

lemma submitVote_g_failure:
  assumes "submitVote_g i t g = (g', Failure e)"
  shows "(e \<in> {WrongPhase, PlayerNotFound, CannotVote} \<and> g' = g)
         \<or> (e = AlreadyVoted
             \<and> (\<exists>p. findPlayer i (players g) = Some p \<and> g' = autoReconnect i p g))"
  using assms
  by (auto simp: submitVote_g_def Let_def autoReconnect_def processVotingResults_no_failure
           split: option.splits if_splits)

lemma updatePlayerName_g_failure:
  assumes "updatePlayerName_g i n g = (g', Failure e)"
  shows "g' = g"
  using assms by (auto simp: updatePlayerName_g_def Let_def split: option.splits if_splits)

lemma startNewGame_g_no_failure: "startNewGame_g r g \<noteq> (g', Failure e)"
  by (simp add: startNewGame_g_def)

lemma joinGame_failure:
  assumes "joinGame code sock n prev newId m = (m', Failure e)"
  shows "m' = m"
proof (cases "games m code")
  case None
  with assms show ?thesis by (simp add: joinGame_def)
next
  case (Some g)
  have "gameStatus g = Lobby \<or> gameStatus g = Playing \<or> gameStatus g = Ended"
    by (cases "gameStatus g") simp_all
  with Some assms show ?thesis
    by (auto simp: joinGame_def Let_def split: option.splits if_splits)
qed

section \<open>The tally and the candidates\<close>

text \<open>
  The table \<^verbatim>\<open>voteCounts\<close> holds each target once, with the number of votes for it
  unless it names a property of \<^verbatim>\<open>Object.prototype\<close>, and the candidates the loop leaves
  are the plurality target set of the votes for the other targets, each once.
\<close>

lemma bump_keys:
  "set (map fst (bump t vc))
   = (if t = ''__proto__'' then set (map fst vc) else insert t (set (map fst vc)))"
proof (induction vc)
  case Nil
  then show ?case by simp
next
  case (Cons a vc)
  obtain k c where a: "a = (k, c)" by (cases a)
  show ?case
  proof (cases "k = t")
    case True
    then show ?thesis by (simp add: a insert_absorb)
  next
    case False
    then have "set (map fst (bump t (a # vc))) = insert k (set (map fst (bump t vc)))"
      by (simp add: a)
    also have "\<dots> = insert k (if t = ''__proto__'' then set (map fst vc)
                               else insert t (set (map fst vc)))"
      by (simp only: Cons.IH)
    finally show ?thesis by (auto simp: a)
  qed
qed

lemma bump_good: "distinct (map fst vc) \<Longrightarrow> distinct (map fst (bump t vc))"
proof (induction vc)
  case Nil
  then show ?case by simp
next
  case (Cons a vc)
  obtain k c where a: "a = (k, c)" by (cases a)
  from Cons.prems have "distinct (map fst vc)" by simp
  then have ih: "distinct (map fst (bump t vc))" by (rule Cons.IH)
  show ?case
  proof (cases "k = t")
    case True
    with Cons.prems a show ?thesis by simp
  next
    case False
    with Cons.prems a ih bump_keys [of t vc] show ?thesis by (simp split: if_splits)
  qed
qed

lemma bump_map_of:
  "map_of (bump t vc) u
   = (if u \<noteq> t then map_of vc u
      else (case map_of vc t of
              None \<Rightarrow> (if t = ''__proto__'' then None
                        else Some (if t \<in> set objectPrototypeKeys then Text else Count 1))
            | Some (Count n) \<Rightarrow> Some (Count (n + 1))
            | Some Text \<Rightarrow> Some Text))"
  by (induction vc) (auto split: count.splits)

lemma proto_inherited: "''__proto__'' \<in> set objectPrototypeKeys"
  by (simp add: objectPrototypeKeys_def)

lemma counted_snoc:
  assumes "counted vc ts"
  shows "counted (bump t vc) (ts @ [t])"
proof -
  from assms have d: "distinct (map fst vc)"
    and m: "\<And>u. map_of vc u
             = (if u \<in> set ts \<and> u \<noteq> ''__proto__''
                then Some (if u \<in> set objectPrototypeKeys then Text
                           else Count (length (filter (\<lambda>x. x = u) ts)))
                else None)"
    by (simp_all add: counted_def)
  have "map_of (bump t vc) u
        = (if u \<in> set (ts @ [t]) \<and> u \<noteq> ''__proto__''
           then Some (if u \<in> set objectPrototypeKeys then Text
                      else Count (length (filter (\<lambda>x. x = u) (ts @ [t]))))
           else None)" for u
  proof (cases "u = t")
    case False
    then show ?thesis by (simp add: bump_map_of m)
  next
    case True
    show ?thesis
    proof (cases "t \<in> set ts")
      case True
      with \<open>u = t\<close> show ?thesis by (simp add: bump_map_of m)
    next
      case False
      then have "filter (\<lambda>x. x = t) ts = []" by (auto simp: filter_empty_conv)
      with False \<open>u = t\<close> show ?thesis by (simp add: bump_map_of m)
    qed
  qed
  with d show ?thesis by (simp add: counted_def bump_good)
qed

lemma tally_counted: "counted (foldl (\<lambda>vc t. bump t vc) [] ts) ts"
proof (induction ts rule: rev_induct)
  case Nil
  then show ?case by (simp add: counted_def)
next
  case (snoc t ts)
  then show ?case by (simp add: counted_snoc)
qed

lemma tally_distinct: "distinct (map fst (tally ts))"
  using tally_counted [of ts] by (simp add: tally_def counted_def)

lemma tally_mem:
  "((t, c) \<in> set (tally ts))
   = (t \<in> set ts \<and> t \<noteq> ''__proto__''
      \<and> c = (if t \<in> set objectPrototypeKeys then Text
               else Count (length (filter (\<lambda>x. x = t) ts))))"
proof -
  have "((t, c) \<in> set (tally ts)) = (map_of (tally ts) t = Some c)"
    using tally_distinct [of ts] by simp
  then show ?thesis
    using tally_counted [of ts] by (auto simp: tally_def counted_def)
qed

lemma tally_mem_count:
  "((t, Count n) \<in> set (tally ts))
   = (t \<in> set ts \<and> t \<notin> set objectPrototypeKeys \<and> n = length (filter (\<lambda>x. x = t) ts))"
  using proto_inherited by (auto simp: tally_mem)

lemma plurality_fst_mono: "mx \<le> fst (foldl pluralityStep (mx, cands) vc)"
proof (induction vc arbitrary: mx cands)
  case Nil
  then show ?case by simp
next
  case (Cons a vc)
  obtain t c where a: "a = (t, c)" by (cases a)
  show ?case
  proof (cases c)
    case (Count n)
    show ?thesis
      using Cons.IH [of n "[t]"] Cons.IH [of mx "cands @ [t]"] Cons.IH [of mx cands]
      by (auto simp: a Count)
  next
    case Text
    show ?thesis using Cons.IH [of mx cands] by (simp add: a Text)
  qed
qed

lemma plurality_fst_upper:
  "(t, Count c) \<in> set vc \<Longrightarrow> c \<le> fst (foldl pluralityStep (mx, cands) vc)"
proof (induction vc arbitrary: mx cands)
  case Nil
  then show ?case by simp
next
  case (Cons a vc)
  obtain t' c' where a: "a = (t', c')" by (cases a)
  show ?case
  proof (cases "(t, Count c) = a")
    case True
    then show ?thesis
      using plurality_fst_mono [of c "[t]" vc] plurality_fst_mono [of mx "cands @ [t]" vc]
            plurality_fst_mono [of mx cands vc]
      by (auto simp: a intro: order_trans)
  next
    case False
    with Cons.prems have m: "(t, Count c) \<in> set vc" by simp
    show ?thesis
    proof (cases c')
      case (Count n)
      show ?thesis
        using m Cons.IH [of n "[t']"] Cons.IH [of mx "cands @ [t']"] Cons.IH [of mx cands]
        by (auto simp: a Count)
    next
      case Text
      show ?thesis using m Cons.IH [of mx cands] by (simp add: a Text)
    qed
  qed
qed

lemma plurality_set:
  "set (snd (foldl pluralityStep (mx, cands) vc))
   = (if fst (foldl pluralityStep (mx, cands) vc) = mx then set cands else {})
     \<union> {t. (t, Count (fst (foldl pluralityStep (mx, cands) vc))) \<in> set vc}"
proof (induction vc arbitrary: mx cands)
  case Nil
  then show ?case by simp
next
  case (Cons a vc)
  obtain t c where a: "a = (t, c)" by (cases a)
  show ?case
  proof (cases c)
    case Text
    show ?thesis using Cons.IH [of mx cands] by (simp add: a Text)
  next
    case (Count n)
    consider "mx < n" | "n = mx" | "n < mx" by linarith
    then show ?thesis
    proof cases
      case 1
      then have "mx < fst (foldl pluralityStep (n, [t]) vc)"
        using plurality_fst_mono [of n "[t]" vc] by linarith
      with 1 show ?thesis using Cons.IH [of n "[t]"] by (auto simp: a Count)
    next
      case 2
      then show ?thesis using Cons.IH [of mx "cands @ [t]"] by (auto simp: a Count)
    next
      case 3
      then have "n < fst (foldl pluralityStep (mx, cands) vc)"
        using plurality_fst_mono [of mx cands vc] by linarith
      with 3 show ?thesis using Cons.IH [of mx cands] by (auto simp: a Count)
    qed
  qed
qed

lemma plurality_distinct:
  "distinct cands \<Longrightarrow> distinct (map fst vc) \<Longrightarrow> set cands \<inter> fst ` set vc = {}
   \<Longrightarrow> distinct (snd (foldl pluralityStep (mx, cands) vc))"
proof (induction vc arbitrary: mx cands)
  case Nil
  then show ?case by simp
next
  case (Cons a vc)
  obtain t c where a: "a = (t, c)" by (cases a)
  from Cons.prems a have d: "distinct (map fst vc)" and t: "t \<notin> fst ` set vc" "t \<notin> set cands"
    and i: "set cands \<inter> fst ` set vc = {}" by auto
  show ?case
  proof (cases c)
    case Text
    show ?thesis using Cons.IH [of cands mx] d i Cons.prems(1) by (simp add: a Text)
  next
    case (Count n)
    show ?thesis
      using Cons.IH [of "[t]" n] Cons.IH [of "cands @ [t]" mx] Cons.IH [of cands mx] d t i
            Cons.prems(1)
      by (auto simp: a Count)
  qed
qed

lemma plurality_fst_attained:
  "fst (foldl pluralityStep (mx, cands) vc) = mx
   \<or> (\<exists>t. (t, Count (fst (foldl pluralityStep (mx, cands) vc))) \<in> set vc)"
proof (induction vc arbitrary: mx cands)
  case Nil
  then show ?case by simp
next
  case (Cons a vc)
  obtain t c where a: "a = (t, c)" by (cases a)
  show ?case
  proof (cases c)
    case Text
    show ?thesis using Cons.IH [of mx cands] by (auto simp: a Text)
  next
    case (Count n)
    show ?thesis
      using Cons.IH [of n "[t]"] Cons.IH [of mx "cands @ [t]"] Cons.IH [of mx cands]
      by (auto simp: a Count)
  qed
qed

lemma candidates_distinct: "distinct (candidatesOf (tally ts))"
  using plurality_distinct [of "[]" "tally ts" 0] tally_distinct [of ts]
  by (simp add: candidatesOf_def)

lemma plainVotes_count:
  "voteCount (plainVotes vs) u = (if u \<in> set objectPrototypeKeys then 0 else voteCount vs u)"
proof (induction vs)
  case Nil
  then show ?case by (simp add: voteCount_def plainVotes_def)
next
  case (Cons v vs)
  then show ?case by (auto simp: voteCount_def plainVotes_def)
qed

lemma plainVotes_targets:
  "set (map snd (plainVotes vs)) = {t \<in> set (map snd vs). t \<notin> set objectPrototypeKeys}"
  by (auto simp: plainVotes_def)

lemma candidates_set:
  "set (candidatesOf (tally (map snd vs))) = pluralityTargets (plainVotes vs)"
proof -
  let ?ts = "map snd vs"
  let ?M = "fst (foldl pluralityStep (0, []) (tally ?ts))"
  have up: "voteCount (plainVotes vs) u \<le> ?M" for u
  proof (cases "u \<in> set ?ts \<and> u \<notin> set objectPrototypeKeys")
    case True
    then have "(u, Count (voteCount vs u)) \<in> set (tally ?ts)"
      by (simp add: tally_mem_count voteCount_def)
    then have "voteCount vs u \<le> ?M" by (rule plurality_fst_upper)
    with True show ?thesis by (simp add: plainVotes_count)
  next
    case False
    then consider "u \<in> set objectPrototypeKeys" | "u \<notin> set ?ts" by blast
    then show ?thesis
    proof cases
      case 1
      then show ?thesis by (simp add: plainVotes_count)
    next
      case 2
      then have "filter (\<lambda>x. x = u) ?ts = []" by (auto simp: filter_empty_conv)
      then have "voteCount vs u = 0" by (simp add: voteCount_def)
      then show ?thesis by (simp add: plainVotes_count)
    qed
  qed
  have s: "set (candidatesOf (tally ?ts)) = {t. (t, Count ?M) \<in> set (tally ?ts)}"
    using plurality_set [of 0 "[]" "tally ?ts"] by (auto simp: candidatesOf_def)
  show ?thesis
  proof (rule set_eqI)
    fix t
    show "(t \<in> set (candidatesOf (tally ?ts))) = (t \<in> pluralityTargets (plainVotes vs))"
    proof
      assume "t \<in> set (candidatesOf (tally ?ts))"
      with s have "t \<in> set ?ts" and "t \<notin> set objectPrototypeKeys" and "?M = voteCount vs t"
        by (auto simp: tally_mem_count voteCount_def)
      then have "t \<in> set (map snd (plainVotes vs))" and "?M = voteCount (plainVotes vs) t"
        using plainVotes_targets [of vs] by (auto simp: plainVotes_count)
      with up show "t \<in> pluralityTargets (plainVotes vs)"
        by (auto simp: pluralityTargets_def)
    next
      assume a: "t \<in> pluralityTargets (plainVotes vs)"
      then have "t \<in> set (map snd (plainVotes vs))"
        and le: "\<And>u. voteCount (plainVotes vs) u \<le> voteCount (plainVotes vs) t"
        by (auto simp: pluralityTargets_def)
      then have m: "t \<in> set ?ts" and p: "t \<notin> set objectPrototypeKeys"
        using plainVotes_targets [of vs] by auto
      have "?M = 0 \<or> (\<exists>u. (u, Count ?M) \<in> set (tally ?ts))"
        using plurality_fst_attained [of 0 "[]" "tally ?ts"] by simp
      then have "?M \<le> voteCount (plainVotes vs) t"
      proof
        assume "?M = 0"
        then show ?thesis by simp
      next
        assume "\<exists>u. (u, Count ?M) \<in> set (tally ?ts)"
        then obtain u where "(u, Count ?M) \<in> set (tally ?ts)" by blast
        then have "u \<notin> set objectPrototypeKeys" and "?M = voteCount vs u"
          by (simp_all add: tally_mem_count voteCount_def)
        then have "?M = voteCount (plainVotes vs) u" by (simp add: plainVotes_count)
        with le [of u] show ?thesis by simp
      qed
      with up [of t] have "?M = voteCount (plainVotes vs) t" by simp
      with p have "?M = voteCount vs t" by (simp add: plainVotes_count)
      with m p have "(t, Count ?M) \<in> set (tally ?ts)"
        by (simp add: tally_mem_count voteCount_def)
      with s show "t \<in> set (candidatesOf (tally ?ts))" by simp
    qed
  qed
qed

lemma candidates_single:
  "(candidatesOf (tally (map snd vs)) = [t]) = (pluralityTargets (plainVotes vs) = {t})"
proof
  assume "candidatesOf (tally (map snd vs)) = [t]"
  then show "pluralityTargets (plainVotes vs) = {t}" using candidates_set [of vs] by simp
next
  assume "pluralityTargets (plainVotes vs) = {t}"
  then have "set (candidatesOf (tally (map snd vs))) = {t}" by (simp add: candidates_set)
  moreover have "distinct (candidatesOf (tally (map snd vs)))" by (rule candidates_distinct)
  ultimately show "candidatesOf (tally (map snd vs)) = [t]"
    by (metis distinct.simps(2) empty_iff empty_set insert_iff list.exhaust list.set_intros(1) list.set_intros(2))
qed

lemma plainVotes_all:
  "(\<forall>x \<in> set vs. snd x \<notin> set objectPrototypeKeys) \<Longrightarrow> plainVotes vs = vs"
  by (simp add: plainVotes_def)

section \<open>Updating the player that was found\<close>

lemma updFirst_length [simp]: "length (updFirst P f xs) = length xs"
  by (induction xs) auto

lemma updFirst_map: "(\<And>x. h (f x) = h x) \<Longrightarrow> map h (updFirst P f xs) = map h xs"
  by (induction xs) auto

lemma updFirst_none: "List.find P xs = None \<Longrightarrow> updFirst P f xs = xs"
  by (induction xs) (auto split: if_splits)

lemma updFirst_nth:
  "i < length xs \<Longrightarrow>
   updFirst P f xs ! i = (if P (xs ! i) \<and> (\<forall>j < i. \<not> P (xs ! j)) then f (xs ! i) else xs ! i)"
proof (induction xs arbitrary: i)
  case Nil
  then show ?case by simp
next
  case (Cons x xs)
  show ?case
  proof (cases i)
    case 0
    then show ?thesis by simp
  next
    case (Suc k)
    with Cons.prems have k: "k < length xs" by simp
    show ?thesis
    proof (cases "P x")
      case True
      with Suc show ?thesis by auto
    next
      case False
      have "(\<forall>j < Suc k. \<not> P ((x # xs) ! j)) = (\<forall>j < k. \<not> P (xs ! j))"
        using False by (auto simp: less_Suc_eq_0_disj)
      with False Suc Cons.IH [OF k] show ?thesis by auto
    qed
  qed
qed

lemma find_updFirst:
  "List.find P xs = Some x \<Longrightarrow> P (f x) \<Longrightarrow> List.find P (updFirst P f xs) = Some (f x)"
  by (induction xs) (auto split: if_splits)

lemma setStatus_length [simp]: "length (setStatus i s ps) = length ps"
  by (simp add: setStatus_def)

lemma setStatus_none: "findPlayer i ps = None \<Longrightarrow> setStatus i s ps = ps"
  by (simp add: setStatus_def findPlayer_def updFirst_none)

lemma setStatus_pid [simp]: "map pid (setStatus i s ps) = map pid ps"
  by (simp add: setStatus_def updFirst_map)

lemma findPlayer_setStatus:
  "findPlayer i ps = Some p \<Longrightarrow> findPlayer i (setStatus i s ps) = Some (p\<lparr>status := s\<rparr>)"
  unfolding findPlayer_def setStatus_def
  by (rule find_updFirst) (auto simp: hasId_def dest: find_Some_iff [THEN iffD1])

lemma setStatus_status_nth:
  "i < length ps \<Longrightarrow>
   status (setStatus (Some t) s ps ! i)
   = (if pid (ps ! i) = t \<and> (\<forall>j < i. pid (ps ! j) \<noteq> t) then s else status (ps ! i))"
  by (auto simp: setStatus_def updFirst_nth hasId_def)

lemma eliminate_players:
  "players (fst (eliminate g))
   = (case candidatesOf (tally (map snd (votes g))) of
        [t] \<Rightarrow> if t = ''none'' then players g else setStatus (Some t) Eliminated (players g)
      | _ \<Rightarrow> players g)"
  by (auto simp: eliminate_def Let_def addSystemMessage_def setStatus_none
           split: list.splits option.splits)

lemma roundPoints_status [simp]: "status (roundPoints p) = status p"
  by (simp add: roundPoints_def)

lemma bonusPoints_status [simp]: "status (bonusPoints w p) = status p"
  by (simp add: bonusPoints_def)

lemma processVotingResults_status:
  "map status (players (fst (processVotingResults g))) = map status (players (fst (eliminate g)))"
  by (auto simp: processVotingResults_def Let_def addSystemMessage_def
           split: prod.splits option.splits)

lemma processVotingResults_length [simp]:
  "length (players (fst (processVotingResults g))) = length (players g)"
proof -
  have "length (map status (players (fst (processVotingResults g))))
        = length (map status (players (fst (eliminate g))))"
    by (simp only: processVotingResults_status)
  then show ?thesis
    by (simp add: eliminate_players split: list.splits)
qed

lemma roundPoints_find:
  "findPlayer i (map roundPoints ps) = map_option roundPoints (findPlayer i ps)"
  by (induction ps) (auto simp: findPlayer_def hasId_def roundPoints_def)

lemma imposter_voted_out:
  assumes c: "candidatesOf (tally (map snd (votes g))) = [t]" and n: "t \<noteq> ''none''"
    and f: "findPlayer (Some t) (players g) = Some p" and r: "role p = Some Imposter"
  shows "snd (processVotingResults g) = Done (RoundResults (Some Civilians))"
    and "map_option winner (lastRoundResult (fst (processVotingResults g)))
         = Some (Some Civilians)"
  using c n f r findPlayer_setStatus [OF f, of Eliminated]
  by (simp_all add: processVotingResults_def eliminate_def Let_def addSystemMessage_def)

section \<open>Points\<close>

lemma setStatus_points [simp]: "map points (setStatus i s ps) = map points ps"
  by (simp add: setStatus_def updFirst_map)

lemma setStatus_role [simp]: "map role (setStatus i s ps) = map role ps"
  by (simp add: setStatus_def updFirst_map)

lemma eliminate_points: "map points (players (fst (eliminate g))) = map points (players g)"
  by (simp add: eliminate_players split: list.splits)

lemma eliminate_role: "map role (players (fst (eliminate g))) = map role (players g)"
  by (simp add: eliminate_players split: list.splits)

lemma bonusPoints_points: "points (bonusPoints w p) = points p + bonusOf w (role p)"
  by (cases w) (auto simp: bonusPoints_def bonusOf_def)

lemma processVotingResults_winner_players:
  assumes "processVotingResults g = (g', Done (RoundResults (Some w)))"
  shows "players g' = map (bonusPoints w) (players (fst (eliminate g)))"
  using assms
  by (auto simp: processVotingResults_def Let_def addSystemMessage_def
           split: prod.splits option.splits if_splits)

lemma map_nth_eq: "map f xs = map h ys \<Longrightarrow> i < length ys \<Longrightarrow> f (xs ! i) = h (ys ! i)"
  by (metis length_map nth_map)

section \<open>Rounds and turns\<close>

lemma shuffle_length [simp]: "length (shuffle js n xs) = length xs"
  by (induction n arbitrary: xs) (simp_all add: Let_def)

lemma shuffle_set: "n < length xs \<Longrightarrow> set (shuffle js n xs) = set xs"
proof (induction n arbitrary: xs)
  case 0
  then show ?case by simp
next
  case (Suc n)
  let ?j = "randomBelow (js (Suc n)) (Suc n + 1)"
  have j: "?j < length xs" using Suc.prems by (simp add: randomBelow_def) (meson less_Suc_eq_le less_le_trans mod_less_divisor zero_less_Suc le_less_trans less_imp_le)
  let ?ys = "xs[Suc n := xs ! ?j, ?j := xs ! Suc n]"
  have "set ?ys = set xs" using Suc.prems j by (simp add: set_swap)
  moreover have "n < length ?ys" using Suc.prems by simp
  ultimately show ?case using Suc.IH [of ?ys] by (simp add: Let_def)
qed

lemma shuffle_set_all: "set (shuffle js (length xs - 1) xs) = set xs"
  by (cases xs) (simp_all add: shuffle_set)

lemma scanTurn_Some:
  "scanTurn g i = Some k \<Longrightarrow> i \<le> k \<and> k < int (length (turnOrder g)) \<and> eligibleAt g k"
proof (induction g i rule: scanTurn.induct)
  case (1 g i)
  show ?case
  proof (cases "i < int (length (turnOrder g))")
    case False
    with "1.prems" show ?thesis by (simp add: scanTurn.simps [of g i])
  next
    case True
    show ?thesis
    proof (cases "eligibleAt g i")
      case e: True
      with True "1.prems" show ?thesis by (simp add: scanTurn.simps [of g i])
    next
      case e: False
      with True "1.prems" have "scanTurn g (i + 1) = Some k"
        by (simp add: scanTurn.simps [of g i])
      with "1.IH" [OF True e] show ?thesis by simp
    qed
  qed
qed

lemma eligibleAt_cong:
  "players g' = players g \<Longrightarrow> turnOrder g' = turnOrder g \<Longrightarrow> eligibleAt g' i = eligibleAt g i"
  by (simp add: eligibleAt_def turnPlayer_def turnAt_def)

lemma advanceTurn_players [simp]: "players (advanceTurn g) = players g"
  by (simp add: advanceTurn_def addSystemMessage_def split: option.splits)

lemma advanceTurn_turnOrder [simp]: "turnOrder (advanceTurn g) = turnOrder g"
  by (simp add: advanceTurn_def addSystemMessage_def split: option.splits)

lemma advanceTurn_lands:
  "(gamePhase (advanceTurn g) = gamePhase g
      \<and> eligibleAt (advanceTurn g) (currentTurnIndex (advanceTurn g)))
   \<or> (gamePhase (advanceTurn g) = Voting \<and> currentTurnIndex (advanceTurn g) = - 1)"
proof (cases "scanTurn g (currentTurnIndex g + 1)")
  case None
  then show ?thesis by (simp add: advanceTurn_def addSystemMessage_def)
next
  case (Some k)
  then have "eligibleAt g k" by (simp add: scanTurn_Some)
  moreover have "eligibleAt (g\<lparr>currentTurnIndex := k\<rparr>) k = eligibleAt g k"
    by (rule eligibleAt_cong) simp_all
  ultimately show ?thesis using Some by (simp add: advanceTurn_def)
qed

lemma eligibleAt_iff:
  "eligibleAt g i =
   (0 \<le> i \<and> i < int (length (turnOrder g))
    \<and> (\<exists>p. findPlayer (Some (turnOrder g ! nat i)) (players g) = Some p
          \<and> (status p = Active \<or> status p = Disconnected)))"
  by (auto simp: eligibleAt_def turnPlayer_def turnAt_def capable_def split: option.splits)

lemma startRound_players: "players (startRound r g) = roundPlayers r g"
  by (simp add: startRound_def roundPlayers_def Let_def addSystemMessage_def)

lemma startRound_turnOrder_eq:
  "turnOrder (startRound r g)
   = map pid (shuffle (swaps r) (length (filter capable (roundPlayers r g)) - 1)
                (filter capable (roundPlayers r g)))"
  by (simp add: startRound_def roundPlayers_def Let_def addSystemMessage_def)

lemma startRound_turnOrder:
  "set (turnOrder (startRound r g)) = pid ` set (filter capable (roundPlayers r g))"
  by (simp only: startRound_turnOrder_eq set_map shuffle_set_all)

lemma startRound_phase:
  "(gamePhase (startRound r g) = Description
      \<and> eligibleAt (startRound r g) (currentTurnIndex (startRound r g)))
   \<or> (gamePhase (startRound r g) = Voting \<and> currentTurnIndex (startRound r g) = - 1)"
proof -
  define g4 where "g4 = (let g1 = g\<lparr>currentRound := currentRound g + 1, gamePhase := Description\<rparr>;
          g2 = (if currentRound g1 = 1
                then (let active = filter participating (players g1);
                          k = randomBelow (pick r) (length active)
                      in g1\<lparr>wordPair := Some (pair r),
                            players := assignRoles (pair r) k 0 (players g1),
                            imposterId := (if active = [] then imposterId g1
                                           else Some (pid (active ! k)))\<rparr>)
                else g1);
          g3 = g2\<lparr>players := map resetFlags (players g2), votes := [],
                  lastRoundResult := None\<rparr>;
          able = filter capable (players g3)
      in g3\<lparr>turnOrder := map pid (shuffle (swaps r) (length able - 1) able),
                  currentTurnIndex := - 1\<rparr>)"
  have ph: "gamePhase g4 = Description" by (simp add: g4_def Let_def)
  have sr: "startRound r g
            = addSystemMessage (''Round '' @ stringOfNat (currentRound g4) @ '' started!'')
                (advanceTurn g4)"
    by (simp add: startRound_def g4_def Let_def)
  have e: "eligibleAt (startRound r g) i = eligibleAt (advanceTurn g4) i" for i
    unfolding sr by (rule eligibleAt_cong) (simp_all add: addSystemMessage_def)
  have "gamePhase (startRound r g) = gamePhase (advanceTurn g4)"
    "currentTurnIndex (startRound r g) = currentTurnIndex (advanceTurn g4)"
    by (simp_all add: sr addSystemMessage_def)
  with advanceTurn_lands [of g4] ph e show ?thesis by auto
qed

lemma assignRoles_length [simp]: "length (assignRoles pr k idx ps) = length ps"
  by (induction ps arbitrary: idx) auto

lemma assignRoles_pid [simp]: "map pid (assignRoles pr k idx ps) = map pid ps"
  by (induction ps arbitrary: idx) auto

lemma assignRoles_imposters:
  "length (filter (\<lambda>(p, p'). participating p \<and> role p' = Some Imposter)
             (zip ps (assignRoles pr k idx ps)))
   = (if idx \<le> k \<and> k < idx + length (filter participating ps) then 1 else 0)"
proof (induction ps arbitrary: idx)
  case Nil
  then show ?case by simp
next
  case (Cons p ps)
  show ?case
  proof (cases "participating p")
    case False
    then show ?thesis using Cons.IH [of idx] by simp
  next
    case True
    show ?thesis
    proof (cases "idx = k")
      case k: True
      with True show ?thesis using Cons.IH [of "Suc idx"] by simp
    next
      case k: False
      with True show ?thesis using Cons.IH [of "Suc idx"] by auto
    qed
  qed
qed

lemma assignRoles_each:
  "(p, p') \<in> set (zip ps (assignRoles pr k idx ps)) \<Longrightarrow>
   (if participating p
    then status p' = Active
         \<and> ((role p' = Some Imposter \<and> word p' = Some (imposter pr))
            \<or> (role p' = Some Civilian \<and> word p' = Some (civilian pr)))
    else p' = p)"
proof (induction ps arbitrary: idx)
  case Nil
  then show ?case by simp
next
  case (Cons q ps)
  show ?case
  proof (cases "(p, p') \<in> set (zip ps (assignRoles pr k (if participating q then Suc idx else idx) ps))")
    case True
    then show ?thesis by (rule Cons.IH)
  next
    case False
    with Cons.prems show ?thesis by (auto split: if_splits)
  qed
qed

lemma resetFlags_fields [simp]:
  "role (resetFlags p) = role p" "word (resetFlags p) = word p"
  "status (resetFlags p) = status p" "pid (resetFlags p) = pid p"
  "points (resetFlags p) = points p" "name (resetFlags p) = name p"
  "hasDescribed (resetFlags p) = False" "hasVoted (resetFlags p) = False"
  by (simp_all add: resetFlags_def)

lemma zip_map_resetFlags:
  "zip ps (map resetFlags qs) = map (\<lambda>(p, q). (p, resetFlags q)) (zip ps qs)"
  by (simp add: zip_map2)

lemma randomBelow_less: "0 < n \<Longrightarrow> randomBelow r n < n"
  by (simp add: randomBelow_def)

lemma assignRoles_all_active:
  "list_all (\<lambda>p. status p = Active) ps \<Longrightarrow>
   list_all (\<lambda>p. status p = Active) (assignRoles pr k idx ps)"
  by (induction ps arbitrary: idx) auto

lemma roundPlayers_all_active:
  "list_all (\<lambda>p. status p = Active) (players g) \<Longrightarrow>
   list_all (\<lambda>p. status p = Active \<and> \<not> hasDescribed p \<and> \<not> hasVoted p) (roundPlayers r g)"
proof -
  assume a: "list_all (\<lambda>p. status p = Active) (players g)"
  have "list_all (\<lambda>p. status p = Active) ps \<Longrightarrow>
        list_all (\<lambda>p. status p = Active \<and> \<not> hasDescribed p \<and> \<not> hasVoted p) (map resetFlags ps)"
    for ps by (induction ps) auto
  with a show ?thesis by (simp add: roundPlayers_def assignRoles_all_active)
qed

lemma startRound_round [simp]: "currentRound (startRound r g) = currentRound g + 1"
  by (simp add: startRound_def Let_def addSystemMessage_def advanceTurn_def split: option.splits)

lemma startRound_chat:
  "chatHistory g = [] \<Longrightarrow> list_all (\<lambda>c. kind c = System) (chatHistory (startRound r g))"
  by (simp add: startRound_def Let_def addSystemMessage_def advanceTurn_def split: option.splits)

lemma resetPlayer_all:
  "list_all (\<lambda>p. status p = Active \<and> role p = None \<and> word p = None
                  \<and> \<not> hasDescribed p \<and> \<not> hasVoted p) (map resetPlayer ps)"
  by (induction ps) (auto simp: resetPlayer_def)

lemma resetPlayer_pid [simp]: "pid (resetPlayer p) = pid p"
  by (simp add: resetPlayer_def)

section \<open>Recording a vote\<close>

lemma updFirst_map_found:
  "List.find P xs = Some x \<Longrightarrow> h (f x) = h x \<Longrightarrow> map h (updFirst P f xs) = map h xs"
  by (induction xs) (auto split: if_splits)

lemma count_by_map: "map h xs = map h ys \<Longrightarrow> length (filter h xs) = length (filter h ys)"
proof (induction xs arbitrary: ys)
  case Nil
  then show ?case by simp
next
  case (Cons x xs)
  then obtain y zs where ys: "ys = y # zs" and h: "h x = h y" and m: "map h xs = map h zs"
    by (cases ys) auto
  from Cons.IH [OF m] ys h show ?case by simp
qed

lemma autoReconnect_capable:
  "findPlayer i (players g) = Some p \<Longrightarrow>
   length (filter capable (players (autoReconnect i p g))) = length (filter capable (players g))"
proof -
  assume f: "findPlayer i (players g) = Some p"
  show ?thesis
  proof (cases "status p = Disconnected")
    case False
    then show ?thesis by (simp add: autoReconnect_def)
  next
    case True
    then have "capable (p\<lparr>status := Active\<rparr>) = capable p" by (simp add: capable_def)
    with f have "map capable (setStatus i Active (players g)) = map capable (players g)"
      unfolding setStatus_def findPlayer_def by (rule updFirst_map_found)
    then have "length (filter capable (setStatus i Active (players g)))
               = length (filter capable (players g))"
      by (rule count_by_map)
    then show ?thesis using True by (simp add: autoReconnect_def)
  qed
qed

lemma hasVoted_capable:
  "length (filter capable (updFirst P (\<lambda>p. p\<lparr>hasVoted := True\<rparr>) ps)) = length (filter capable ps)"
proof -
  have "map capable (updFirst P (\<lambda>p. p\<lparr>hasVoted := True\<rparr>) ps) = map capable ps"
    by (rule updFirst_map) (simp add: capable_def)
  then show ?thesis by (rule count_by_map)
qed

lemma processVotingResults_phase:
  "gamePhase (fst (processVotingResults g)) = Results
   \<or> gamePhase (fst (processVotingResults g)) = PhEnded"
  by (auto simp: processVotingResults_def eliminate_def Let_def addSystemMessage_def
           split: prod.splits option.splits list.splits)

lemma processVotingResults_reply:
  "snd (processVotingResults g) = Threw \<or> (\<exists>w. snd (processVotingResults g) = Done (RoundResults w))"
  by (auto simp: processVotingResults_def Let_def split: prod.splits option.splits)

lemma findPlayer_pid: "findPlayer (Some v) ps = Some p \<Longrightarrow> pid p = v"
  by (auto simp: findPlayer_def hasId_def dest: find_Some_iff [THEN iffD1])

lemma autoReconnect_fields [simp]:
  "votes (autoReconnect i p g) = votes g" "gamePhase (autoReconnect i p g) = gamePhase g"
  by (simp_all add: autoReconnect_def)

section \<open>Joining\<close>

lemma joinGame_reconnect:
  assumes g: "games m code = Some g"
    and r: "reconnecting prev playerName g = Some existing"
  shows "joinGame code sock playerName prev newId m
         = (m\<lparr>deletionTimers := deletionTimers m - {code},
              games := (games m)(code \<mapsto>
                 (if status existing = Disconnected
                  then g\<lparr>players := setStatus prev (restoredStatus g existing) (players g)\<rparr>
                  else g)),
              playerSessions := (playerSessions m)(sock \<mapsto> (code, pid existing))\<rparr>,
            Done (Joined (pid existing)))"
  using g r by (simp add: joinGame_def Let_def)

lemma joinGame_new:
  assumes g: "games m code = Some g"
    and r: "reconnecting prev playerName g = None"
  shows "joinGame code sock playerName prev newId m
         = (m\<lparr>deletionTimers := deletionTimers m - {code},
              games := (games m)(code \<mapsto> joinNew playerName newId g),
              playerSessions := (playerSessions m)(sock \<mapsto> (code, newId))\<rparr>,
            Done (Joined newId))"
proof -
  have "gameStatus g = Lobby \<or> gameStatus g = Playing \<or> gameStatus g = Ended"
    by (cases "gameStatus g") simp_all
  with g r show ?thesis by (auto simp: joinGame_def Let_def)
qed

lemma joinNew_players:
  "\<exists>p. players (joinNew playerName newId g) = players g @ [p] \<and> pid p = newId
       \<and> role p = None \<and> word p = None \<and> points p = 0
       \<and> status p = (if gameStatus g = Lobby \<or> gameStatus g = Ended then Active else Waiting)"
  by (simp add: joinNew_def Let_def addSystemMessage_def)

lemma roomOr_room: "roomAfter xs \<noteq> None \<Longrightarrow> games (mgr (stateAfter xs)) ''ROOM01'' = Some (roomOr xs)"
  by (auto simp: roomOr_def roomAfter_def)

section \<open>Who stays in the roster\<close>

lemma roundPoints_pid [simp]: "pid (roundPoints p) = pid p"
  by (simp add: roundPoints_def)

lemma bonusPoints_pid [simp]: "pid (bonusPoints w p) = pid p"
  by (simp add: bonusPoints_def)

lemma eliminate_pid: "map pid (players (fst (eliminate g))) = map pid (players g)"
  by (simp add: eliminate_players split: list.splits)

lemma processVotingResults_pid [simp]:
  "map pid (players (fst (processVotingResults g))) = map pid (players g)"
proof -
  have "map pid (players (fst (processVotingResults g))) = map pid (players (fst (eliminate g)))"
    by (auto simp: processVotingResults_def Let_def addSystemMessage_def
             split: prod.splits option.splits)
  then show ?thesis by (simp add: eliminate_pid)
qed

lemma roundPlayers_pid [simp]: "map pid (roundPlayers r g) = map pid (players g)"
  by (simp add: roundPlayers_def comp_def)

lemma startRound_pid [simp]: "map pid (players (startRound r g)) = map pid (players g)"
  by (simp add: startRound_players)

lemma autoReconnect_pid [simp]: "map pid (players (autoReconnect i p g)) = map pid (players g)"
  by (simp add: autoReconnect_def)


lemma submitDescription_g_pid [simp]:
  "map pid (players (fst (submitDescription_g i d g))) = map pid (players g)"
  by (simp add: submitDescription_g_def Let_def addChatMessage_def updFirst_map
           split: option.splits)

lemma submitVote_g_pid [simp]:
  "map pid (players (fst (submitVote_g i t g))) = map pid (players g)"
  by (simp add: submitVote_g_def Let_def updFirst_map split: option.splits)

lemma startNewGame_g_pid [simp]:
  "map pid (players (fst (startNewGame_g r g))) = map pid (players g)"
  by (simp add: startNewGame_g_def)

lemma updatePlayerName_g_pid [simp]:
  "map pid (players (fst (updatePlayerName_g i n g))) = map pid (players g)"
  by (simp add: updatePlayerName_g_def Let_def addSystemMessage_def updFirst_map
           split: option.splits)








lemma addSystemMessage_players [simp]: "players (addSystemMessage t h) = players h"
  by (simp add: addSystemMessage_def)

lemma endedBy_players [simp]: "players (endedBy w n msg h) = players h"
  by (simp add: endedBy_def)

lemma addSystemMessage_fields [simp]:
  "gameStatus (addSystemMessage t h) = gameStatus h"
  "gamePhase (addSystemMessage t h) = gamePhase h"
  "votes (addSystemMessage t h) = votes h"
  by (simp_all add: addSystemMessage_def)

lemma skipTurnOf_fields [simp]:
  "players (skipTurnOf i p h) = players h" "votes (skipTurnOf i p h) = votes h"
  by (simp_all add: skipTurnOf_def advanceTurn_def addSystemMessage_def split: option.splits)

lemma disconnectWin_fields [simp]:
  "players (disconnectWin p h) = players h" "votes (disconnectWin p h) = votes h"
  by (simp_all add: disconnectWin_def endedBy_def addSystemMessage_def)

lemma disconnectWin_phase:
  "gamePhase (disconnectWin p h) = gamePhase h \<or> gamePhase (disconnectWin p h) = PhEnded"
  by (simp add: disconnectWin_def endedBy_def addSystemMessage_def)

lemma gameGraceFired_g_playing:
  assumes "gameStatus g = Playing"
  shows "gameGraceFired_g i p g
         = (let g2 = skipTurnOf i p (addSystemMessage (name p @ '' disconnected'') g)
            in if gamePhase g2 = Voting
                  \<and> length (filter capable (players g)) \<le> length (votes g)
                  \<and> 0 < length (filter capable (players g))
               then (if snd (processVotingResults g2) = Threw
                     then (fst (processVotingResults g2), True)
                     else (disconnectWin p (fst (processVotingResults g2)), False))
               else (disconnectWin p g2, False))"
  using assms by (simp add: gameGraceFired_g_def Let_def case_prod_unfold)

lemma gameGraceFired_g_idle:
  "gameStatus g \<noteq> Playing \<Longrightarrow>
   gameGraceFired_g i p g = (addSystemMessage (name p @ '' disconnected'') g, False)"
  by (simp add: gameGraceFired_g_def Let_def)



lemma removeFirst_keeps:
  "List.find P ps = Some p \<Longrightarrow> status p = Disconnected \<Longrightarrow>
   filter (\<lambda>q. status q \<noteq> Disconnected) (removeFirst P ps)
   = filter (\<lambda>q. status q \<noteq> Disconnected) ps"
  by (induction ps) (auto split: if_splits)

lemma lobbyGraceFired_g_players:
  "map pid (players (lobbyGraceFired_g i g)) = map pid (players g)
   \<or> (\<exists>p. findPlayer (Some i) (players g) = Some p \<and> status p = Disconnected
          \<and> map pid (players (lobbyGraceFired_g i g))
             = map pid (removeFirst (hasId (Some i)) (players g)))"
  by (auto simp: lobbyGraceFired_g_def Let_def split: option.splits list.splits)

lemma keeps_refl: "subseq (map pid (filter Q ps)) (map pid ps)"
  by (simp add: subseq_map)

lemma keeps_prefix:
  "prefix (map pid ps) ids \<Longrightarrow> subseq (map pid (filter Q ps)) ids"
  by (metis keeps_refl prefix_imp_subseq subseq_order.order_trans)

lemma keeps_removeFirst:
  assumes "List.find P ps = Some p" and "status p = Disconnected"
  shows "subseq (map pid (filter (\<lambda>q. status q \<noteq> Disconnected) ps)) (map pid (removeFirst P ps))"
proof -
  have "subseq (map pid (filter (\<lambda>q. status q \<noteq> Disconnected) (removeFirst P ps)))
          (map pid (removeFirst P ps))"
    by (rule keeps_refl)
  with assms show ?thesis by (simp add: removeFirst_keeps)
qed

lemma voteHandled_mgr: "voteHandled code res s = Some s' \<Longrightarrow> mgr s' = fst res"
  by (auto simp: voteHandled_def split: prod.splits reply.splits event.splits option.splits)

lemma same_ids:
  "map pid ps' = map pid ps \<Longrightarrow>
   subseq (map pid (filter Q ps)) (map pid ps') \<and> prefix (map pid ps) (map pid ps')"
  by (simp add: keeps_refl)






section \<open>Runs\<close>



lemma runs_reachable: "runs xs \<Longrightarrow> reachable (stateAfter xs)"
  by (auto simp: runs_def reachable_def stateAfter_def Option.is_none_def split: option.splits)

section \<open>The turn pointer in every reachable state\<close>

text \<open>
  Every method, and every timer, leaves the turn pointer \<open>-1\<close> in the voting phase and
  inside \<^verbatim>\<open>turnOrder\<close> in the description phase, if it found it so.
\<close>

lemma turnSound_cong:
  "gamePhase h' = gamePhase h \<Longrightarrow> currentTurnIndex h' = currentTurnIndex h
   \<Longrightarrow> turnOrder h' = turnOrder h \<Longrightarrow> turnSound h' = turnSound h"
  by (simp add: turnSound_def)

lemma turnSound_landed:
  "(gamePhase h = Description \<and> eligibleAt h (currentTurnIndex h))
   \<or> (gamePhase h = Voting \<and> currentTurnIndex h = - 1) \<Longrightarrow> turnSound h"
  by (auto simp: turnSound_def eligibleAt_iff)

lemma advanceTurn_sound: "gamePhase h = Description \<Longrightarrow> turnSound (advanceTurn h)"
  using advanceTurn_lands [of h] by (auto intro: turnSound_landed)

lemma startRound_sound: "turnSound (startRound r h)"
  using startRound_phase [of r h] by (rule turnSound_landed)

lemma processVotingResults_sound: "turnSound (fst (processVotingResults h))"
  using processVotingResults_phase [of h] by (auto simp: turnSound_def)

lemma endedBy_sound: "turnSound (endedBy w n msg h)"
  by (simp add: turnSound_def endedBy_def addSystemMessage_def)

lemma addSystemMessage_sound [simp]: "turnSound (addSystemMessage t h) = turnSound h"
  by (rule turnSound_cong) (simp_all add: addSystemMessage_def)

lemma autoReconnect_sound [simp]: "turnSound (autoReconnect i p h) = turnSound h"
  by (rule turnSound_cong) (simp_all add: autoReconnect_def)

lemma players_update_sound [simp]: "turnSound (h\<lparr>players := ps\<rparr>) = turnSound h"
  by (rule turnSound_cong) simp_all

lemma startGame_g_sound: "turnSound h \<Longrightarrow> turnSound (fst (startGame_g r i h))"
  by (simp add: startGame_g_def Let_def startRound_sound)

lemma submitDescription_g_sound:
  "turnSound h \<Longrightarrow> turnSound (fst (submitDescription_g i d h))"
proof (cases "findPlayer i (players h)")
  case None
  assume "turnSound h"
  with None show ?thesis by (simp add: submitDescription_g_def)
next
  case (Some player)
  assume s: "turnSound h"
  define h1 where "h1 = autoReconnect i player h"
  from s have s1: "turnSound h1" by (simp add: h1_def)
  show ?thesis
  proof (cases "gamePhase h1 = Description \<and> turnAt h1 (currentTurnIndex h1) = i
                \<and> \<not> hasDescribed player")
    case False
    with Some s1 show ?thesis
      by (auto simp: submitDescription_g_def Let_def h1_def [symmetric])
  next
    case True
    then have "gamePhase (addChatMessage (name player) d Descr
                 (h1\<lparr>players := updFirst (hasId i) (\<lambda>p. p\<lparr>hasDescribed := True\<rparr>)
                                   (players h1)\<rparr>)) = Description"
      by (simp add: addChatMessage_def)
    then have "turnSound (advanceTurn (addChatMessage (name player) d Descr
                 (h1\<lparr>players := updFirst (hasId i) (\<lambda>p. p\<lparr>hasDescribed := True\<rparr>)
                                   (players h1)\<rparr>)))"
      by (rule advanceTurn_sound)
    with Some True show ?thesis
      by (simp add: submitDescription_g_def Let_def h1_def [symmetric])
  qed
qed

lemma submitVote_g_sound: "turnSound h \<Longrightarrow> turnSound (fst (submitVote_g i t h))"
proof -
  assume s: "turnSound h"
  show ?thesis
  proof (cases "findPlayer i (players h)")
    case None
    with s show ?thesis by (simp add: submitVote_g_def)
  next
    case (Some voter)
    define h1 where "h1 = autoReconnect i voter h"
    define h2 where "h2 = h1
       \<lparr>votes := putVote (pid voter) t (votes h1),
        players := updFirst (hasId i) (\<lambda>p. p\<lparr>hasVoted := True\<rparr>) (players h1)\<rparr>"
    from s have s1: "turnSound h1" by (simp add: h1_def)
    have "turnSound h2 = turnSound h1"
      by (rule turnSound_cong) (simp_all add: h2_def)
    with s1 have s2: "turnSound h2" by simp
    have "fst (submitVote_g i t h) = h \<or> fst (submitVote_g i t h) = h1
          \<or> fst (submitVote_g i t h) = h2
          \<or> fst (submitVote_g i t h) = fst (processVotingResults h2)"
      unfolding submitVote_g_def Let_def Some option.case h1_def [symmetric] h2_def [symmetric]
      by (simp only: fst_conv split: if_splits) blast
    with s s1 s2 processVotingResults_sound [of h2] show ?thesis by auto
  qed
qed

lemma startNewGame_g_sound: "turnSound (fst (startNewGame_g r h))"
  by (simp add: startNewGame_g_def startRound_sound)

lemma updatePlayerName_g_sound:
  "turnSound h \<Longrightarrow> turnSound (fst (updatePlayerName_g i n h))"
  by (simp add: updatePlayerName_g_def Let_def split: option.splits)

lemma newGame_sound: "turnSound (newGame code i n)"
  by (simp add: turnSound_def newGame_def)

lemma joinNew_sound: "turnSound (joinNew n i h) = turnSound h"
  by (rule turnSound_cong) (simp_all add: joinNew_def Let_def addSystemMessage_def)

lemma lobbyGraceFired_g_sound: "turnSound (lobbyGraceFired_g i h) = turnSound h"
  by (rule turnSound_cong)
     (simp_all add: lobbyGraceFired_g_def Let_def addSystemMessage_def
               split: option.splits list.splits)

lemma skipTurnOf_sound: "turnSound h \<Longrightarrow> turnSound (skipTurnOf i p h)"
proof (cases "gamePhase h = Description \<and> turnAt h (currentTurnIndex h) = Some i")
  case False
  assume "turnSound h"
  with False show ?thesis by (auto simp: skipTurnOf_def)
next
  case True
  then have "gamePhase (addSystemMessage (''Skipping '' @ name p @ [CHR 0x27] @ ''s turn...'') h)
             = Description"
    by (simp add: addSystemMessage_def)
  then have "turnSound (advanceTurn
               (addSystemMessage (''Skipping '' @ name p @ [CHR 0x27] @ ''s turn...'') h))"
    by (rule advanceTurn_sound)
  with True show ?thesis by (simp add: skipTurnOf_def)
qed

lemma disconnectWin_sound: "turnSound h \<Longrightarrow> turnSound (disconnectWin p h)"
  by (simp add: disconnectWin_def endedBy_sound)

lemma gameGraceFired_g_sound:
  assumes "turnSound h"
  shows "turnSound (fst (gameGraceFired_g i p h))"
proof -
  define h1 where "h1 = addSystemMessage (name p @ '' disconnected'') h"
  define h2 where "h2 = skipTurnOf i p h1"
  define res where "res = (if gamePhase h2 = Voting
                             \<and> length (votes h2) \<ge> length (filter capable (players h2))
                             \<and> length (filter capable (players h2)) > 0
                          then processVotingResults h2 else (h2, Done VoteUpdate))"
  from assms have s1: "turnSound h1" by (simp add: h1_def)
  then have s2: "turnSound h2" unfolding h2_def by (rule skipTurnOf_sound)
  then have s3: "turnSound (fst res)" by (simp add: res_def processVotingResults_sound)
  then have s4: "turnSound (disconnectWin p (fst res))" by (rule disconnectWin_sound)
  have "fst (gameGraceFired_g i p h) = h1 \<or> fst (gameGraceFired_g i p h) = fst res
        \<or> fst (gameGraceFired_g i p h) = disconnectWin p (fst res)"
    unfolding gameGraceFired_g_def Let_def h1_def [symmetric] h2_def [symmetric]
      res_def [symmetric]
    by (simp add: case_prod_unfold)
  with s1 s3 s4 show ?thesis by auto
qed

lemma allSound_update:
  "allSound m \<Longrightarrow> turnSound h \<Longrightarrow> games m' = (games m)(code \<mapsto> h) \<Longrightarrow> allSound m'"
  by (simp add: allSound_def)

lemma allSound_same: "allSound m \<Longrightarrow> games m' = games m \<Longrightarrow> allSound m'"
  by (simp add: allSound_def)

lemma onGame_sound:
  assumes "\<And>h. turnSound h \<Longrightarrow> turnSound (fst (f h))" and "allSound m"
  shows "allSound (fst (onGame code f m))"
proof (cases "games m code")
  case None
  with assms(2) show ?thesis by (simp add: onGame_def)
next
  case (Some h)
  with assms(2) have "turnSound h" by (simp add: allSound_def)
  then have "turnSound (fst (f h))" by (rule assms(1))
  with assms(2) Some show ?thesis
    by (auto simp: onGame_def allSound_def split: prod.splits)
qed

lemma joinGame_sound:
  assumes "allSound m"
  shows "allSound (fst (joinGame code sock n prev newId m))"
proof (cases "games m code")
  case None
  with assms show ?thesis by (simp add: joinGame_def)
next
  case (Some h)
  with assms have s: "turnSound h" by (simp add: allSound_def)
  show ?thesis
  proof (cases "reconnecting prev n h")
    case None
    with Some assms s show ?thesis
      by (auto simp: joinGame_new allSound_def joinNew_sound)
  next
    case (Some existing)
    with \<open>games m code = Some h\<close> assms s show ?thesis
      by (auto simp: joinGame_reconnect allSound_def)
  qed
qed

lemma leaveGame_sound: "allSound m \<Longrightarrow> allSound (fst (leaveGame sock m))"
  by (auto simp: leaveGame_def Let_def allSound_def split: option.splits prod.splits if_splits)

lemma sendChat_sound: "allSound m \<Longrightarrow> allSound (sendChat sock code msg m)"
proof -
  have "turnSound (addChatMessage s t k h) = turnSound h" for s t k h
    by (rule turnSound_cong) (simp_all add: addChatMessage_def)
  then show "allSound m \<Longrightarrow> allSound (sendChat sock code msg m)"
    by (auto simp: sendChat_def allSound_def split: option.splits if_splits)
qed

lemma createGame_sound:
  "allSound m \<Longrightarrow> createGame sock n draws newId m = Some m' \<Longrightarrow> allSound m'"
  by (auto simp: createGame_def allSound_def newGame_sound split: option.splits if_splits)

lemma deletionFired_sound: "allSound m \<Longrightarrow> allSound (deletionFired code m)"
  by (auto simp: deletionFired_def allSound_def split: if_splits)

lemma nextRoundFired_sound: "allSound m \<Longrightarrow> allSound (nextRoundFired r code m)"
  by (auto simp: nextRoundFired_def allSound_def startRound_sound split: option.splits if_splits)

lemma lobbyGraceFired_sound: "allSound m \<Longrightarrow> allSound (lobbyGraceFired code i m)"
  by (auto simp: lobbyGraceFired_def allSound_def lobbyGraceFired_g_sound
           split: option.splits if_splits)

lemma gameGraceFired_sound:
  assumes "allSound m"
  shows "allSound (fst (gameGraceFired code i m))"
proof (cases "games m code")
  case None
  with assms show ?thesis by (simp add: gameGraceFired_def)
next
  case (Some h)
  with assms have s: "turnSound h" by (simp add: allSound_def)
  show ?thesis
  proof (cases "findPlayer (Some i) (players h)")
    case None
    with Some assms show ?thesis by (simp add: gameGraceFired_def)
  next
    case (Some p)
    from s have "turnSound (fst (gameGraceFired_g i p h))" by (rule gameGraceFired_g_sound)
    with Some \<open>games m code = Some h\<close> assms show ?thesis
      by (auto simp: gameGraceFired_def allSound_def split: prod.splits)
  qed
qed

lemma step_sound:
  assumes "step i s = Some s'" and "allSound (mgr s)"
  shows "allSound (mgr s')"
proof (cases i)
  case (CreateGame sock n draws newId)
  with assms show ?thesis by (auto dest: createGame_sound)
next
  case (JoinGame sock code n prev newId)
  with assms show ?thesis by (auto simp: joinGame_sound)
next
  case (StartGame sock code r)
  with assms show ?thesis
    by (auto simp: startGame_def intro!: onGame_sound startGame_g_sound)
next
  case (SubmitDescription sock code d)
  with assms show ?thesis
    by (auto simp: submitDescription_def intro!: onGame_sound submitDescription_g_sound)
next
  case (SubmitVote sock code t)
  with assms have "mgr s' = fst (submitVote code (getPlayerId (mgr s) sock) t (mgr s))"
    by (auto dest: voteHandled_mgr)
  with assms(2) show ?thesis
    by (auto simp: submitVote_def intro!: onGame_sound submitVote_g_sound)
next
  case (SendChat sock code msg)
  with assms show ?thesis by (auto simp: sendChat_sound)
next
  case (StartNewGame sock code r)
  with assms show ?thesis
    by (auto simp: startNewGame_def intro!: onGame_sound startNewGame_g_sound)
next
  case (UpdatePlayerName sock code n)
  with assms show ?thesis
    by (auto simp: updatePlayerName_def intro!: onGame_sound updatePlayerName_g_sound)
next
  case (Disconnect sock)
  with assms have "mgr s' = fst (leaveGame sock (mgr s))" by (auto split: prod.splits)
  with assms(2) show ?thesis by (simp add: leaveGame_sound)
next
  case (Fire t r)
  with assms obtain m' where f: "fired t r (mgr s) = Some m'" and m: "mgr s' = m'"
    by (auto split: if_splits)
  show ?thesis
  proof (cases t)
    case (LobbyGrace code p)
    with f m assms(2) show ?thesis by (auto simp: fired_def lobbyGraceFired_sound)
  next
    case (GameGrace code p)
    with f m have "mgr s' = fst (gameGraceFired code p (mgr s))"
      by (auto simp: fired_def split: prod.splits if_splits)
    with assms(2) show ?thesis by (simp add: gameGraceFired_sound)
  next
    case (NextRound code)
    with f m assms(2) show ?thesis by (auto simp: fired_def nextRoundFired_sound)
  qed
next
  case (FireDeletion code)
  with assms show ?thesis by (auto simp: deletionFired_sound split: if_splits)
qed

lemma run_sound: "run xs s = Some s' \<Longrightarrow> allSound (mgr s) \<Longrightarrow> allSound (mgr s')"
proof (induction xs arbitrary: s)
  case Nil
  then show ?case by simp
next
  case (Cons i xs)
  from Cons.prems(1) obtain s1 where a: "step i s = Some s1" and b: "run xs s1 = Some s'"
    by (auto split: option.splits)
  from a Cons.prems(2) have "allSound (mgr s1)" by (rule step_sound)
  with b show ?case by (rule Cons.IH)
qed

lemma reachable_sound: "reachable s \<Longrightarrow> allSound (mgr s)"
proof -
  assume "reachable s"
  then obtain xs where "run xs initial = Some s" by (auto simp: reachable_def)
  moreover have "allSound (mgr initial)" by (simp add: allSound_def initial_def)
  ultimately show ?thesis by (rule run_sound)
qed

section \<open>Claims\<close>

text \<open>
  C1. The claim: whenever \<^verbatim>\<open>startGame\<close>, \<^verbatim>\<open>submitDescription\<close>, \<^verbatim>\<open>submitVote\<close>,
  \<^verbatim>\<open>joinGame\<close>, \<^verbatim>\<open>startNewGame\<close> or \<^verbatim>\<open>updatePlayerName\<close> returns a typed failure,
  the room state after the call is the room state before it.

  It fails where the code writes before it checks. A player whose old socket closed after
  the new one had joined is disconnected with a live session; the description they send
  out of turn is refused with \<open>NotYourTurn\<close>, and their status has become active.
\<close>

theorem failed_description_reconnects:
  "runs staleSocket
   \<and> getPlayerId (mgr (stateAfter staleSocket)) ''s2b'' = Some ''b''
   \<and> map_option (map status \<circ> players) (roomAfter staleSocket)
       = Some [Active, Disconnected, Active]
   \<and> snd (submitDescription ''ROOM01'' (Some ''b'') ''pet'' (mgr (stateAfter staleSocket)))
       = Failure NotYourTurn
   \<and> map_option (map status \<circ> players)
        (games (fst (submitDescription ''ROOM01'' (Some ''b'') ''pet''
                       (mgr (stateAfter staleSocket)))) ''ROOM01'')
       = Some [Active, Active, Active]"
  by code_simp

text \<open>
  C1, as amended. A typed failure leaves the manager as it was, with two exceptions:
  \<^verbatim>\<open>startGame\<close> that fails with \<open>NotEnoughPlayers\<close> has removed the disconnected
  players from the roster, and \<^verbatim>\<open>submitDescription\<close> (failing with \<open>WrongPhase\<close>,
  \<open>NotYourTurn\<close> or \<open>AlreadyDescribed\<close>) and \<^verbatim>\<open>submitVote\<close> (failing with
  \<open>AlreadyVoted\<close>) have set the requesting player's status to active if it was
  disconnected. Nothing else changes.
\<close>

theorem typed_failure_effect:
  "(\<forall>r code i m m' e. startGame r code i m = (m', Failure e) \<longrightarrow>
      (e \<noteq> NotEnoughPlayers \<longrightarrow> m' = m)
      \<and> (e = NotEnoughPlayers \<longrightarrow>
           (\<exists>g. games m code = Some g
              \<and> m' = m\<lparr>games := (games m)(code \<mapsto>
                        g\<lparr>players := filter (\<lambda>p. status p \<noteq> Disconnected) (players g)\<rparr>)\<rparr>)))
   \<and> (\<forall>code i d m m' e. submitDescription code i d m = (m', Failure e) \<longrightarrow>
      (e \<in> {RoomNotFound, PlayerNotFound} \<longrightarrow> m' = m)
      \<and> (e \<notin> {RoomNotFound, PlayerNotFound} \<longrightarrow>
           (\<exists>g p. games m code = Some g \<and> findPlayer i (players g) = Some p
              \<and> m' = m\<lparr>games := (games m)(code \<mapsto> autoReconnect i p g)\<rparr>)))
   \<and> (\<forall>code i t m m' e. submitVote code i t m = (m', Failure e) \<longrightarrow>
      (e \<noteq> AlreadyVoted \<longrightarrow> m' = m)
      \<and> (e = AlreadyVoted \<longrightarrow>
           (\<exists>g p. games m code = Some g \<and> findPlayer i (players g) = Some p
              \<and> m' = m\<lparr>games := (games m)(code \<mapsto> autoReconnect i p g)\<rparr>)))
   \<and> (\<forall>code sock n prev newId m m' e.
         joinGame code sock n prev newId m = (m', Failure e) \<longrightarrow> m' = m)
   \<and> (\<forall>r code i m m' e. startNewGame r code i m = (m', Failure e) \<longrightarrow> m' = m)
   \<and> (\<forall>code i n m m' e. updatePlayerName code i n m = (m', Failure e) \<longrightarrow> m' = m)"
proof (intro conjI allI impI)
  fix r code i m m' e
  assume a: "startGame r code i m = (m', Failure e)"
  { assume "e \<noteq> NotEnoughPlayers"
    with a show "m' = m"
      using onGame_failure [of code "startGame_g r i" m m' e]
      by (auto simp: startGame_def games_same dest!: startGame_g_failure) }
  { assume "e = NotEnoughPlayers"
    with a show "\<exists>g. games m code = Some g
              \<and> m' = m\<lparr>games := (games m)(code \<mapsto>
                        g\<lparr>players := filter (\<lambda>p. status p \<noteq> Disconnected) (players g)\<rparr>)\<rparr>"
      using onGame_failure [of code "startGame_g r i" m m' e]
      by (auto simp: startGame_def dest!: startGame_g_failure) }
next
  fix code i d m m' e
  assume a: "submitDescription code i d m = (m', Failure e)"
  { assume "e \<in> {RoomNotFound, PlayerNotFound}"
    with a show "m' = m"
      using onGame_failure [of code "submitDescription_g i d" m m' e]
      by (auto simp: submitDescription_def games_same dest!: submitDescription_g_failure) }
  { assume "e \<notin> {RoomNotFound, PlayerNotFound}"
    with a show "\<exists>g p. games m code = Some g \<and> findPlayer i (players g) = Some p
              \<and> m' = m\<lparr>games := (games m)(code \<mapsto> autoReconnect i p g)\<rparr>"
      using onGame_failure [of code "submitDescription_g i d" m m' e]
      by (auto simp: submitDescription_def dest!: submitDescription_g_failure) }
next
  fix code i t m m' e
  assume a: "submitVote code i t m = (m', Failure e)"
  { assume "e \<noteq> AlreadyVoted"
    with a show "m' = m"
      using onGame_failure [of code "submitVote_g i t" m m' e]
      by (auto simp: submitVote_def games_same dest!: submitVote_g_failure) }
  { assume "e = AlreadyVoted"
    with a show "\<exists>g p. games m code = Some g \<and> findPlayer i (players g) = Some p
              \<and> m' = m\<lparr>games := (games m)(code \<mapsto> autoReconnect i p g)\<rparr>"
      using onGame_failure [of code "submitVote_g i t" m m' e]
      by (auto simp: submitVote_def dest!: submitVote_g_failure) }
next
  fix code sock n prev newId m m' e
  assume "joinGame code sock n prev newId m = (m', Failure e)"
  then show "m' = m" by (rule joinGame_failure)
next
  fix r code i m m' e
  assume "startNewGame r code i m = (m', Failure e)"
  then show "m' = m"
    using onGame_failure [of code "startNewGame_g r" m m' e]
    by (auto simp: startNewGame_def startNewGame_g_no_failure)
next
  fix code i n m m' e
  assume "updatePlayerName code i n m = (m', Failure e)"
  then show "m' = m"
    using onGame_failure [of code "updatePlayerName_g i n" m m' e]
    by (auto simp: updatePlayerName_def games_same dest!: updatePlayerName_g_failure)
qed

text \<open>
  The amended statement at concrete calls: \<^verbatim>\<open>startGame\<close> by the host of a lobby of
  three, one of them disconnected; the description out of turn above; a vote in the
  description phase; a join and a new game for a code that no room has; a blank name.
\<close>

theorem typed_failure_effect_witness:
  "snd (startGame r0 ''ROOM01'' (Some ''a'') (mgr (stateAfter lobbyLeft)))
     = Failure NotEnoughPlayers
   \<and> (\<exists>g. games (mgr (stateAfter lobbyLeft)) ''ROOM01'' = Some g
        \<and> fst (startGame r0 ''ROOM01'' (Some ''a'') (mgr (stateAfter lobbyLeft)))
          = (mgr (stateAfter lobbyLeft))\<lparr>games := (games (mgr (stateAfter lobbyLeft)))(''ROOM01'' \<mapsto>
               g\<lparr>players := filter (\<lambda>p. status p \<noteq> Disconnected) (players g)\<rparr>)\<rparr>)
   \<and> snd (submitDescription ''ROOM01'' (Some ''b'') ''pet'' (mgr (stateAfter staleSocket)))
       = Failure NotYourTurn
   \<and> (\<exists>g p. games (mgr (stateAfter staleSocket)) ''ROOM01'' = Some g
        \<and> findPlayer (Some ''b'') (players g) = Some p
        \<and> fst (submitDescription ''ROOM01'' (Some ''b'') ''pet'' (mgr (stateAfter staleSocket)))
          = (mgr (stateAfter staleSocket))\<lparr>games := (games (mgr (stateAfter staleSocket)))(''ROOM01'' \<mapsto>
               autoReconnect (Some ''b'') p g)\<rparr>)
   \<and> snd (submitVote ''ROOM01'' (Some ''b'') ''a'' (mgr (stateAfter staleSocket)))
       = Failure WrongPhase
   \<and> fst (submitVote ''ROOM01'' (Some ''b'') ''a'' (mgr (stateAfter staleSocket)))
       = mgr (stateAfter staleSocket)
   \<and> snd (joinGame ''NOROOM'' ''s9'' ''Eve'' None ''e'' (mgr (stateAfter lobbyLeft)))
       = Failure RoomNotFound
   \<and> fst (joinGame ''NOROOM'' ''s9'' ''Eve'' None ''e'' (mgr (stateAfter lobbyLeft)))
       = mgr (stateAfter lobbyLeft)
   \<and> snd (startNewGame r0 ''NOROOM'' None (mgr (stateAfter lobbyLeft))) = Failure RoomNotFound
   \<and> fst (startNewGame r0 ''NOROOM'' None (mgr (stateAfter lobbyLeft)))
       = mgr (stateAfter lobbyLeft)
   \<and> snd (updatePlayerName ''ROOM01'' (Some ''a'') ''   '' (mgr (stateAfter lobbyLeft)))
       = Failure EmptyName
   \<and> fst (updatePlayerName ''ROOM01'' (Some ''a'') ''   '' (mgr (stateAfter lobbyLeft)))
       = mgr (stateAfter lobbyLeft)"
proof -
  have e1: "snd (startGame r0 ''ROOM01'' (Some ''a'') (mgr (stateAfter lobbyLeft)))
              = Failure NotEnoughPlayers" by code_simp
  have e2: "snd (submitDescription ''ROOM01'' (Some ''b'') ''pet'' (mgr (stateAfter staleSocket)))
              = Failure NotYourTurn" by code_simp
  have e3: "snd (submitVote ''ROOM01'' (Some ''b'') ''a'' (mgr (stateAfter staleSocket)))
              = Failure WrongPhase" by code_simp
  have e4: "snd (joinGame ''NOROOM'' ''s9'' ''Eve'' None ''e'' (mgr (stateAfter lobbyLeft)))
              = Failure RoomNotFound" by code_simp
  have e5: "snd (startNewGame r0 ''NOROOM'' None (mgr (stateAfter lobbyLeft)))
              = Failure RoomNotFound" by code_simp
  have e6: "snd (updatePlayerName ''ROOM01'' (Some ''a'') ''   '' (mgr (stateAfter lobbyLeft)))
              = Failure EmptyName" by code_simp
  note t = typed_failure_effect
  have c1: "\<exists>g. games (mgr (stateAfter lobbyLeft)) ''ROOM01'' = Some g
        \<and> fst (startGame r0 ''ROOM01'' (Some ''a'') (mgr (stateAfter lobbyLeft)))
          = (mgr (stateAfter lobbyLeft))\<lparr>games := (games (mgr (stateAfter lobbyLeft)))(''ROOM01'' \<mapsto>
               g\<lparr>players := filter (\<lambda>p. status p \<noteq> Disconnected) (players g)\<rparr>)\<rparr>"
    using t e1 by (metis prod.collapse)
  have c2: "\<exists>g p. games (mgr (stateAfter staleSocket)) ''ROOM01'' = Some g
        \<and> findPlayer (Some ''b'') (players g) = Some p
        \<and> fst (submitDescription ''ROOM01'' (Some ''b'') ''pet'' (mgr (stateAfter staleSocket)))
          = (mgr (stateAfter staleSocket))\<lparr>games := (games (mgr (stateAfter staleSocket)))(''ROOM01'' \<mapsto>
               autoReconnect (Some ''b'') p g)\<rparr>"
    using t [THEN conjunct2, THEN conjunct1, rule_format,
             of "''ROOM01''" "Some ''b''" "''pet''" "mgr (stateAfter staleSocket)" _ NotYourTurn]
          e2 by (simp add: prod_eq_iff)
  have c3: "fst (submitVote ''ROOM01'' (Some ''b'') ''a'' (mgr (stateAfter staleSocket)))
       = mgr (stateAfter staleSocket)"
    using t e3 by (metis prod.collapse error.distinct(74))
  have c4: "fst (joinGame ''NOROOM'' ''s9'' ''Eve'' None ''e'' (mgr (stateAfter lobbyLeft)))
       = mgr (stateAfter lobbyLeft)"
    using t e4 by (metis prod.collapse)
  have c5: "fst (startNewGame r0 ''NOROOM'' None (mgr (stateAfter lobbyLeft)))
       = mgr (stateAfter lobbyLeft)"
    using t e5 by (metis prod.collapse)
  have c6: "fst (updatePlayerName ''ROOM01'' (Some ''a'') ''   '' (mgr (stateAfter lobbyLeft)))
       = mgr (stateAfter lobbyLeft)"
    using t e6 by (metis prod.collapse)
  from e1 e2 e3 e4 e5 e6 c1 c2 c3 c4 c5 c6 show ?thesis by blast
qed

text \<open>
  C2. The claim: no input makes a core operation crash; in a voting room,
  \<^verbatim>\<open>submitVote\<close> with any target, also one that no player has, returns a typed failure
  or records the vote, and a resolution it triggers completes and writes
  \<^verbatim>\<open>lastRoundResult\<close> without reading a field of a missing player.

  The code does not: three players in the voting phase, two votes for the target
  \<^verbatim>\<open>ghost\<close> that no player has; the third such vote, from the socket of player \<open>c\<close>,
  triggers the resolution, which throws (the handler of \<^verbatim>\<open>submit-vote\<close> has no
  successor state).
\<close>

theorem unknown_target_vote_throws:
  "runs ghostVotes
   \<and> map_option (map pid \<circ> players) (roomAfter ghostVotes) = Some [''a'', ''b'', ''c'']
   \<and> map_option gamePhase (roomAfter ghostVotes) = Some Voting
   \<and> getPlayerId (mgr (stateAfter ghostVotes)) ''s3'' = Some ''c''
   \<and> snd (submitVote ''ROOM01'' (Some ''c'') ''ghost'' (mgr (stateAfter ghostVotes))) = Threw
   \<and> Option.is_none (step (SubmitVote ''s3'' ''ROOM01'' ''ghost'') (stateAfter ghostVotes))"
  by code_simp


text \<open>
  \<^verbatim>\<open>startGame\<close> does not ask for the room's status, and the grace timer of the lobby
  does not ask for it when it fires: both also remove a disconnected player from a running
  game.
\<close>

lemma startGame_removes_while_playing:
  "runs (prunedPlaying @ [StartGame ''s1'' ''ROOM01'' r0])
   \<and> map_option gameStatus (roomAfter prunedPlaying) = Some Playing
   \<and> map_option (map pid \<circ> players) (roomAfter prunedPlaying) = Some [''a'', ''b'', ''c'']
   \<and> map_option gameStatus (roomAfter (prunedPlaying @ [StartGame ''s1'' ''ROOM01'' r0]))
       = Some Playing
   \<and> map_option (map pid \<circ> players) (roomAfter (prunedPlaying @ [StartGame ''s1'' ''ROOM01'' r0]))
       = Some [''a'', ''b'']"
  by code_simp

lemma lobby_timer_removes_while_playing:
  "runs (staleTimer @ [Fire (LobbyGrace ''ROOM01'' ''d'') r0])
   \<and> map_option gameStatus (roomAfter staleTimer) = Some Playing
   \<and> map_option (map pid \<circ> players) (roomAfter staleTimer) = Some [''a'', ''b'', ''c'', ''d'']
   \<and> map_option (map pid \<circ> players)
        (roomAfter (staleTimer @ [Fire (LobbyGrace ''ROOM01'' ''d'') r0]))
       = Some [''a'', ''b'', ''c'']"
  by code_simp



text \<open>
  C4. The claim: in every reachable state every id of \<^verbatim>\<open>turnOrder\<close> belongs to a player
  of the roster, and \<^verbatim>\<open>currentTurnIndex\<close> points, during the description phase, at an
  entry whose player is active or disconnected, and is \<open>-1\<close> during voting.

  The code does not keep the status of the player whose turn it is. A spectator without a
  role who was disconnected when round 2 started holds the first turn; on reconnecting,
  their status becomes waiting, by the rule for players without a role, and the pointer of
  the description phase now rests on a waiting player.
\<close>

theorem turn_on_waiting_spectator:
  "runs spectator
   \<and> map_option gamePhase (roomAfter spectator) = Some Description
   \<and> map_option turnOrder (roomAfter spectator) = Some [''d'', ''b'', ''c'', ''a'']
   \<and> map_option currentTurnIndex (roomAfter spectator) = Some 0
   \<and> map_option (map pid \<circ> players) (roomAfter spectator) = Some [''a'', ''b'', ''c'', ''d'']
   \<and> map_option (map status \<circ> players) (roomAfter spectator)
       = Some [Active, Active, Active, Waiting]"
  by code_simp

text \<open>
  Nor does it keep \<^verbatim>\<open>turnOrder\<close> inside the roster: \<^verbatim>\<open>startGame\<close> removes the
  disconnected players before it counts, and when it then fails for want of three players
  the turn order of the running round still names the player it removed.
\<close>

lemma turn_order_names_removed_player:
  "runs (prunedPlaying @ [StartGame ''s1'' ''ROOM01'' r0])
   \<and> map_option gamePhase (roomAfter (prunedPlaying @ [StartGame ''s1'' ''ROOM01'' r0]))
       = Some Description
   \<and> map_option turnOrder (roomAfter (prunedPlaying @ [StartGame ''s1'' ''ROOM01'' r0]))
       = Some [''a'', ''b'', ''c'']
   \<and> map_option (map pid \<circ> players) (roomAfter (prunedPlaying @ [StartGame ''s1'' ''ROOM01'' r0]))
       = Some [''a'', ''b'']"
  by code_simp

text \<open>
  C4, as amended. In every reachable state and every room, \<^verbatim>\<open>currentTurnIndex\<close> is
  \<open>-1\<close> during the voting phase, and during the description phase it points at an entry
  of \<^verbatim>\<open>turnOrder\<close>. In the state that a round start leaves, every id of \<^verbatim>\<open>turnOrder\<close>
  belongs to a player of the roster; and in the state that a round start, or a turn advance
  made in the description phase, leaves, either the phase is description and the entry
  \<^verbatim>\<open>currentTurnIndex\<close> points at is that of a player who is active or disconnected
  (\<open>eligibleAt\<close>, spelled out by the last conjunct), or the phase is voting and
  \<^verbatim>\<open>currentTurnIndex\<close> is \<open>-1\<close>.
\<close>

theorem turn_pointer:
  "(\<forall>s c h. reachable s \<and> games (mgr s) c = Some h \<longrightarrow>
        (gamePhase h = Voting \<longrightarrow> currentTurnIndex h = - 1)
        \<and> (gamePhase h = Description \<longrightarrow>
             0 \<le> currentTurnIndex h \<and> currentTurnIndex h < int (length (turnOrder h))))
   \<and> set (turnOrder (startRound r g)) \<subseteq> pid ` set (players (startRound r g))
   \<and> ((gamePhase (startRound r g) = Description
        \<and> eligibleAt (startRound r g) (currentTurnIndex (startRound r g)))
       \<or> (gamePhase (startRound r g) = Voting \<and> currentTurnIndex (startRound r g) = - 1))
   \<and> (gamePhase g = Description \<longrightarrow>
        (gamePhase (advanceTurn g) = Description
         \<and> eligibleAt (advanceTurn g) (currentTurnIndex (advanceTurn g)))
        \<or> (gamePhase (advanceTurn g) = Voting \<and> currentTurnIndex (advanceTurn g) = - 1))
   \<and> (eligibleAt g i \<longleftrightarrow>
        0 \<le> i \<and> i < int (length (turnOrder g))
        \<and> (\<exists>p. findPlayer (Some (turnOrder g ! nat i)) (players g) = Some p
              \<and> (status p = Active \<or> status p = Disconnected)))"
proof (intro conjI impI allI)
  fix s c h
  assume a: "reachable s \<and> games (mgr s) c = Some h"
  then have "allSound (mgr s)" by (simp add: reachable_sound)
  with a have t: "turnSound h" by (auto simp: allSound_def)
  {
    assume "gamePhase h = Voting"
    with t show "currentTurnIndex h = - 1" by (simp add: turnSound_def)
  }
  {
    assume "gamePhase h = Description"
    with t show "0 \<le> currentTurnIndex h" "currentTurnIndex h < int (length (turnOrder h))"
      by (simp_all add: turnSound_def)
  }
next
  show "set (turnOrder (startRound r g)) \<subseteq> pid ` set (players (startRound r g))"
    by (auto simp: startRound_turnOrder startRound_players)
  show "(gamePhase (startRound r g) = Description
        \<and> eligibleAt (startRound r g) (currentTurnIndex (startRound r g)))
       \<or> (gamePhase (startRound r g) = Voting \<and> currentTurnIndex (startRound r g) = - 1)"
    by (rule startRound_phase)
  show "eligibleAt g i \<longleftrightarrow>
        0 \<le> i \<and> i < int (length (turnOrder g))
        \<and> (\<exists>p. findPlayer (Some (turnOrder g ! nat i)) (players g) = Some p
              \<and> (status p = Active \<or> status p = Disconnected))"
    by (rule eligibleAt_iff)
next
  assume "gamePhase g = Description"
  with advanceTurn_lands [of g]
  show "(gamePhase (advanceTurn g) = Description
         \<and> eligibleAt (advanceTurn g) (currentTurnIndex (advanceTurn g)))
        \<or> (gamePhase (advanceTurn g) = Voting \<and> currentTurnIndex (advanceTurn g) = - 1)"
    by auto
qed

text \<open>
  The room of the reconnected spectator is in the description phase, with four entries in
  \<^verbatim>\<open>turnOrder\<close>; a room of three whose players have all described is in the voting
  phase; and the first turn of a round of three advances to the second.
\<close>

theorem turn_pointer_witness:
  "reachable (stateAfter spectator)
   \<and> games (mgr (stateAfter spectator)) ''ROOM01'' = Some (roomOr spectator)
   \<and> gamePhase (roomOr spectator) = Description
   \<and> length (turnOrder (roomOr spectator)) = 4
   \<and> 0 \<le> currentTurnIndex (roomOr spectator)
   \<and> currentTurnIndex (roomOr spectator) < 4
   \<and> reachable (stateAfter voting3)
   \<and> games (mgr (stateAfter voting3)) ''ROOM01'' = Some (roomOr voting3)
   \<and> gamePhase (roomOr voting3) = Voting
   \<and> currentTurnIndex (roomOr voting3) = - 1
   \<and> gamePhase firstTurn = Description
   \<and> turnOrder firstTurn = [''a'', ''b'', ''c'']
   \<and> currentTurnIndex firstTurn = 0
   \<and> currentTurnIndex (advanceTurn firstTurn) = 1
   \<and> gamePhase (advanceTurn firstTurn) = Description
   \<and> eligibleAt (advanceTurn firstTurn) 1
   \<and> set (turnOrder (startRound r1 firstTurn)) \<subseteq> pid ` set (players (startRound r1 firstTurn))"
proof -
  note T = turn_pointer [of r1 firstTurn]
  have "runs spectator" by code_simp
  then have r1: "reachable (stateAfter spectator)" by (rule runs_reachable)
  have p1: "gamePhase (roomOr spectator) = Description"
    and l1: "length (turnOrder (roomOr spectator)) = 4" by code_simp+
  have "map_option gamePhase (roomAfter spectator) = Some Description" by code_simp
  then have "roomAfter spectator \<noteq> None" by auto
  then have g1: "games (mgr (stateAfter spectator)) ''ROOM01'' = Some (roomOr spectator)"
    by (rule roomOr_room)
  from T r1 g1 p1
  have "0 \<le> currentTurnIndex (roomOr spectator)
        \<and> currentTurnIndex (roomOr spectator) < int (length (turnOrder (roomOr spectator)))"
    by blast
  with l1 have i1: "0 \<le> currentTurnIndex (roomOr spectator)"
    "currentTurnIndex (roomOr spectator) < 4" by simp_all
  have "runs voting3" by code_simp
  then have r2: "reachable (stateAfter voting3)" by (rule runs_reachable)
  have p2: "gamePhase (roomOr voting3) = Voting" by code_simp
  have "map_option gamePhase (roomAfter voting3) = Some Voting" by code_simp
  then have "roomAfter voting3 \<noteq> None" by auto
  then have g2: "games (mgr (stateAfter voting3)) ''ROOM01'' = Some (roomOr voting3)"
    by (rule roomOr_room)
  from T r2 g2 p2 have i2: "currentTurnIndex (roomOr voting3) = - 1" by blast
  have e: "gamePhase firstTurn = Description" "turnOrder firstTurn = [''a'', ''b'', ''c'']"
    "currentTurnIndex firstTurn = 0" "currentTurnIndex (advanceTurn firstTurn) = 1"
    by code_simp+
  from T e have f: "gamePhase (advanceTurn firstTurn) = Description"
    "eligibleAt (advanceTurn firstTurn) 1"
    "set (turnOrder (startRound r1 firstTurn)) \<subseteq> pid ` set (players (startRound r1 firstTurn))"
    by auto
  from r1 g1 p1 l1 i1 r2 g2 p2 i2 e f show ?thesis by simp
qed

text \<open>
  C5. Vote resolution is to tally the votes by target and to eliminate the sole plurality
  target. The code does not when a target names a property of \<^verbatim>\<open>Object.prototype\<close>. In
  a voting room of the three active players \<open>a\<close>, \<open>b\<close>, \<open>c\<close>, two vote for
  \<^verbatim>\<open>constructor\<close> and one for \<open>a\<close>. The plurality target set is \<^verbatim>\<open>constructor\<close> alone,
  with two votes of three, and no player has that id: by the claim nobody is eliminated.
  In the code the entry of \<^verbatim>\<open>constructor\<close> in \<^verbatim>\<open>voteCounts\<close> is a string, the loop passes
  it over, the candidates are \<open>a\<close> alone, and \<open>a\<close> is eliminated with one vote of
  three.
\<close>

theorem inherited_target_not_counted:
  "runs inheritedTarget
   \<and> map_option (map pid \<circ> players) (roomAfter inheritedTarget) = Some [''a'', ''b'', ''c'']
   \<and> map_option (map status \<circ> players)
        (roomAfter (voting3 @ [SubmitVote ''s1'' ''ROOM01'' ''constructor'',
                               SubmitVote ''s2'' ''ROOM01'' ''constructor'']))
      = Some [Active, Active, Active]
   \<and> map_option votes (roomAfter inheritedTarget)
      = Some [(''a'', ''constructor''), (''b'', ''constructor''), (''c'', ''a'')]
   \<and> voteCount [(''a'', ''constructor''), (''b'', ''constructor''), (''c'', ''a'')] ''constructor'' = 2
   \<and> voteCount [(''a'', ''constructor''), (''b'', ''constructor''), (''c'', ''a'')] ''a'' = 1
   \<and> pluralityTargets [(''a'', ''constructor''), (''b'', ''constructor''), (''c'', ''a'')]
      = {''constructor''}
   \<and> tally [''constructor'', ''constructor'', ''a''] = [(''constructor'', Text), (''a'', Count 1)]
   \<and> candidatesOf (tally [''constructor'', ''constructor'', ''a'']) = [''a'']
   \<and> map_option (map status \<circ> players) (roomAfter inheritedTarget)
      = Some [Eliminated, Active, Active]
   \<and> map_option (map_option eliminatedId \<circ> lastRoundResult) (roomAfter inheritedTarget)
      = Some (Some (Some ''a''))"
proof -
  have r: "runs inheritedTarget" by code_simp
  have i: "map_option (map pid \<circ> players) (roomAfter inheritedTarget)
           = Some [''a'', ''b'', ''c'']" by code_simp
  have b: "map_option (map status \<circ> players)
             (roomAfter (voting3 @ [SubmitVote ''s1'' ''ROOM01'' ''constructor'',
                                    SubmitVote ''s2'' ''ROOM01'' ''constructor'']))
           = Some [Active, Active, Active]" by code_simp
  have v: "map_option votes (roomAfter inheritedTarget)
           = Some [(''a'', ''constructor''), (''b'', ''constructor''), (''c'', ''a'')]"
    by code_simp
  have c2: "voteCount [(''a'', ''constructor''), (''b'', ''constructor''), (''c'', ''a'')]
              ''constructor'' = 2" by code_simp
  have c1: "voteCount [(''a'', ''constructor''), (''b'', ''constructor''), (''c'', ''a'')] ''a'' = 1"
    by code_simp
  have p: "pluralityTargets [(''a'', ''constructor''), (''b'', ''constructor''), (''c'', ''a'')]
           = {''constructor''}"
    by (auto simp: pluralityTargets_def voteCount_def)
  have t: "tally [''constructor'', ''constructor'', ''a'']
           = [(''constructor'', Text), (''a'', Count 1)]" by code_simp
  have c: "candidatesOf (tally [''constructor'', ''constructor'', ''a'']) = [''a'']" by code_simp
  have s: "map_option (map status \<circ> players) (roomAfter inheritedTarget)
           = Some [Eliminated, Active, Active]" by code_simp
  have e: "map_option (map_option eliminatedId \<circ> lastRoundResult) (roomAfter inheritedTarget)
           = Some (Some (Some ''a''))" by code_simp
  from r i b v c2 c1 p t c s e show ?thesis by simp
qed

text \<open>
  For the votes whose target is no such name the code does what the claim says: the
  candidates are their plurality target set. If that set is one target and it is not the
  abstain value \<^verbatim>\<open>none\<close>, then exactly the player with that id (the first in the roster)
  becomes eliminated, every other status stays, and if that player is the imposter the
  winner is civilians. If the set has no sole target, or the sole target is
  \<^verbatim>\<open>none\<close>, no status changes. When no vote names a property of
  \<^verbatim>\<open>Object.prototype\<close>, these are all the votes.
\<close>

lemma plain_votes_resolution:
  "set (candidatesOf (tally (map snd (votes g)))) = pluralityTargets (plainVotes (votes g))
   \<and> length (players (fst (processVotingResults g))) = length (players g)
   \<and> (pluralityTargets (plainVotes (votes g)) = {t} \<and> t \<noteq> ''none'' \<longrightarrow>
        (\<forall>i < length (players g).
           status (players (fst (processVotingResults g)) ! i)
           = (if pid (players g ! i) = t \<and> (\<forall>j < i. pid (players g ! j) \<noteq> t)
              then Eliminated else status (players g ! i)))
        \<and> (\<forall>p. findPlayer (Some t) (players g) = Some p \<and> role p = Some Imposter \<longrightarrow>
              snd (processVotingResults g) = Done (RoundResults (Some Civilians))
              \<and> map_option winner (lastRoundResult (fst (processVotingResults g)))
                 = Some (Some Civilians)))
   \<and> ((\<forall>u. pluralityTargets (plainVotes (votes g)) \<noteq> {u})
        \<or> pluralityTargets (plainVotes (votes g)) = {''none''} \<longrightarrow>
        map status (players (fst (processVotingResults g))) = map status (players g))
   \<and> ((\<forall>x \<in> set (votes g). snd x \<notin> set objectPrototypeKeys) \<longrightarrow>
        plainVotes (votes g) = votes g)"
proof (intro conjI impI allI)
  show "set (candidatesOf (tally (map snd (votes g)))) = pluralityTargets (plainVotes (votes g))"
    by (rule candidates_set)
  show "length (players (fst (processVotingResults g))) = length (players g)" by simp
next
  fix i
  assume a: "pluralityTargets (plainVotes (votes g)) = {t} \<and> t \<noteq> ''none''"
    and i: "i < length (players g)"
  then have c: "candidatesOf (tally (map snd (votes g))) = [t]" by (simp add: candidates_single)
  have "status (players (fst (processVotingResults g)) ! i)
        = map status (players (fst (processVotingResults g))) ! i"
    using i by simp
  also have "\<dots> = map status (setStatus (Some t) Eliminated (players g)) ! i"
    using a c by (simp add: processVotingResults_status eliminate_players)
  also have "\<dots> = status (setStatus (Some t) Eliminated (players g) ! i)"
    using i by simp
  finally show "status (players (fst (processVotingResults g)) ! i)
           = (if pid (players g ! i) = t \<and> (\<forall>j < i. pid (players g ! j) \<noteq> t)
              then Eliminated else status (players g ! i))"
    using i by (simp add: setStatus_status_nth)
next
  fix p
  assume a: "pluralityTargets (plainVotes (votes g)) = {t} \<and> t \<noteq> ''none''"
    and p: "findPlayer (Some t) (players g) = Some p \<and> role p = Some Imposter"
  from a have c: "candidatesOf (tally (map snd (votes g))) = [t]" by (simp add: candidates_single)
  from c a p show "snd (processVotingResults g) = Done (RoundResults (Some Civilians))"
    by (simp add: imposter_voted_out)
  from c a p show "map_option winner (lastRoundResult (fst (processVotingResults g)))
                 = Some (Some Civilians)"
    by (simp add: imposter_voted_out)
next
  assume a: "(\<forall>u. pluralityTargets (plainVotes (votes g)) \<noteq> {u})
             \<or> pluralityTargets (plainVotes (votes g)) = {''none''}"
  have "players (fst (eliminate g)) = players g"
  proof (cases "\<exists>u. candidatesOf (tally (map snd (votes g))) = [u]")
    case True
    then obtain u where u: "candidatesOf (tally (map snd (votes g))) = [u]" by blast
    then have "pluralityTargets (plainVotes (votes g)) = {u}" by (simp add: candidates_single)
    with a have "u = ''none''" by auto
    with u show ?thesis by (simp add: eliminate_players)
  next
    case False
    then show ?thesis
      by (cases "candidatesOf (tally (map snd (votes g)))" rule: list.exhaust)
         (auto simp: eliminate_players split: list.splits)
  qed
  then show "map status (players (fst (processVotingResults g))) = map status (players g)"
    by (simp add: processVotingResults_status)
next
  assume "\<forall>x \<in> set (votes g). snd x \<notin> set objectPrototypeKeys"
  then show "plainVotes (votes g) = votes g" by (rule plainVotes_all)
qed

text \<open>
  C6. The claim: when vote resolution determines a winner, exactly the surviving
  (non-eliminated) civilians receive 50 points if the civilians win, exactly the imposter
  receives 100 points if the imposter wins, and no other points change.

  The code asks for the role only. In round 2 of a game of four the imposter is voted
  out; the civilian \<open>d\<close>, eliminated in round 1, receives the 50 points as well.
\<close>

theorem eliminated_civilian_gets_bonus:
  "runs round2
   \<and> getPlayerId (mgr (stateAfter round2)) ''s3'' = Some ''c''
   \<and> map_option (map pid \<circ> players) (roomAfter round2) = Some [''a'', ''b'', ''c'', ''d'']
   \<and> map_option (map role \<circ> players) (roomAfter round2)
       = Some [Some Imposter, Some Civilian, Some Civilian, Some Civilian]
   \<and> map_option (map status \<circ> players) (roomAfter round2)
       = Some [Active, Active, Active, Eliminated]
   \<and> map_option (map points \<circ> players) (roomAfter round2) = Some [15, 10, 10, 0]
   \<and> snd (submitVote ''ROOM01'' (Some ''c'') ''a'' (mgr (stateAfter round2)))
       = Done (RoundResults (Some Civilians))
   \<and> map_option (map status \<circ> players)
        (games (fst (submitVote ''ROOM01'' (Some ''c'') ''a'' (mgr (stateAfter round2)))) ''ROOM01'')
       = Some [Eliminated, Active, Active, Eliminated]
   \<and> map_option (map points \<circ> players)
        (games (fst (submitVote ''ROOM01'' (Some ''c'') ''a'' (mgr (stateAfter round2)))) ''ROOM01'')
       = Some [15, 60, 60, 50]"
  by code_simp

text \<open>
  C6, as amended. When vote resolution determines a winner, every player with the role
  civilian, eliminated or not, receives 50 points if the civilians win, every player with
  the role imposter receives 100 points if the imposter wins, and the points of every
  other player stay as they were before the resolution.
\<close>

theorem win_bonus:
  assumes "processVotingResults g = (g', Done (RoundResults (Some w)))"
  shows "length (players g') = length (players g)
         \<and> (\<forall>i < length (players g).
               points (players g' ! i)
               = points (players g ! i)
                 + (if w = Civilians \<and> role (players g ! i) = Some Civilian then 50
                    else if w = ImposterWins \<and> role (players g ! i) = Some Imposter then 100
                    else 0))"
proof (intro conjI allI impI)
  have pl: "players g' = map (bonusPoints w) (players (fst (eliminate g)))"
    using assms by (rule processVotingResults_winner_players)
  have len: "length (players (fst (eliminate g))) = length (players g)"
    using eliminate_points [of g] by (metis length_map)
  with pl show "length (players g') = length (players g)" by simp
  fix i
  assume i: "i < length (players g)"
  let ?e = "players (fst (eliminate g))"
  from i len pl have "points (players g' ! i) = points (?e ! i) + bonusOf w (role (?e ! i))"
    by (simp add: bonusPoints_points)
  moreover have "points (?e ! i) = points (players g ! i)"
    using eliminate_points [of g] i by (rule map_nth_eq)
  moreover have "role (?e ! i) = role (players g ! i)"
    using eliminate_role [of g] i by (rule map_nth_eq)
  ultimately show "points (players g' ! i)
               = points (players g ! i)
                 + (if w = Civilians \<and> role (players g ! i) = Some Civilian then 50
                    else if w = ImposterWins \<and> role (players g ! i) = Some Imposter then 100
                    else 0)"
    by (simp add: bonusOf_def)
qed

text \<open>Both winners, at the rooms \<open>ballotLate\<close> and \<open>ballotB\<close>.\<close>

theorem win_bonus_witness:
  "snd (processVotingResults ballotLate) = Done (RoundResults (Some Civilians))
   \<and> map role (players ballotLate)
       = [Some Imposter, Some Civilian, Some Civilian, Some Civilian]
   \<and> map status (players (fst (processVotingResults ballotLate)))
       = [Eliminated, Active, Active, Eliminated]
   \<and> points (players (fst (processVotingResults ballotLate)) ! 0)
       = points (players ballotLate ! 0)
   \<and> points (players (fst (processVotingResults ballotLate)) ! 1)
       = points (players ballotLate ! 1) + 50
   \<and> points (players (fst (processVotingResults ballotLate)) ! 3)
       = points (players ballotLate ! 3) + 50
   \<and> snd (processVotingResults ballotB) = Done (RoundResults (Some ImposterWins))
   \<and> map role (players ballotB) = [Some Imposter, Some Civilian, Some Civilian]
   \<and> points (players (fst (processVotingResults ballotB)) ! 0)
       = points (players ballotB ! 0) + 100
   \<and> points (players (fst (processVotingResults ballotB)) ! 2)
       = points (players ballotB ! 2)"
proof -
  have e1: "snd (processVotingResults ballotLate) = Done (RoundResults (Some Civilians))"
    by code_simp
  have e2: "snd (processVotingResults ballotB) = Done (RoundResults (Some ImposterWins))"
    by code_simp
  have r1: "map role (players ballotLate)
            = [Some Imposter, Some Civilian, Some Civilian, Some Civilian]" by code_simp
  have r2: "map role (players ballotB) = [Some Imposter, Some Civilian, Some Civilian]"
    by code_simp
  have s1: "map status (players (fst (processVotingResults ballotLate)))
            = [Eliminated, Active, Active, Eliminated]" by code_simp
  have n1: "length (players ballotLate) = 4" "role (players ballotLate ! 0) = Some Imposter"
    "role (players ballotLate ! 1) = Some Civilian" "role (players ballotLate ! 3) = Some Civilian"
    by code_simp+
  have n2: "length (players ballotB) = 3" "role (players ballotB ! 0) = Some Imposter"
    "role (players ballotB ! 2) = Some Civilian"
    by code_simp+
  have h1: "processVotingResults ballotLate
            = (fst (processVotingResults ballotLate), Done (RoundResults (Some Civilians)))"
    using e1 by (simp add: prod_eq_iff)
  have h2: "processVotingResults ballotB
            = (fst (processVotingResults ballotB), Done (RoundResults (Some ImposterWins)))"
    using e2 by (simp add: prod_eq_iff)
  note b1 = win_bonus [OF h1, THEN conjunct2, rule_format]
  note b2 = win_bonus [OF h2, THEN conjunct2, rule_format]
  have p0: "points (players (fst (processVotingResults ballotLate)) ! 0)
            = points (players ballotLate ! 0)"
    using b1 [of 0] n1 by simp
  have p1: "points (players (fst (processVotingResults ballotLate)) ! 1)
            = points (players ballotLate ! 1) + 50"
    using b1 [of 1] n1 by simp
  have p3: "points (players (fst (processVotingResults ballotLate)) ! 3)
            = points (players ballotLate ! 3) + 50"
    using b1 [of 3] n1 by simp
  have q0: "points (players (fst (processVotingResults ballotB)) ! 0)
            = points (players ballotB ! 0) + 100"
    using b2 [of 0] n2 by simp
  have q2: "points (players (fst (processVotingResults ballotB)) ! 2)
            = points (players ballotB ! 2)"
    using b2 [of 2] n2 by simp
  from e1 e2 r1 r2 s1 p0 p1 p3 q0 q2 show ?thesis by simp
qed

text \<open>
  C7. The claim: every round start with round number 1 gives exactly one player the role
  imposter, with the imposter's word, and every other participating player the role
  civilian, with the civilians' word; later round starts of the same game reassign no
  role, no word and not the word pair.

  Round 1 of a room without players has no imposter: the roster of a lobby can become
  empty, and \<^verbatim>\<open>startNewGame\<close> starts round 1 in it all the same.
\<close>

theorem round_one_in_empty_room:
  "runs emptyRoom
   \<and> map_option currentRound (roomAfter emptyRoom) = Some 1
   \<and> map_option gameStatus (roomAfter emptyRoom) = Some Playing
   \<and> map_option (map role \<circ> players) (roomAfter emptyRoom) = Some []
   \<and> map_option imposterId (roomAfter emptyRoom) = Some None"
  by code_simp

text \<open>
  C7, as amended. A round start with round number 1 in a room with at least one
  participating player (active, waiting or disconnected) records the word pair drawn and
  gives exactly one participating player the role imposter with the imposter's word and
  every other participating player the role civilian with the civilians' word; players
  that do not participate keep role and word. A round start with a higher round number
  changes no role, no word and not the word pair.
\<close>

theorem first_round_assigns_one_imposter:
  "(currentRound g = 0 \<and> filter participating (players g) \<noteq> [] \<longrightarrow>
      wordPair (startRound r g) = Some (pair r)
      \<and> length (players (startRound r g)) = length (players g)
      \<and> length (filter (\<lambda>(p, p'). participating p \<and> role p' = Some Imposter)
                  (zip (players g) (players (startRound r g)))) = 1
      \<and> (\<forall>(p, p') \<in> set (zip (players g) (players (startRound r g))).
            if participating p
            then (role p' = Some Imposter \<and> word p' = Some (imposter (pair r)))
                 \<or> (role p' = Some Civilian \<and> word p' = Some (civilian (pair r)))
            else role p' = role p \<and> word p' = word p))
   \<and> (0 < currentRound g \<longrightarrow>
        map role (players (startRound r g)) = map role (players g)
        \<and> map word (players (startRound r g)) = map word (players g)
        \<and> wordPair (startRound r g) = wordPair g)"
proof (intro conjI impI)
  assume a: "currentRound g = 0 \<and> filter participating (players g) \<noteq> []"
  let ?k = "randomBelow (pick r) (length (filter participating (players g)))"
  let ?as = "assignRoles (pair r) ?k 0 (players g)"
  from a have pl: "players (startRound r g) = map resetFlags ?as"
    by (simp add: startRound_players roundPlayers_def)
  from a show "wordPair (startRound r g) = Some (pair r)"
    by (simp add: startRound_def Let_def addSystemMessage_def advanceTurn_def split: option.splits)
  from pl show "length (players (startRound r g)) = length (players g)" by simp
  from a have k: "?k < length (filter participating (players g))"
    by (simp add: randomBelow_less)
  have "filter (\<lambda>(p, p'). participating p \<and> role p' = Some Imposter)
          (zip (players g) (map resetFlags ?as))
        = map (\<lambda>(p, q). (p, resetFlags q))
            (filter (\<lambda>(p, p'). participating p \<and> role p' = Some Imposter) (zip (players g) ?as))"
    by (simp add: zip_map_resetFlags filter_map comp_def case_prod_unfold)
  then have "length (filter (\<lambda>(p, p'). participating p \<and> role p' = Some Imposter)
          (zip (players g) (map resetFlags ?as)))
        = length (filter (\<lambda>(p, p'). participating p \<and> role p' = Some Imposter) (zip (players g) ?as))"
    by simp
  with k pl show "length (filter (\<lambda>(p, p'). participating p \<and> role p' = Some Imposter)
                  (zip (players g) (players (startRound r g)))) = 1"
    by (simp add: assignRoles_imposters)
  show "\<forall>(p, p') \<in> set (zip (players g) (players (startRound r g))).
            if participating p
            then (role p' = Some Imposter \<and> word p' = Some (imposter (pair r)))
                 \<or> (role p' = Some Civilian \<and> word p' = Some (civilian (pair r)))
            else role p' = role p \<and> word p' = word p"
  proof (clarify)
    fix p p'
    assume "(p, p') \<in> set (zip (players g) (players (startRound r g)))"
    then obtain q where q: "(p, q) \<in> set (zip (players g) ?as)" and p': "p' = resetFlags q"
      by (auto simp: pl zip_map_resetFlags)
    from assignRoles_each [OF q] p'
    show "if participating p
            then (role p' = Some Imposter \<and> word p' = Some (imposter (pair r)))
                 \<or> (role p' = Some Civilian \<and> word p' = Some (civilian (pair r)))
            else role p' = role p \<and> word p' = word p"
      by (auto split: if_splits)
  qed
next
  assume a: "0 < currentRound g"
  then have pl: "players (startRound r g) = map resetFlags (players g)"
    by (simp add: startRound_players roundPlayers_def)
  from pl show "map role (players (startRound r g)) = map role (players g)" by simp
  from pl show "map word (players (startRound r g)) = map word (players g)" by simp
  from a show "wordPair (startRound r g) = wordPair g"
    by (simp add: startRound_def Let_def addSystemMessage_def advanceTurn_def split: option.splits)
qed

text \<open>Round 1 and round 2 of a room of three.\<close>

theorem first_round_witness:
  "currentRound inLobby = 0
   \<and> map status (players inLobby) = [Active, Active, Active]
   \<and> length (filter (\<lambda>(p, p'). participating p \<and> role p' = Some Imposter)
                (zip (players inLobby) (players (startRound r0 inLobby)))) = 1
   \<and> wordPair (startRound r0 inLobby) = Some (pair r0)
   \<and> map role (players (startRound r0 inLobby)) = [Some Imposter, Some Civilian, Some Civilian]
   \<and> currentRound firstTurn = 1
   \<and> map role (players (startRound r1 firstTurn)) = map role (players firstTurn)
   \<and> map word (players (startRound r1 firstTurn)) = map word (players firstTurn)
   \<and> wordPair (startRound r1 firstTurn) = wordPair firstTurn"
proof -
  have e: "currentRound inLobby = 0" "map status (players inLobby) = [Active, Active, Active]"
    "map role (players (startRound r0 inLobby)) = [Some Imposter, Some Civilian, Some Civilian]"
    "currentRound firstTurn = 1"
    by code_simp+
  have "length (filter participating (players inLobby)) = 3" by code_simp
  then have n: "filter participating (players inLobby) \<noteq> []" by auto
  note A = first_round_assigns_one_imposter [of inLobby r0, THEN conjunct1, rule_format]
  note B = first_round_assigns_one_imposter [of firstTurn r1, THEN conjunct2, rule_format]
  from e n A B show ?thesis by simp
qed

text \<open>
  C8. The claim: in every committed state the number of entries of \<^verbatim>\<open>votes\<close> is at most
  the number of players that are active or disconnected, and vote resolution is triggered
  exactly when the two are equal.

  The votes stay in the room when the resolution eliminates a player: after two of three
  players voted \<open>b\<close> out, \<^verbatim>\<open>votes\<close> has three entries and two players are active or
  disconnected.
\<close>

theorem votes_outnumber_voters_after_resolution:
  "runs bVotedOut
   \<and> map_option (map fst \<circ> votes) (roomAfter bVotedOut) = Some [''a'', ''c'', ''b'']
   \<and> map_option (map status \<circ> players) (roomAfter bVotedOut)
       = Some [Active, Eliminated, Active]
   \<and> map_option (length \<circ> votes) (roomAfter bVotedOut) = Some 3
   \<and> map_option (length \<circ> filter capable \<circ> players) (roomAfter bVotedOut) = Some 2"
  by code_simp

text \<open>
  The same can happen in the voting phase, without any resolution, when voters leave the
  count: four votes are recorded and three players are active or disconnected.
\<close>

lemma votes_outnumber_voters_while_voting:
  "runs votingSpectators
   \<and> map_option gamePhase (roomAfter votingSpectators) = Some Voting
   \<and> map_option (map fst \<circ> votes) (roomAfter votingSpectators) = Some [''d'', ''e'', ''a'', ''b'']
   \<and> map_option (map status \<circ> players) (roomAfter votingSpectators)
       = Some [Active, Active, Active, Waiting, Waiting]"
  by code_simp

text \<open>
  C8, as amended. Vote resolution is triggered at two places. \<^verbatim>\<open>submitVote\<close> that
  records a vote triggers it exactly when the number of entries of \<^verbatim>\<open>votes\<close>, with the
  new vote, is at least the number of players that are active or disconnected; when it
  does not, it leaves the room in the voting phase with fewer entries in \<^verbatim>\<open>votes\<close> than
  players that are active or disconnected. The in-game grace timer of a player \<open>p\<close> still
  disconnected, in a room that is playing, triggers it exactly when, after the turn of
  \<open>p\<close> has been skipped (the room \<open>g2\<close>), the phase is voting, the number of entries of
  \<^verbatim>\<open>votes\<close> is at least the number of players that are active or disconnected, and that
  number is positive: then the room is left as the resolution, followed by the check for
  a win by disconnect, leaves it, or as the resolution left it when it threw, and it is
  in the voting phase no more. When the timer does not trigger it, \<^verbatim>\<open>votes\<close> and the
  roster stay as they were, so that in the voting phase \<^verbatim>\<open>votes\<close> has fewer entries than
  there are players that are active or disconnected, or there is no such player. In a
  room that is not playing the timer only logs the disconnect.
\<close>

theorem resolution_triggers:
  "(\<forall>g' r. submitVote_g (Some v) t g = (g', r) \<and> (\<forall>e. r \<noteq> Failure e) \<longrightarrow>
        (length (putVote v t (votes g)) < length (filter capable (players g)) \<longrightarrow>
           r = Done VoteUpdate \<and> gamePhase g' = Voting \<and> votes g' = putVote v t (votes g)
           \<and> length (votes g') < length (filter capable (players g')))
        \<and> (length (filter capable (players g)) \<le> length (putVote v t (votes g)) \<longrightarrow>
             gamePhase g' \<noteq> Voting \<and> (r = Threw \<or> (\<exists>w. r = Done (RoundResults w)))))
   \<and> (\<forall>g' threw g2. gameGraceFired_g i p g = (g', threw) \<and> gameStatus g = Playing
          \<and> g2 = skipTurnOf i p (addSystemMessage (name p @ '' disconnected'') g) \<longrightarrow>
        votes g2 = votes g \<and> players g2 = players g
        \<and> (gamePhase g2 = Voting
             \<and> length (filter capable (players g)) \<le> length (votes g)
             \<and> 0 < length (filter capable (players g)) \<longrightarrow>
               threw = (snd (processVotingResults g2) = Threw)
               \<and> g' = (if threw then fst (processVotingResults g2)
                        else disconnectWin p (fst (processVotingResults g2)))
               \<and> gamePhase g' \<noteq> Voting)
        \<and> (gamePhase g2 \<noteq> Voting
             \<or> length (votes g) < length (filter capable (players g))
             \<or> length (filter capable (players g)) = 0 \<longrightarrow>
               \<not> threw \<and> g' = disconnectWin p g2
               \<and> votes g' = votes g \<and> players g' = players g
               \<and> (gamePhase g' = gamePhase g2 \<or> gamePhase g' = PhEnded)
               \<and> (gamePhase g2 = Voting \<longrightarrow>
                    length (votes g') < length (filter capable (players g'))
                    \<or> length (filter capable (players g')) = 0)))
   \<and> (\<forall>g' threw. gameGraceFired_g i p g = (g', threw) \<and> gameStatus g \<noteq> Playing \<longrightarrow>
        \<not> threw \<and> g' = addSystemMessage (name p @ '' disconnected'') g)"
proof (intro conjI)
  show "\<forall>g' r. submitVote_g (Some v) t g = (g', r) \<and> (\<forall>e. r \<noteq> Failure e) \<longrightarrow>
        (length (putVote v t (votes g)) < length (filter capable (players g)) \<longrightarrow>
           r = Done VoteUpdate \<and> gamePhase g' = Voting \<and> votes g' = putVote v t (votes g)
           \<and> length (votes g') < length (filter capable (players g')))
        \<and> (length (filter capable (players g)) \<le> length (putVote v t (votes g)) \<longrightarrow>
             gamePhase g' \<noteq> Voting \<and> (r = Threw \<or> (\<exists>w. r = Done (RoundResults w))))"
  proof (intro allI impI)
    fix g' r
    assume a: "submitVote_g (Some v) t g = (g', r) \<and> (\<forall>e. r \<noteq> Failure e)"
    then obtain voter where f: "findPlayer (Some v) (players g) = Some voter"
      and ph: "gamePhase g = Voting"
      by (auto simp: submitVote_g_def Let_def split: if_splits option.splits)
    define g2 where "g2 = (autoReconnect (Some v) voter g)
       \<lparr>votes := putVote v t (votes g),
        players := updFirst (hasId (Some v)) (\<lambda>p. p\<lparr>hasVoted := True\<rparr>)
                     (players (autoReconnect (Some v) voter g))\<rparr>"
    have cnt: "length (filter capable (players g2)) = length (filter capable (players g))"
      using f by (simp add: g2_def hasVoted_capable autoReconnect_capable)
    have v2: "votes g2 = putVote v t (votes g)" and p2: "gamePhase g2 = Voting"
      using ph by (simp_all add: g2_def)
    have res: "(g', r) = (if length (votes g2) \<ge> length (filter capable (players g2))
                          then processVotingResults g2 else (g2, Done VoteUpdate))"
      using a f ph findPlayer_pid [OF f]
      by (auto simp: submitVote_g_def Let_def g2_def split: if_splits)
    show "(length (putVote v t (votes g)) < length (filter capable (players g)) \<longrightarrow>
           r = Done VoteUpdate \<and> gamePhase g' = Voting \<and> votes g' = putVote v t (votes g)
           \<and> length (votes g') < length (filter capable (players g')))
        \<and> (length (filter capable (players g)) \<le> length (putVote v t (votes g)) \<longrightarrow>
             gamePhase g' \<noteq> Voting \<and> (r = Threw \<or> (\<exists>w. r = Done (RoundResults w))))"
    proof (intro conjI impI)
      assume lt: "length (putVote v t (votes g)) < length (filter capable (players g))"
      with res cnt v2 have e: "g' = g2" "r = Done VoteUpdate" by auto
      from e show "r = Done VoteUpdate" by simp
      from e p2 show "gamePhase g' = Voting" by simp
      from e v2 show "votes g' = putVote v t (votes g)" by simp
      from e v2 cnt lt show "length (votes g') < length (filter capable (players g'))" by simp
    next
      assume ge: "length (filter capable (players g)) \<le> length (putVote v t (votes g))"
      with res cnt v2 have e: "(g', r) = processVotingResults g2" by auto
      then have "g' = fst (processVotingResults g2)" "r = snd (processVotingResults g2)"
        by (simp_all add: prod_eq_iff)
      with processVotingResults_phase [of g2] processVotingResults_reply [of g2]
      show "gamePhase g' \<noteq> Voting" "r = Threw \<or> (\<exists>w. r = Done (RoundResults w))"
        by auto
    qed
  qed
next
  show "\<forall>g' threw g2. gameGraceFired_g i p g = (g', threw) \<and> gameStatus g = Playing
          \<and> g2 = skipTurnOf i p (addSystemMessage (name p @ '' disconnected'') g) \<longrightarrow>
        votes g2 = votes g \<and> players g2 = players g
        \<and> (gamePhase g2 = Voting
             \<and> length (filter capable (players g)) \<le> length (votes g)
             \<and> 0 < length (filter capable (players g)) \<longrightarrow>
               threw = (snd (processVotingResults g2) = Threw)
               \<and> g' = (if threw then fst (processVotingResults g2)
                        else disconnectWin p (fst (processVotingResults g2)))
               \<and> gamePhase g' \<noteq> Voting)
        \<and> (gamePhase g2 \<noteq> Voting
             \<or> length (votes g) < length (filter capable (players g))
             \<or> length (filter capable (players g)) = 0 \<longrightarrow>
               \<not> threw \<and> g' = disconnectWin p g2
               \<and> votes g' = votes g \<and> players g' = players g
               \<and> (gamePhase g' = gamePhase g2 \<or> gamePhase g' = PhEnded)
               \<and> (gamePhase g2 = Voting \<longrightarrow>
                    length (votes g') < length (filter capable (players g'))
                    \<or> length (filter capable (players g')) = 0))"
  proof (intro allI impI)
    fix g' threw g2
    assume a: "gameGraceFired_g i p g = (g', threw) \<and> gameStatus g = Playing
               \<and> g2 = skipTurnOf i p (addSystemMessage (name p @ '' disconnected'') g)"
    let ?c = "length (filter capable (players g))"
    let ?n = "length (votes g)"
    from a have ge: "gameGraceFired_g i p g = (g', threw)" and st: "gameStatus g = Playing"
      and g2: "g2 = skipTurnOf i p (addSystemMessage (name p @ '' disconnected'') g)"
      by simp_all
    define trig where "trig = (gamePhase g2 = Voting \<and> ?c \<le> ?n \<and> 0 < ?c)"
    have u: "(g', threw)
         = (if trig
            then (if snd (processVotingResults g2) = Threw
                  then (fst (processVotingResults g2), True)
                  else (disconnectWin p (fst (processVotingResults g2)), False))
            else (disconnectWin p g2, False))"
      unfolding ge [symmetric] trig_def g2
      by (simp only: gameGraceFired_g_playing [OF st] Let_def)
    from g2 have k: "votes g2 = votes g" "players g2 = players g" by simp_all
    have t: "threw = (snd (processVotingResults g2) = Threw)
             \<and> g' = (if threw then fst (processVotingResults g2)
                      else disconnectWin p (fst (processVotingResults g2)))
             \<and> gamePhase g' \<noteq> Voting"
      if "gamePhase g2 = Voting \<and> ?c \<le> ?n \<and> 0 < ?c"
    proof (cases "snd (processVotingResults g2) = Threw")
      case True
      from that have trig by (simp only: trig_def)
      with True have "(g', threw) = (fst (processVotingResults g2), True)"
        unfolding u by simp
      then have "g' = fst (processVotingResults g2)" "threw" by simp_all
      with True processVotingResults_phase [of g2] show ?thesis by auto
    next
      case False
      from that have trig by (simp only: trig_def)
      with False
      have "(g', threw) = (disconnectWin p (fst (processVotingResults g2)), False)"
        unfolding u by simp
      then have "g' = disconnectWin p (fst (processVotingResults g2))" "\<not> threw"
        by simp_all
      with False processVotingResults_phase [of g2]
        disconnectWin_phase [of p "fst (processVotingResults g2)"]
      show ?thesis by auto
    qed
    have n: "\<not> threw \<and> g' = disconnectWin p g2
             \<and> votes g' = votes g \<and> players g' = players g
             \<and> (gamePhase g' = gamePhase g2 \<or> gamePhase g' = PhEnded)
             \<and> (gamePhase g2 = Voting \<longrightarrow>
                  length (votes g') < length (filter capable (players g'))
                  \<or> length (filter capable (players g')) = 0)"
      if "gamePhase g2 \<noteq> Voting \<or> ?n < ?c \<or> ?c = 0"
    proof -
      from that have "\<not> trig" unfolding trig_def by auto
      then have "(g', threw) = (disconnectWin p g2, False)" unfolding u by simp
      then have e: "g' = disconnectWin p g2" "\<not> threw" by simp_all
      with k have v: "votes g' = votes g" "players g' = players g" by simp_all
      from that v have "gamePhase g2 = Voting \<longrightarrow>
                  length (votes g') < length (filter capable (players g'))
                  \<or> length (filter capable (players g')) = 0" by auto
      with e v disconnectWin_phase [of p g2] show ?thesis by auto
    qed
    from k t n
    show "votes g2 = votes g \<and> players g2 = players g
        \<and> (gamePhase g2 = Voting \<and> ?c \<le> ?n \<and> 0 < ?c \<longrightarrow>
               threw = (snd (processVotingResults g2) = Threw)
               \<and> g' = (if threw then fst (processVotingResults g2)
                        else disconnectWin p (fst (processVotingResults g2)))
               \<and> gamePhase g' \<noteq> Voting)
        \<and> (gamePhase g2 \<noteq> Voting \<or> ?n < ?c \<or> ?c = 0 \<longrightarrow>
               \<not> threw \<and> g' = disconnectWin p g2
               \<and> votes g' = votes g \<and> players g' = players g
               \<and> (gamePhase g' = gamePhase g2 \<or> gamePhase g' = PhEnded)
               \<and> (gamePhase g2 = Voting \<longrightarrow>
                    length (votes g') < length (filter capable (players g'))
                    \<or> length (filter capable (players g')) = 0))"
      by (intro conjI impI) blast+
  qed
next
  show "\<forall>g' threw. gameGraceFired_g i p g = (g', threw) \<and> gameStatus g \<noteq> Playing \<longrightarrow>
        \<not> threw \<and> g' = addSystemMessage (name p @ '' disconnected'') g"
    by (auto simp: gameGraceFired_g_idle)
qed

text \<open>
  The first and the last vote in a voting room of three. The grace timer of \<open>c\<close> in a
  voting room of three without a vote triggers no resolution; in the room with four votes
  and three players that are active or disconnected it does, and the imposter \<open>a\<close> is
  voted out; in a lobby it only logs.
\<close>

theorem resolution_triggers_witness:
  "snd (submitVote_g (Some ''a'') ''b'' noVotes) = Done VoteUpdate
   \<and> length (putVote ''a'' ''b'' (votes noVotes)) = 1
   \<and> length (filter capable (players noVotes)) = 3
   \<and> gamePhase (fst (submitVote_g (Some ''a'') ''b'' noVotes)) = Voting
   \<and> length (votes (fst (submitVote_g (Some ''a'') ''b'' noVotes)))
       < length (filter capable (players (fst (submitVote_g (Some ''a'') ''b'' noVotes))))
   \<and> snd (submitVote_g (Some ''c'') ''a'' twoVotes) = Done (RoundResults None)
   \<and> length (putVote ''c'' ''a'' (votes twoVotes)) = 3
   \<and> length (filter capable (players twoVotes)) = 3
   \<and> gamePhase (fst (submitVote_g (Some ''c'') ''a'' twoVotes)) \<noteq> Voting
   \<and> gameStatus earlyLeaver = Playing
   \<and> gamePhase (skipTurnOf ''c'' (players earlyLeaver ! 2)
        (addSystemMessage (name (players earlyLeaver ! 2) @ '' disconnected'') earlyLeaver))
       = Voting
   \<and> length (votes earlyLeaver) = 0
   \<and> length (filter capable (players earlyLeaver)) = 3
   \<and> \<not> snd (gameGraceFired_g ''c'' (players earlyLeaver ! 2) earlyLeaver)
   \<and> votes (fst (gameGraceFired_g ''c'' (players earlyLeaver ! 2) earlyLeaver))
       = votes earlyLeaver
   \<and> players (fst (gameGraceFired_g ''c'' (players earlyLeaver ! 2) earlyLeaver))
       = players earlyLeaver
   \<and> gamePhase (fst (gameGraceFired_g ''c'' (players earlyLeaver ! 2) earlyLeaver)) = Voting
   \<and> gameStatus lateLeaver = Playing
   \<and> gamePhase (skipTurnOf ''c'' (players lateLeaver ! 2)
        (addSystemMessage (name (players lateLeaver ! 2) @ '' disconnected'') lateLeaver))
       = Voting
   \<and> length (votes lateLeaver) = 4
   \<and> length (filter capable (players lateLeaver)) = 3
   \<and> gamePhase (fst (gameGraceFired_g ''c'' (players lateLeaver ! 2) lateLeaver)) \<noteq> Voting
   \<and> map status (players lateLeaver) = [Active, Active, Disconnected, Waiting, Waiting]
   \<and> map status (players (fst (gameGraceFired_g ''c'' (players lateLeaver ! 2) lateLeaver)))
       = [Eliminated, Active, Disconnected, Waiting, Waiting]
   \<and> gameStatus (roomOr lobbyLeft) = Lobby
   \<and> \<not> snd (gameGraceFired_g ''c'' (players (roomOr lobbyLeft) ! 2) (roomOr lobbyLeft))"
proof -
  note T = resolution_triggers
  have e: "snd (submitVote_g (Some ''a'') ''b'' noVotes) = Done VoteUpdate"
    "length (putVote ''a'' ''b'' (votes noVotes)) = 1"
    "length (filter capable (players noVotes)) = 3"
    "snd (submitVote_g (Some ''c'') ''a'' twoVotes) = Done (RoundResults None)"
    "length (putVote ''c'' ''a'' (votes twoVotes)) = 3"
    "length (filter capable (players twoVotes)) = 3"
    by code_simp+
  have h1: "submitVote_g (Some ''a'') ''b'' noVotes
            = (fst (submitVote_g (Some ''a'') ''b'' noVotes), Done VoteUpdate)
            \<and> (\<forall>x. Done VoteUpdate \<noteq> Failure x)"
    using e by (simp add: prod_eq_iff)
  have h2: "submitVote_g (Some ''c'') ''a'' twoVotes
            = (fst (submitVote_g (Some ''c'') ''a'' twoVotes), Done (RoundResults None))
            \<and> (\<forall>x. Done (RoundResults None) \<noteq> Failure x)"
    using e by (simp add: prod_eq_iff)
  have "length (putVote ''a'' ''b'' (votes noVotes)) < length (filter capable (players noVotes))"
    using e by simp
  with T [THEN conjunct1, rule_format, OF h1]
  have a: "gamePhase (fst (submitVote_g (Some ''a'') ''b'' noVotes)) = Voting"
    "length (votes (fst (submitVote_g (Some ''a'') ''b'' noVotes)))
       < length (filter capable (players (fst (submitVote_g (Some ''a'') ''b'' noVotes))))"
    by blast+
  have "length (filter capable (players twoVotes)) \<le> length (putVote ''c'' ''a'' (votes twoVotes))"
    using e by simp
  with T [THEN conjunct1, rule_format, OF h2]
  have b: "gamePhase (fst (submitVote_g (Some ''c'') ''a'' twoVotes)) \<noteq> Voting"
    by blast
  let ?pe = "players earlyLeaver ! 2"
  let ?ge = "skipTurnOf ''c'' ?pe (addSystemMessage (name ?pe @ '' disconnected'') earlyLeaver)"
  have ce: "gameStatus earlyLeaver = Playing" "gamePhase ?ge = Voting"
    "length (votes earlyLeaver) = 0" "length (filter capable (players earlyLeaver)) = 3"
    by code_simp+
  have he: "gameGraceFired_g ''c'' ?pe earlyLeaver
            = (fst (gameGraceFired_g ''c'' ?pe earlyLeaver),
               snd (gameGraceFired_g ''c'' ?pe earlyLeaver))
            \<and> gameStatus earlyLeaver = Playing \<and> ?ge = ?ge"
    using ce by simp
  have "length (votes earlyLeaver) < length (filter capable (players earlyLeaver))"
    using ce by simp
  with T [THEN conjunct2, THEN conjunct1, rule_format, OF he]
  have ne: "\<not> snd (gameGraceFired_g ''c'' ?pe earlyLeaver)"
    "votes (fst (gameGraceFired_g ''c'' ?pe earlyLeaver)) = votes earlyLeaver"
    "players (fst (gameGraceFired_g ''c'' ?pe earlyLeaver)) = players earlyLeaver"
    by blast+
  have pe: "gamePhase (fst (gameGraceFired_g ''c'' ?pe earlyLeaver)) = Voting" by code_simp
  let ?pl = "players lateLeaver ! 2"
  let ?gl = "skipTurnOf ''c'' ?pl (addSystemMessage (name ?pl @ '' disconnected'') lateLeaver)"
  have cl: "gameStatus lateLeaver = Playing" "gamePhase ?gl = Voting"
    "length (votes lateLeaver) = 4" "length (filter capable (players lateLeaver)) = 3"
    by code_simp+
  have hl: "gameGraceFired_g ''c'' ?pl lateLeaver
            = (fst (gameGraceFired_g ''c'' ?pl lateLeaver),
               snd (gameGraceFired_g ''c'' ?pl lateLeaver))
            \<and> gameStatus lateLeaver = Playing \<and> ?gl = ?gl"
    using cl by simp
  have "gamePhase ?gl = Voting
        \<and> length (filter capable (players lateLeaver)) \<le> length (votes lateLeaver)
        \<and> 0 < length (filter capable (players lateLeaver))"
    using cl by simp
  with T [THEN conjunct2, THEN conjunct1, rule_format, OF hl]
  have nl: "gamePhase (fst (gameGraceFired_g ''c'' ?pl lateLeaver)) \<noteq> Voting"
    by blast
  have sl: "map status (players lateLeaver) = [Active, Active, Disconnected, Waiting, Waiting]"
    "map status (players (fst (gameGraceFired_g ''c'' ?pl lateLeaver)))
       = [Eliminated, Active, Disconnected, Waiting, Waiting]"
    by code_simp+
  let ?po = "players (roomOr lobbyLeft) ! 2"
  have lo: "gameStatus (roomOr lobbyLeft) = Lobby" by code_simp
  then have ho: "gameGraceFired_g ''c'' ?po (roomOr lobbyLeft)
            = (fst (gameGraceFired_g ''c'' ?po (roomOr lobbyLeft)),
               snd (gameGraceFired_g ''c'' ?po (roomOr lobbyLeft)))
            \<and> gameStatus (roomOr lobbyLeft) \<noteq> Playing"
    by simp
  from T [THEN conjunct2, THEN conjunct2, rule_format, OF ho]
  have no: "\<not> snd (gameGraceFired_g ''c'' ?po (roomOr lobbyLeft))" by blast
  show ?thesis
    by (intro conjI; fact)
qed

text \<open>
  C9. The claim: \<^verbatim>\<open>joinGame\<close> with a previous id that an existing player has under the
  requested name leaves the roster size as it is, rebinds the session to that player, and
  sets the player's status to active in a lobby or ended room and otherwise to active with
  a role and waiting without; with another name it is a new join.

  The status is only written when it was disconnected. The civilian \<open>d\<close>, voted out in a
  running game, joins again from a new socket before the old one closes: \<open>d\<close> holds a
  role and stays eliminated.
\<close>

theorem eliminated_player_rejoins:
  "runs dVotedOut
   \<and> map_option gameStatus (roomAfter dVotedOut) = Some Playing
   \<and> map_option (map pid \<circ> players) (roomAfter dVotedOut) = Some [''a'', ''b'', ''c'', ''d'']
   \<and> map_option (map name \<circ> players) (roomAfter dVotedOut)
       = Some [''Alice'', ''Bob'', ''Carol'', ''Dave'']
   \<and> map_option (map role \<circ> players) (roomAfter dVotedOut)
       = Some [Some Imposter, Some Civilian, Some Civilian, Some Civilian]
   \<and> map_option (map status \<circ> players) (roomAfter dVotedOut)
       = Some [Active, Active, Active, Eliminated]
   \<and> snd (joinGame ''ROOM01'' ''s4b'' ''Dave'' (Some ''d'') ''x'' (mgr (stateAfter dVotedOut)))
       = Done (Joined ''d'')
   \<and> map_option (map status \<circ> players)
        (games (fst (joinGame ''ROOM01'' ''s4b'' ''Dave'' (Some ''d'') ''x''
                       (mgr (stateAfter dVotedOut)))) ''ROOM01'')
       = Some [Active, Active, Active, Eliminated]"
  by code_simp

text \<open>
  C9, as amended. For an existing room: if the previous id is given and not empty, a
  player has it and the player's stored name is the requested one, the call returns that
  id, binds the session of the socket to it and keeps the roster's size; the roster
  changes only if that player (the first with the id) was disconnected, and then only in
  that player's status, which becomes active in a lobby or ended room and otherwise active
  with a role and waiting without. If a player has the previous id under another name, the
  call is a new join: it returns the new id, binds the session to it and appends one
  player with that id, without a role, active in a lobby or ended room and waiting
  otherwise.
\<close>

theorem reconnection_effect:
  assumes "games m code = Some g"
  shows "(\<forall>i existing.
            previousPlayerId = Some i \<and> i \<noteq> [] \<and> findPlayer (Some i) (players g) = Some existing
            \<and> name existing = playerName \<longrightarrow>
            snd (joinGame code sock playerName previousPlayerId newId m) = Done (Joined i)
            \<and> playerSessions (fst (joinGame code sock playerName previousPlayerId newId m)) sock
               = Some (code, i)
            \<and> (\<exists>g'. games (fst (joinGame code sock playerName previousPlayerId newId m)) code
                       = Some g'
                  \<and> length (players g') = length (players g)
                  \<and> (\<forall>j < length (players g).
                        players g' ! j
                        = (if status existing = Disconnected \<and> pid (players g ! j) = i
                              \<and> (\<forall>k < j. pid (players g ! k) \<noteq> i)
                           then (players g ! j)
                                  \<lparr>status := (if gameStatus g = Lobby \<or> gameStatus g = Ended
                                               then Active
                                               else if role existing \<noteq> None then Active
                                               else Waiting)\<rparr>
                           else players g ! j))))
         \<and> (\<forall>i existing.
               previousPlayerId = Some i \<and> findPlayer (Some i) (players g) = Some existing
               \<and> name existing \<noteq> playerName \<longrightarrow>
               snd (joinGame code sock playerName previousPlayerId newId m) = Done (Joined newId)
               \<and> playerSessions (fst (joinGame code sock playerName previousPlayerId newId m)) sock
                  = Some (code, newId)
               \<and> (\<exists>g' p. games (fst (joinGame code sock playerName previousPlayerId newId m)) code
                            = Some g'
                     \<and> players g' = players g @ [p] \<and> pid p = newId \<and> role p = None
                     \<and> status p = (if gameStatus g = Lobby \<or> gameStatus g = Ended
                                     then Active else Waiting)))"
proof (intro conjI allI impI)
  fix i existing
  assume a: "previousPlayerId = Some i \<and> i \<noteq> [] \<and> findPlayer (Some i) (players g) = Some existing
            \<and> name existing = playerName"
  then have r: "reconnecting previousPlayerId playerName g = Some existing"
    by (simp add: reconnecting_def)
  from a have id: "pid existing = i" by (blast dest: findPlayer_pid)
  note j = joinGame_reconnect [OF assms r, of sock newId]
  let ?g' = "if status existing = Disconnected
             then g\<lparr>players := setStatus previousPlayerId (restoredStatus g existing) (players g)\<rparr>
             else g"
  show "snd (joinGame code sock playerName previousPlayerId newId m) = Done (Joined i)"
    by (simp add: j id)
  show "playerSessions (fst (joinGame code sock playerName previousPlayerId newId m)) sock
               = Some (code, i)"
    by (simp add: j id)
  have gm: "games (fst (joinGame code sock playerName previousPlayerId newId m)) code = Some ?g'"
    by (simp add: j)
  have len: "length (players ?g') = length (players g)" by simp
  have nth: "players ?g' ! j
             = (if status existing = Disconnected \<and> pid (players g ! j) = i
                      \<and> (\<forall>k < j. pid (players g ! k) \<noteq> i)
                then (players g ! j)
                       \<lparr>status := (if gameStatus g = Lobby \<or> gameStatus g = Ended
                                    then Active
                                    else if role existing \<noteq> None then Active
                                    else Waiting)\<rparr>
                else players g ! j)" if "j < length (players g)" for j
    using that a
    by (auto simp: setStatus_def updFirst_nth hasId_def restoredStatus_def)
  from gm len nth
  show "\<exists>g'. games (fst (joinGame code sock playerName previousPlayerId newId m)) code
                       = Some g'
                  \<and> length (players g') = length (players g)
                  \<and> (\<forall>j < length (players g).
                        players g' ! j
                        = (if status existing = Disconnected \<and> pid (players g ! j) = i
                              \<and> (\<forall>k < j. pid (players g ! k) \<noteq> i)
                           then (players g ! j)
                                  \<lparr>status := (if gameStatus g = Lobby \<or> gameStatus g = Ended
                                               then Active
                                               else if role existing \<noteq> None then Active
                                               else Waiting)\<rparr>
                           else players g ! j))"
    by blast
next
  fix i existing
  assume a: "previousPlayerId = Some i \<and> findPlayer (Some i) (players g) = Some existing
               \<and> name existing \<noteq> playerName"
  then have r: "reconnecting previousPlayerId playerName g = None"
    by (simp add: reconnecting_def)
  note j = joinGame_new [OF assms r, of sock newId]
  show "snd (joinGame code sock playerName previousPlayerId newId m) = Done (Joined newId)"
    by (simp add: j)
  show "playerSessions (fst (joinGame code sock playerName previousPlayerId newId m)) sock
                  = Some (code, newId)"
    by (simp add: j)
  from joinNew_players [of playerName newId g]
  show "\<exists>g' p. games (fst (joinGame code sock playerName previousPlayerId newId m)) code
                            = Some g'
                     \<and> players g' = players g @ [p] \<and> pid p = newId \<and> role p = None
                     \<and> status p = (if gameStatus g = Lobby \<or> gameStatus g = Ended
                                     then Active else Waiting)"
    by (auto simp: j)
qed

text \<open>
  The disconnected spectator \<open>d\<close> of a running game comes back under the stored name
  and under another one.
\<close>

theorem reconnection_effect_witness:
  "(\<exists>existing. findPlayer (Some ''d'') (players (roomOr spectatorGone)) = Some existing
       \<and> name existing = ''Dave'' \<and> status existing = Disconnected \<and> role existing = None)
   \<and> gameStatus (roomOr spectatorGone) = Playing
   \<and> snd (joinGame ''ROOM01'' ''s5'' ''Dave'' (Some ''d'') ''e'' (mgr (stateAfter spectatorGone)))
       = Done (Joined ''d'')
   \<and> playerSessions (fst (joinGame ''ROOM01'' ''s5'' ''Dave'' (Some ''d'') ''e''
                             (mgr (stateAfter spectatorGone)))) ''s5''
       = Some (''ROOM01'', ''d'')
   \<and> (\<exists>g'. games (fst (joinGame ''ROOM01'' ''s5'' ''Dave'' (Some ''d'') ''e''
                           (mgr (stateAfter spectatorGone)))) ''ROOM01'' = Some g'
          \<and> length (players g') = length (players (roomOr spectatorGone))
          \<and> players g' ! 3 = (players (roomOr spectatorGone) ! 3)\<lparr>status := Waiting\<rparr>
          \<and> players g' ! 0 = players (roomOr spectatorGone) ! 0)
   \<and> snd (joinGame ''ROOM01'' ''s5'' ''David'' (Some ''d'') ''e'' (mgr (stateAfter spectatorGone)))
       = Done (Joined ''e'')
   \<and> (\<exists>g' p. games (fst (joinGame ''ROOM01'' ''s5'' ''David'' (Some ''d'') ''e''
                             (mgr (stateAfter spectatorGone)))) ''ROOM01'' = Some g'
          \<and> players g' = players (roomOr spectatorGone) @ [p] \<and> pid p = ''e''
          \<and> status p = Waiting)"
proof -
  let ?g = "roomOr spectatorGone"
  let ?m = "mgr (stateAfter spectatorGone)"
  have "map_option gameStatus (roomAfter spectatorGone) = Some Playing" by code_simp
  then have "roomAfter spectatorGone \<noteq> None" by auto
  then have gm: "games ?m ''ROOM01'' = Some ?g" by (rule roomOr_room)
  have st: "gameStatus ?g = Playing" by code_simp
  have "map_option name (findPlayer (Some ''d'') (players ?g)) = Some ''Dave''"
    "map_option status (findPlayer (Some ''d'') (players ?g)) = Some Disconnected"
    "map_option role (findPlayer (Some ''d'') (players ?g)) = Some None"
    by code_simp+
  then obtain ex where ex: "findPlayer (Some ''d'') (players ?g) = Some ex"
    "name ex = ''Dave''" "status ex = Disconnected" "role ex = None"
    by auto
  have ids: "pid (players ?g ! 0) = ''a''" "pid (players ?g ! 1) = ''b''"
    "pid (players ?g ! 2) = ''c''" "pid (players ?g ! 3) = ''d''" "length (players ?g) = 4"
    by code_simp+
  then have first: "\<forall>k < 3. pid (players ?g ! k) \<noteq> ''d''"
    by (auto simp: less_Suc_eq numeral_3_eq_3 numeral_2_eq_2)
  note A = reconnection_effect [OF gm, of "Some ''d''" "''Dave''" "''s5''" "''e''",
             THEN conjunct1, rule_format, of "''d''" ex]
  note B = reconnection_effect [OF gm, of "Some ''d''" "''David''" "''s5''" "''e''",
             THEN conjunct2, rule_format, of "''d''" ex]
  from A ex have a1: "snd (joinGame ''ROOM01'' ''s5'' ''Dave'' (Some ''d'') ''e'' ?m)
                      = Done (Joined ''d'')"
    and a2: "playerSessions (fst (joinGame ''ROOM01'' ''s5'' ''Dave'' (Some ''d'') ''e'' ?m)) ''s5''
             = Some (''ROOM01'', ''d'')"
    by simp_all
  from A ex obtain g' where g': "games (fst (joinGame ''ROOM01'' ''s5'' ''Dave'' (Some ''d'') ''e'' ?m))
        ''ROOM01'' = Some g'" "length (players g') = length (players ?g)"
    and nth: "\<And>j. j < length (players ?g) \<Longrightarrow>
          players g' ! j
          = (if status ex = Disconnected \<and> pid (players ?g ! j) = ''d''
                \<and> (\<forall>k < j. pid (players ?g ! k) \<noteq> ''d'')
             then (players ?g ! j)
                    \<lparr>status := (if gameStatus ?g = Lobby \<or> gameStatus ?g = Ended then Active
                                 else if role ex \<noteq> None then Active else Waiting)\<rparr>
             else players ?g ! j)"
    by auto
  have n3: "players g' ! 3 = (players ?g ! 3)\<lparr>status := Waiting\<rparr>"
    using nth [of 3] ids first ex st by simp
  have n0: "players g' ! 0 = players ?g ! 0"
    using nth [of 0] ids by simp
  from B ex have b1: "snd (joinGame ''ROOM01'' ''s5'' ''David'' (Some ''d'') ''e'' ?m)
                      = Done (Joined ''e'')"
    by simp
  from B ex st have b2: "\<exists>g' p. games (fst (joinGame ''ROOM01'' ''s5'' ''David'' (Some ''d'') ''e'' ?m))
        ''ROOM01'' = Some g' \<and> players g' = players ?g @ [p] \<and> pid p = ''e'' \<and> status p = Waiting"
    by auto
  from ex st a1 a2 g' n3 n0 b1 b2 show ?thesis by blast
qed

text \<open>
  C10. For every existing room \<^verbatim>\<open>startNewGame\<close> succeeds whoever asks: the requester id
  is not looked at (the result is the one for \<^verbatim>\<open>null\<close>), so it never fails with
  \<open>NotHost\<close> or \<open>PlayerNotFound\<close>. It resets every player to active with no role, no
  word and cleared flags, empties the chat and sets the round counter to 0 (the game
  \<open>g0\<close>), and starts round 1 from there: afterwards the round is 1, every player is
  active with cleared flags, and the chat holds only the system messages of that start.
\<close>

theorem startNewGame_ignores_requester:
  assumes "games m code = Some g"
  shows "snd (startNewGame r code requesterId m) = Done RoundStarted
   \<and> startNewGame r code requesterId m = startNewGame r code None m
   \<and> (\<exists>g0. map pid (players g0) = map pid (players g)
          \<and> list_all (\<lambda>p. status p = Active \<and> role p = None \<and> word p = None
                           \<and> \<not> hasDescribed p \<and> \<not> hasVoted p) (players g0)
          \<and> chatHistory g0 = [] \<and> currentRound g0 = 0
          \<and> games (fst (startNewGame r code requesterId m)) code = Some (startRound r g0))
   \<and> (\<exists>g'. games (fst (startNewGame r code requesterId m)) code = Some g'
          \<and> currentRound g' = 1
          \<and> list_all (\<lambda>p. status p = Active \<and> \<not> hasDescribed p \<and> \<not> hasVoted p) (players g')
          \<and> list_all (\<lambda>c. kind c = System) (chatHistory g'))"
proof -
  define g0 where "g0 = g\<lparr>gameStatus := Playing, currentRound := 0, chatHistory := [],
                          players := map resetPlayer (players g)\<rparr>"
  have s: "startNewGame r code requesterId m
           = (m\<lparr>games := (games m)(code \<mapsto> startRound r g0)\<rparr>, Done RoundStarted)"
    using assms by (simp add: startNewGame_def onGame_def startNewGame_g_def g0_def)
  have all: "list_all (\<lambda>p. status p = Active \<and> role p = None \<and> word p = None
                           \<and> \<not> hasDescribed p \<and> \<not> hasVoted p) (players g0)"
    by (simp add: g0_def resetPlayer_all)
  then have act: "list_all (\<lambda>p. status p = Active) (players g0)"
    by (simp add: list_all_iff)
  have 1: "snd (startNewGame r code requesterId m) = Done RoundStarted" by (simp add: s)
  have 2: "startNewGame r code requesterId m = startNewGame r code None m"
    by (simp add: startNewGame_def)
  have 3: "\<exists>g0. map pid (players g0) = map pid (players g)
          \<and> list_all (\<lambda>p. status p = Active \<and> role p = None \<and> word p = None
                           \<and> \<not> hasDescribed p \<and> \<not> hasVoted p) (players g0)
          \<and> chatHistory g0 = [] \<and> currentRound g0 = 0
          \<and> games (fst (startNewGame r code requesterId m)) code = Some (startRound r g0)"
    using all by (intro exI [of _ g0]) (simp add: s g0_def)
  have 4: "\<exists>g'. games (fst (startNewGame r code requesterId m)) code = Some g'
          \<and> currentRound g' = 1
          \<and> list_all (\<lambda>p. status p = Active \<and> \<not> hasDescribed p \<and> \<not> hasVoted p) (players g')
          \<and> list_all (\<lambda>c. kind c = System) (chatHistory g')"
    using roundPlayers_all_active [OF act, of r] startRound_chat [of g0 r]
    by (intro exI [of _ "startRound r g0"]) (simp add: s startRound_players, simp add: g0_def)
  from 1 2 3 4 show ?thesis by blast
qed

text \<open>A stranger and the player \<open>b\<close>, who is not the creator, restart a room of four.\<close>

theorem startNewGame_ignores_requester_witness:
  "map_option (map pid \<circ> players) (games (mgr (stateAfter round2)) ''ROOM01'')
     = Some [''a'', ''b'', ''c'', ''d'']
   \<and> snd (startNewGame r0 ''ROOM01'' (Some ''stranger'') (mgr (stateAfter round2)))
       = Done RoundStarted
   \<and> snd (startNewGame r0 ''ROOM01'' (Some ''b'') (mgr (stateAfter round2))) = Done RoundStarted
   \<and> startNewGame r0 ''ROOM01'' (Some ''stranger'') (mgr (stateAfter round2))
       = startNewGame r0 ''ROOM01'' None (mgr (stateAfter round2))
   \<and> (\<exists>g'. games (fst (startNewGame r0 ''ROOM01'' (Some ''stranger'') (mgr (stateAfter round2))))
               ''ROOM01'' = Some g'
          \<and> currentRound g' = 1
          \<and> list_all (\<lambda>p. status p = Active \<and> \<not> hasDescribed p \<and> \<not> hasVoted p) (players g')
          \<and> list_all (\<lambda>c. kind c = System) (chatHistory g'))"
proof -
  have e: "map_option (map pid \<circ> players) (games (mgr (stateAfter round2)) ''ROOM01'')
     = Some [''a'', ''b'', ''c'', ''d'']" by code_simp
  then obtain g where g: "games (mgr (stateAfter round2)) ''ROOM01'' = Some g" by auto
  note T = startNewGame_ignores_requester [OF g, of r0]
  from e T [of "Some ''stranger''"] T [of "Some ''b''"] show ?thesis by blast
qed

end
